theory Spec2Isabelle
  imports Complex_Main
begin


section \<open>Python strings\<close>

text \<open>
  The service is a single Python module, \<^verbatim>\<open>backend/main.py\<close>. A Python \<^verbatim>\<open>str\<close> is
  modelled as a \<^typ>\<open>string\<close> whose characters are read as the code points 0 to 255, one
  character per code point; text with code points above 255 is outside the model. The
  string methods the module calls are written out below with the behaviour CPython gives
  them on such text.
\<close>

definition py_isspace :: "char \<Rightarrow> bool" where
  \<comment> \<open>the code points below 256 that \<^verbatim>\<open>str.strip()\<close> removes\<close>
  "py_isspace c \<longleftrightarrow>
     c \<in> {CHR 0x09, CHR 0x0A, CHR 0x0B, CHR 0x0C, CHR 0x0D,
          CHR 0x1C, CHR 0x1D, CHR 0x1E, CHR 0x1F, CHR 0x20, CHR 0x85, CHR 0xA0}"

definition py_strip :: "string \<Rightarrow> string" where
  "py_strip s = rev (dropWhile py_isspace (rev (dropWhile py_isspace s)))"

definition py_startswith :: "string \<Rightarrow> string \<Rightarrow> bool" where
  "py_startswith s p \<longleftrightarrow> take (length p) s = p"

definition py_endswith :: "string \<Rightarrow> string \<Rightarrow> bool" where
  "py_endswith s p \<longleftrightarrow> length p \<le> length s \<and> drop (length s - length p) s = p"

definition py_linebreak :: "char \<Rightarrow> bool" where
  \<comment> \<open>the code points below 256 at which \<^verbatim>\<open>str.splitlines()\<close> ends a line\<close>
  "py_linebreak c \<longleftrightarrow>
     c \<in> {CHR 0x0A, CHR 0x0B, CHR 0x0C, CHR 0x0D, CHR 0x1C, CHR 0x1D, CHR 0x1E, CHR 0x85}"

fun splitlines_from :: "string \<Rightarrow> string \<Rightarrow> string list" where
  \<comment> \<open>\<open>cur\<close> holds the characters of the line being read, last one first\<close>
  "splitlines_from cur [] = (if cur = [] then [] else [rev cur])"
| "splitlines_from cur (c # cs) =
     (if c = CHR 0x0D \<and> cs \<noteq> [] \<and> hd cs = CHR 0x0A
        then rev cur # splitlines_from [] (tl cs)
      else if py_linebreak c then rev cur # splitlines_from [] cs
      else splitlines_from (c # cur) cs)"

definition py_splitlines :: "string \<Rightarrow> string list" where
  "py_splitlines s = splitlines_from [] s"

fun py_join :: "string \<Rightarrow> string list \<Rightarrow> string" where
  "py_join sep [] = []"
| "py_join sep [x] = x"
| "py_join sep (x # y # ys) = x @ sep @ py_join sep (y # ys)"

fun py_find :: "string \<Rightarrow> char \<Rightarrow> int" where
  \<comment> \<open>\<^verbatim>\<open>s.find(c)\<close> for a one-character \<open>c\<close>: the lowest index, or -1\<close>
  "py_find [] c = - 1"
| "py_find (x # xs) c =
     (if x = c then 0 else (let r = py_find xs c in if r = - 1 then - 1 else r + 1))"

fun py_rfind :: "string \<Rightarrow> char \<Rightarrow> int" where
  \<comment> \<open>\<^verbatim>\<open>s.rfind(c)\<close>: the highest index, or -1\<close>
  "py_rfind [] c = - 1"
| "py_rfind (x # xs) c =
     (let r = py_rfind xs c in if r \<noteq> - 1 then r + 1 else if x = c then 0 else - 1)"

definition py_slice :: "string \<Rightarrow> int \<Rightarrow> int \<Rightarrow> string" where
  \<comment> \<open>\<^verbatim>\<open>s[i:j]\<close> for \<open>0 \<le> i\<close> and \<open>0 \<le> j\<close>, the only slices the module takes of a string\<close>
  "py_slice s i j = take (nat j - nat i) (drop (nat i) s)"

section \<open>JSON values\<close>

text \<open>
  What \<^verbatim>\<open>json.loads\<close> returns: \<^verbatim>\<open>None\<close>, a bool, an int, a float, a str, a list or a
  dict. A dict keeps its keys in insertion order, so it is an association list. A float is
  a finite value, an infinity or a NaN (\<^verbatim>\<open>json.loads\<close> accepts \<^verbatim>\<open>Infinity\<close> and \<^verbatim>\<open>NaN\<close>).
\<close>

datatype pyfloat = Finite rat | PosInf | NegInf | NaN

datatype json =
    JNull
  | JBool bool
  | JInt int
  | JFloat pyfloat
  | JString string
  | JArray "json list"
  | JObject "(string \<times> json) list"

section \<open>Extracting JSON from the model's text\<close>

text \<open>
  \<^verbatim>\<open>try_parse\<close> (main.py, lines 253 to 270). \<^verbatim>\<open>json.loads\<close> belongs to the Python
  library, not to the module, so it is the parameter \<open>loads\<close>: \<open>None\<close> when it raises,
  \<open>Some v\<close> when it returns \<open>v\<close>. Python's \<^verbatim>\<open>None\<close> is \<^const>\<open>JNull\<close>, so the result
  \<^const>\<open>JNull\<close> is what the caller tests with \<^verbatim>\<open>parsed is None\<close>.
\<close>

definition fence :: string where
  "fence = ''```''"

definition try_parse :: "(string \<Rightarrow> json option) \<Rightarrow> string \<Rightarrow> json" where
  "try_parse loads s0 =
     (if s0 = [] then JNull
      else
        let s1 = py_strip s0;
            s = (if py_startswith s1 fence \<and> py_endswith s1 fence
                 then py_join [CHR 0x0A] (butlast (tl (py_splitlines s1)))
                 else s1)
        in case loads s of
             Some v \<Rightarrow> v
           | None \<Rightarrow>
               (let start = py_find s (CHR ''{'');
                    stop = py_rfind s (CHR ''}'')
                in if start \<noteq> - 1 \<and> stop \<noteq> - 1 \<and> stop > start
                   then (case loads (py_slice s start (stop + 1)) of
                           Some v \<Rightarrow> v
                         | None \<Rightarrow> JNull)
                   else JNull))"

text \<open>
  Names for steps of \<^const>\<open>try_parse\<close>, used to state what it does: the text that is
  handed to \<^verbatim>\<open>json.loads\<close> first (stripped, and without its first and last line when it
  starts and ends with the fence), the substring from the first opening brace to the
  last closing brace, and the two attempts on a text: \<^verbatim>\<open>json.loads\<close> on the whole, else on
  that substring, else \<^verbatim>\<open>None\<close>.
\<close>

definition unwrap :: "string \<Rightarrow> string" where
  "unwrap s0 =
     (let s1 = py_strip s0
      in if py_startswith s1 fence \<and> py_endswith s1 fence
         then py_join [CHR 0x0A] (butlast (tl (py_splitlines s1)))
         else s1)"

definition brace_span :: "string \<Rightarrow> string option" where
  "brace_span s =
     (let start = py_find s (CHR ''{''); stop = py_rfind s (CHR ''}'')
      in if start \<noteq> - 1 \<and> stop \<noteq> - 1 \<and> stop > start
         then Some (py_slice s start (stop + 1)) else None)"

definition parse_body :: "(string \<Rightarrow> json option) \<Rightarrow> string \<Rightarrow> json" where
  "parse_body loads s =
     (case loads s of
        Some v \<Rightarrow> v
      | None \<Rightarrow>
          (case brace_span s of
             None \<Rightarrow> JNull
           | Some t \<Rightarrow> (case loads t of Some v \<Rightarrow> v | None \<Rightarrow> JNull)))"

text \<open>
  A text written as lines, each with the line end that follows it: a line feed, a carriage
  return with a line feed, or one of the other code points at which \<^verbatim>\<open>splitlines\<close> ends a
  line (a carriage return on its own is left out, as it would merge with a line feed
  after it).
\<close>

definition line_end :: "string \<Rightarrow> bool" where
  "line_end e \<longleftrightarrow>
     e = [CHR 0x0D, CHR 0x0A] \<or> (length e = 1 \<and> py_linebreak (hd e) \<and> hd e \<noteq> CHR 0x0D)"

definition rows_text :: "(string \<times> string) list \<Rightarrow> string" where
  "rows_text rows = concat (map (\<lambda>r. fst r @ snd r) rows)"

text \<open>
  For the worked examples, an excerpt of \<^verbatim>\<open>json.loads\<close>: the texts listed are sent to the
  values \<^verbatim>\<open>json.loads\<close> returns for them (in the second, the code point 0x85 stands inside
  a JSON string, where it needs no escape). The examples call it on these texts and, apart
  from them, only on texts on which \<^verbatim>\<open>json.loads\<close> raises; one of those is the second
  text with a line feed in the place of 0x85, a control character that a JSON string must
  escape.
\<close>

definition json_loads_excerpt :: "string \<Rightarrow> json option" where
  "json_loads_excerpt =
     map_of
       [(''{\"a\":1}'', JObject [(''a'', JInt 1)]),
        (''{\"a\":\"x'' @ [CHR 0x85] @ ''y\"}'',
           JObject [(''a'', JString (''x'' @ [CHR 0x85] @ ''y''))])]"

section \<open>Normalising the scores\<close>

text \<open>
  The normalisation block of \<^verbatim>\<open>analyze_with_genai\<close> (main.py, lines 293 to 302) applies
  \<^verbatim>\<open>int(float(val))\<close> to three fields of \<^verbatim>\<open>scores\<close> inside one \<^verbatim>\<open>try\<close>.

  \<^verbatim>\<open>int(x)\<close> of a float truncates towards zero and raises on an infinity or a NaN.
  \<^verbatim>\<open>float(i)\<close> of an int is the nearest double (ties to even) and raises when that is
  out of range. \<^verbatim>\<open>float(s)\<close> of a str belongs to the Python library and is the parameter
  \<open>s2f\<close> (\<open>None\<close> when it raises). \<^verbatim>\<open>float\<close> of a bool is 0.0 or 1.0; of a list or a dict
  it raises.
\<close>

definition py_int_of_float :: "pyfloat \<Rightarrow> int option" where
  "py_int_of_float f =
     (case f of
        Finite q \<Rightarrow> Some (if 0 \<le> q then \<lfloor>q\<rfloor> else \<lceil>q\<rceil>)
      | _ \<Rightarrow> None)"

fun bit_length :: "nat \<Rightarrow> nat" where
  "bit_length n = (if n = 0 then 0 else Suc (bit_length (n div 2)))"

declare bit_length.simps [simp del]

definition double_limit :: nat where
  \<comment> \<open>the least power of two that no finite double reaches\<close>
  "double_limit = 2 ^ 1024"

definition py_float_of_int :: "int \<Rightarrow> pyfloat option" where
  "py_float_of_int i =
     (let n = nat \<bar>i\<bar>;
          sh = bit_length n - 53;
          q = n div 2 ^ sh;
          r = n mod 2 ^ sh;
          m = (if 2 * r > 2 ^ sh \<or> (2 * r = 2 ^ sh \<and> odd q) then q + 1 else q);
          a = m * 2 ^ sh
      in if a \<ge> double_limit then None
         else Some (Finite (if i < 0 then - of_nat a else of_nat a)))"

fun py_float :: "(string \<Rightarrow> pyfloat option) \<Rightarrow> json \<Rightarrow> pyfloat option" where
  "py_float s2f JNull = None"
| "py_float s2f (JBool b) = Some (Finite (if b then 1 else 0))"
| "py_float s2f (JInt i) = py_float_of_int i"
| "py_float s2f (JFloat f) = Some f"
| "py_float s2f (JString s) = s2f s"
| "py_float s2f (JArray xs) = None"
| "py_float s2f (JObject kvs) = None"

definition int_of_float_of :: "(string \<Rightarrow> pyfloat option) \<Rightarrow> json \<Rightarrow> int option" where
  \<comment> \<open>\<^verbatim>\<open>int(float(val))\<close>\<close>
  "int_of_float_of s2f val =
     (case py_float s2f val of None \<Rightarrow> None | Some f \<Rightarrow> py_int_of_float f)"

text \<open>
  A dict is an association list read by \<^const>\<open>map_of\<close>; \<^verbatim>\<open>d[k] = v\<close> overwrites the value
  of an existing key where it stands and appends a new key at the end.
\<close>

fun dict_set :: "(string \<times> json) list \<Rightarrow> string \<Rightarrow> json \<Rightarrow> (string \<times> json) list" where
  "dict_set [] k v = [(k, v)]"
| "dict_set ((k', v') # kvs) k v =
     (if k' = k then (k, v) # kvs else (k', v') # dict_set kvs k v)"

definition dict_get :: "(string \<times> json) list \<Rightarrow> string \<Rightarrow> json" where
  \<comment> \<open>\<^verbatim>\<open>d.get(k)\<close>: \<^verbatim>\<open>None\<close> for a missing key\<close>
  "dict_get d k = (case map_of d k of None \<Rightarrow> JNull | Some v \<Rightarrow> v)"

text \<open>
  The \<^verbatim>\<open>for\<close> loop over the keys. The result is the dict as the loop leaves it and
  whether the loop ran to its end (\<open>False\<close>: \<^verbatim>\<open>int(float(val))\<close> raised and control left
  the loop for the \<^verbatim>\<open>except\<close> clause).
\<close>

fun coerce_scores ::
  "(string \<Rightarrow> pyfloat option) \<Rightarrow> string list \<Rightarrow> (string \<times> json) list
    \<Rightarrow> (string \<times> json) list \<times> bool" where
  "coerce_scores s2f [] scores = (scores, True)"
| "coerce_scores s2f (key # keys) scores =
     (let val = dict_get scores key
      in if val \<noteq> JNull
         then (case int_of_float_of s2f val of
                 None \<Rightarrow> (scores, False)
               | Some n \<Rightarrow> coerce_scores s2f keys (dict_set scores key (JInt n)))
         else coerce_scores s2f keys scores)"

definition score_keys :: "string list" where
  "score_keys = [''fluency'', ''confidence'', ''keyword_coverage_pct'']"

text \<open>
  \<^verbatim>\<open>parsed.get("scores", {})\<close> raises when \<^verbatim>\<open>parsed\<close> is not a dict, and
  \<^verbatim>\<open>scores.get(key)\<close> raises when \<^verbatim>\<open>scores\<close> is not a dict: the \<^verbatim>\<open>except\<close> clause then
  leaves \<^verbatim>\<open>parsed\<close> as it was. When \<^verbatim>\<open>parsed\<close> has a dict under \<^verbatim>\<open>"scores"\<close>, the loop
  mutates that very dict, so what it has written before raising stays in \<^verbatim>\<open>parsed\<close>.
  When \<^verbatim>\<open>parsed\<close> has no \<^verbatim>\<open>"scores"\<close>, the loop runs on a fresh empty dict, which is stored
  in \<^verbatim>\<open>parsed\<close> only if the loop ends without raising.
\<close>

definition normalize_parsed :: "(string \<Rightarrow> pyfloat option) \<Rightarrow> json \<Rightarrow> json" where
  "normalize_parsed s2f parsed =
     (case parsed of
        JObject d \<Rightarrow>
          (case map_of d ''scores'' of
             None \<Rightarrow>
               (case coerce_scores s2f score_keys [] of
                  (scores, finished) \<Rightarrow>
                    if finished then JObject (dict_set d ''scores'' (JObject scores))
                    else parsed)
           | Some (JObject sc) \<Rightarrow>
               (case coerce_scores s2f score_keys sc of
                  (scores, finished) \<Rightarrow> JObject (dict_set d ''scores'' (JObject scores)))
           | Some _ \<Rightarrow> parsed)
      | _ \<Rightarrow> parsed)"

section \<open>The analysis endpoint\<close>

text \<open>
  \<^verbatim>\<open>analyze_with_genai\<close> (main.py, lines 180 to 304). What it reads from outside the
  module is gathered in a record: the two library functions; the storage directory
  \<^verbatim>\<open>UPLOAD_DIR\<close> as its entries in the order \<^verbatim>\<open>glob\<close> yields them, each with the
  modification time that \<^verbatim>\<open>stat()\<close> gives for it, or \<open>None\<close> for an entry on which \<^verbatim>\<open>stat()\<close>
  raises \<^verbatim>\<open>FileNotFoundError\<close> and \<^verbatim>\<open>exists()\<close> is false (a symbolic link whose target is
  gone); whether a path that does not name an entry of the directory exists (a name with a
  separator, \<^verbatim>\<open>.\<close> or \<^verbatim>\<open>..\<close>, resolved from the directory); and the remote client:
  \<^verbatim>\<open>files.upload\<close> and \<^verbatim>\<open>models.generate_content\<close>, each returning \<open>Inl\<close> of a message when
  it raises.

  A handler ends by returning a body, by raising an \<^verbatim>\<open>HTTPException\<close>, or by letting
  another exception escape, which the server answers with status 500: \<open>Unhandled\<close> carries
  the exception's class.
\<close>

datatype content = Text string | FileRef string

record genai_response =
  resp_text :: "string option"
  resp_str :: string

record world =
  json_loads :: "string \<Rightarrow> json option"
  float_of_str :: "string \<Rightarrow> pyfloat option"
  dir_entries :: "(string \<times> rat option) list"
  elsewhere_exists :: "string \<Rightarrow> bool"
  files_upload :: "string \<Rightarrow> string + string"
  generate_content :: "content list \<Rightarrow> string + genai_response"

record analyze_request =
  wav_filename :: "string option"
  req_keywords :: "string list"

datatype http_error = HTTPException (status_code: nat) (detail: string) | Unhandled string

datatype analyze_body =
    AnalyzeOk (ok_result: json) (ok_raw_text: string)
  | AnalyzeError (err_message: string) (err_raw: string)

definition status :: "analyze_body \<Rightarrow> string" where
  "status b = (case b of AnalyzeOk _ _ \<Rightarrow> ''ok'' | AnalyzeError _ _ \<Rightarrow> ''error'')"

definition plain_name :: "string \<Rightarrow> bool" where
  \<comment> \<open>a name that can be an entry of a directory\<close>
  "plain_name n \<longleftrightarrow> n \<noteq> [] \<and> CHR ''/'' \<notin> set n \<and> n \<noteq> ''.'' \<and> n \<noteq> ''..''"

definition path_exists :: "world \<Rightarrow> string \<Rightarrow> bool" where
  \<comment> \<open>\<^verbatim>\<open>(UPLOAD_DIR / name).exists()\<close>\<close>
  "path_exists w n \<longleftrightarrow>
     (if plain_name n then n \<in> fst ` set (filter (\<lambda>e. snd e \<noteq> None) (dir_entries w))
      else elsewhere_exists w n)"

fun insort_desc :: "string \<times> rat \<Rightarrow> (string \<times> rat) list \<Rightarrow> (string \<times> rat) list" where
  "insort_desc x [] = [x]"
| "insort_desc x (y # ys) = (if snd x \<ge> snd y then x # y # ys else y # insort_desc x ys)"

definition sorted_mtime_desc :: "(string \<times> rat) list \<Rightarrow> (string \<times> rat) list" where
  \<comment> \<open>\<^verbatim>\<open>sorted(..., key=mtime, reverse=True)\<close>: descending, equal keys in their first order\<close>
  "sorted_mtime_desc xs = foldr insort_desc xs []"

definition glob_wav :: "world \<Rightarrow> (string \<times> rat option) list" where
  \<comment> \<open>\<^verbatim>\<open>UPLOAD_DIR.glob("*.wav")\<close>\<close>
  "glob_wav w = filter (\<lambda>e. py_endswith (fst e) ''.wav'') (dir_entries w)"

fun stat_mtimes :: "(string \<times> rat option) list \<Rightarrow> (string \<times> rat) list option" where
  \<comment> \<open>the keys \<^verbatim>\<open>p.stat().st_mtime\<close> that \<^verbatim>\<open>sorted\<close> computes; \<open>None\<close> when one \<^verbatim>\<open>stat()\<close> raises\<close>
  "stat_mtimes [] = Some []"
| "stat_mtimes ((n, None) # es) = None"
| "stat_mtimes ((n, Some t) # es) = map_option ((#) (n, t)) (stat_mtimes es)"

definition resolve_wav :: "world \<Rightarrow> string option \<Rightarrow> http_error + string" where
  \<comment> \<open>lines 189 to 199; \<^verbatim>\<open>not wav_filename\<close> holds for a missing, null or empty name\<close>
  "resolve_wav w name =
     (if name = None \<or> name = Some []
      then (case stat_mtimes (glob_wav w) of
              None \<Rightarrow> Inl (Unhandled ''FileNotFoundError'')
            | Some keyed \<Rightarrow>
                (let wavs = sorted_mtime_desc keyed
                 in if wavs = [] then Inl (HTTPException 404 ''no wav files available'')
                    else Inr (fst (hd wavs))))
      else (case name of
              Some n \<Rightarrow>
                if \<not> path_exists w n then Inl (HTTPException 404 ''wav file not found'')
                else Inr n
            | None \<Rightarrow> Inl (HTTPException 404 ''no wav files available'')))"

text \<open>
  Names used to state what the normalisation does: a field of an object, a field of the
  dict under \<^verbatim>\<open>"scores"\<close>, the value a score field is meant to get (a null is kept, a value on
  which \<^verbatim>\<open>int(float(val))\<close> returns becomes that integer, any other value stays), and
  whether a score field lets the loop go on (it is missing, null, or \<^verbatim>\<open>int(float(val))\<close>
  returns on it).
\<close>

definition field :: "json \<Rightarrow> string \<Rightarrow> json option" where
  "field v k = (case v of JObject d \<Rightarrow> map_of d k | _ \<Rightarrow> None)"

definition score_field :: "json \<Rightarrow> string \<Rightarrow> json option" where
  "score_field v k = (case field v ''scores'' of Some (JObject sc) \<Rightarrow> map_of sc k | _ \<Rightarrow> None)"

definition coerced :: "(string \<Rightarrow> pyfloat option) \<Rightarrow> json \<Rightarrow> json" where
  "coerced s2f v =
     (if v = JNull then JNull
      else (case int_of_float_of s2f v of None \<Rightarrow> v | Some n \<Rightarrow> JInt n))"

definition coercible :: "(string \<Rightarrow> pyfloat option) \<Rightarrow> (string \<times> json) list \<Rightarrow> string \<Rightarrow> bool" where
  "coercible s2f sc k \<longleftrightarrow> dict_get sc k = JNull \<or> int_of_float_of s2f (dict_get sc k) \<noteq> None"

definition trunc :: "rat \<Rightarrow> int" where
  "trunc q = (if 0 \<le> q then \<lfloor>q\<rfloor> else \<lceil>q\<rceil>)"

text \<open>
  For the worked examples, an excerpt of \<^verbatim>\<open>float\<close> on strings: \<^verbatim>\<open>float("87.9")\<close> and
  \<^verbatim>\<open>float("5.5")\<close> are the doubles given here, and \<^verbatim>\<open>float\<close> raises on the one other text
  the examples hand to it, \<^verbatim>\<open>"abc"\<close>.
\<close>

definition float_of_str_excerpt :: "string \<Rightarrow> pyfloat option" where
  "float_of_str_excerpt =
     map_of
       [(''87.9'', Finite (3092706306608333 / 35184372088832)),
        (''5.5'', Finite (11 / 2))]"

definition base_prompt_text :: string where
  "base_prompt_text =
       ''You are an assistant that transcribes an audio clip and rates the speaker with objective numeric scores.\<newline>'' @
       ''Output MUST be valid JSON and nothing else. Follow this JSON schema exactly:\<newline>'' @
       ''{\<newline>'' @
       ''  \"transcript\": \"<string>\",\<newline>'' @
       ''  \"scores\": {\<newline>'' @
       ''    \"overall\": \"<0-100>\",\<newline>'' @
       ''    \"fluency\": \"<0-100>\",\<newline>'' @
       ''    \"confidence\": \"<0-100> (INTEGER, required)\",\<newline>'' @
       ''    \"filler\": \"<0-100>\",\<newline>'' @
       ''    \"filler_rate_per_min\": \"<float> (required, decimals allowed)\",\<newline>'' @
       ''    \"tone\": \"<neutral|positive|negative|anxious|angry|happy>\",\<newline>'' @
       ''    \"keyword_coverage_pct\": \"<0-100|null>\"\<newline>'' @
       ''  },\<newline>'' @
       ''  \"counts\": {\<newline>'' @
       ''    \"total_words\": \"<int>\",\<newline>'' @
       ''    \"total_fillers\": \"<int>\",\<newline>'' @
       ''    \"long_pauses\": \"<int>\"\<newline>'' @
       ''  },\<newline>'' @
       ''  \"suggestions\": [\"<short suggestion strings>\"]\<newline>'' @
       ''}\<newline>'' @
       ''REQUIREMENTS:\<newline>'' @
       ''- \"confidence\" MUST be an integer between 0 and 100. Do not return null.\<newline>'' @
       ''- \"filler_rate_per_min\" MUST be a numeric value (decimals allowed) representing estimated filler words per minute. Do not return null.\<newline>'' @
       ''- Count filler words as occurrences of: \"um\", \"uh\", \"like\" (when used as a filler), \"you know\", \"I mean\". Do NOT count words used with clear semantic meaning.\<newline>'' @
       ''- \"total_fillers\" should be the integer count of detected filler occurrences in the transcript.\<newline>'' @
       ''- If you cannot determine a metric, estimate conservatively rather than returning null for confidence/filler_rate_per_min.\<newline>'' @
       ''Provide integers for 0-100 scores; use one decimal place for filler_rate_per_min when appropriate.\<newline>''"

definition retry_prompt :: string where
  "retry_prompt =
     ''ONLY OUTPUT A SINGLE JSON OBJECT following the schema. Do not add ANY explanatory text.''"

definition build_prompt :: "string list \<Rightarrow> string" where
  "build_prompt kws =
     (if kws \<noteq> []
      then base_prompt_text @ ''Keywords to check for coverage: '' @ py_join '', '' kws
             @ [CHR 0x0A]
      else base_prompt_text)"

definition response_text :: "genai_response \<Rightarrow> string" where
  \<comment> \<open>\<^verbatim>\<open>getattr(resp, "text", None) or str(resp)\<close>; the client's response is not a dict\<close>
  "response_text r =
     (case resp_text r of
        Some t \<Rightarrow> if t \<noteq> [] then t else resp_str r
      | None \<Rightarrow> resp_str r)"

text \<open>
  The endpoint returns the HTTP error it raises or the body it returns, together with the
  requests it has sent to \<^verbatim>\<open>generate_content\<close>, in order.
\<close>

definition analyze_with_genai ::
  "world \<Rightarrow> analyze_request \<Rightarrow> (http_error + analyze_body) \<times> content list list" where
  "analyze_with_genai w req =
     (case resolve_wav w (wav_filename req) of
        Inl e \<Rightarrow> (Inl e, [])
      | Inr wav \<Rightarrow>
          (case files_upload w wav of
             Inl e \<Rightarrow> (Inl (HTTPException 500 (''GenAI file upload failed: '' @ e)), [])
           | Inr uploaded \<Rightarrow>
               (let base_prompt = build_prompt (req_keywords req);
                    call1 = [Text base_prompt, FileRef uploaded]
                in case generate_content w call1 of
                     Inl e \<Rightarrow>
                       (Inl (HTTPException 500 (''GenAI generation failed: '' @ e)), [call1])
                   | Inr resp \<Rightarrow>
                       (let raw_text1 = response_text resp;
                            parsed1 = try_parse (json_loads w) raw_text1;
                            call2 = [Text retry_prompt, Text base_prompt, FileRef uploaded];
                            retried =
                              (if parsed1 = JNull
                               then (case generate_content w call2 of
                                       Inl e \<Rightarrow>
                                         Inl (HTTPException 500 (''GenAI retry failed: '' @ e))
                                     | Inr resp2 \<Rightarrow>
                                         (let raw_text2 = response_text resp2;
                                              parsed2 = try_parse (json_loads w) raw_text2
                                          in Inr (parsed2,
                                                  if parsed2 \<noteq> JNull then raw_text2
                                                  else raw_text1)))
                               else Inr (parsed1, raw_text1));
                            calls = (if parsed1 = JNull then [call1, call2] else [call1])
                        in case retried of
                             Inl e \<Rightarrow> (Inl e, calls)
                           | Inr (parsed, raw_text) \<Rightarrow>
                               if parsed = JNull
                               then (Inr (AnalyzeError ''Model did not return valid JSON''
                                            raw_text), calls)
                               else (Inr (AnalyzeOk (normalize_parsed (float_of_str w) parsed)
                                            raw_text), calls)))))"

section \<open>Integers as text, and paths\<close>

text \<open>
  \<^verbatim>\<open>str(i)\<close> and \<^verbatim>\<open>int(s)\<close> in base ten. \<open>decimal\<close> is the decimal notation of an integer.
  CPython (3.11 and later, and the security releases of the versions before) refuses to
  convert between an int and a decimal text of more than \<^verbatim>\<open>sys.int_info.default_max_str_digits\<close>
  digits, 4300 unless the interpreter is configured otherwise: \<^verbatim>\<open>str(i)\<close>, and so the
  formatting of \<open>i\<close> in an f-string, raises \<^verbatim>\<open>ValueError\<close> for a longer number, and so does
  \<^verbatim>\<open>int(s)\<close> for a text with more digits. The sign and underscores do not count.

  \<^verbatim>\<open>int(s)\<close> skips white space at both ends, which for a \<^verbatim>\<open>str\<close> is ASCII white space and,
  of the code points from 128 to 255, 0x85 and 0xA0 (the code points 0x1C to 0x1F, which
  \<^verbatim>\<open>str.strip()\<close> removes, are not skipped); it then takes one optional sign and digits,
  where single underscores may stand between digits, and raises (\<open>None\<close>) on anything else.
\<close>

definition digit_char :: "nat \<Rightarrow> char" where
  "digit_char d = ''0123456789'' ! d"

fun digits_of :: "nat \<Rightarrow> string" where
  "digits_of n = (if n < 10 then [digit_char n] else digits_of (n div 10) @ [digit_char (n mod 10)])"

declare digits_of.simps [simp del]

definition decimal :: "int \<Rightarrow> string" where
  "decimal i = (if i < 0 then CHR ''-'' # digits_of (nat (- i)) else digits_of (nat i))"

definition int_max_str_digits :: nat where
  "int_max_str_digits = 4300"

definition py_str :: "int \<Rightarrow> string option" where
  \<comment> \<open>\<^verbatim>\<open>str(i)\<close>; \<open>None\<close> when it raises \<^verbatim>\<open>ValueError\<close>\<close>
  "py_str i =
     (if length (digits_of (nat \<bar>i\<bar>)) > int_max_str_digits then None else Some (decimal i))"

definition is_digit :: "char \<Rightarrow> bool" where
  "is_digit c \<longleftrightarrow> (48::nat) \<le> of_char c \<and> of_char c \<le> (57::nat)"

definition digit_val :: "char \<Rightarrow> nat" where
  "digit_val c = of_char c - 48"

fun int_body :: "string \<Rightarrow> bool" where
  "int_body [] = False"
| "int_body [c] = is_digit c"
| "int_body (c # d # cs) =
     (is_digit c \<and> (if d = CHR ''_'' then int_body cs else int_body (d # cs)))"

definition int_literal :: "string \<Rightarrow> bool" where
  \<comment> \<open>digits with single underscores between them, within the limit on the number of digits\<close>
  "int_literal b \<longleftrightarrow> int_body b \<and> length (filter is_digit b) \<le> int_max_str_digits"

definition digits_value :: "string \<Rightarrow> nat" where
  "digits_value b = foldl (\<lambda>acc c. if c = CHR ''_'' then acc else 10 * acc + digit_val c) 0 b"

definition int_space :: "char \<Rightarrow> bool" where
  "int_space c \<longleftrightarrow>
     c \<in> {CHR 0x09, CHR 0x0A, CHR 0x0B, CHR 0x0C, CHR 0x0D, CHR 0x20, CHR 0x85, CHR 0xA0}"

definition py_int_of_str :: "string \<Rightarrow> int option" where
  "py_int_of_str s0 =
     (case rev (dropWhile int_space (rev (dropWhile int_space s0))) of
        [] \<Rightarrow> None
      | c # cs \<Rightarrow>
          if c = CHR ''-'' then (if int_literal cs then Some (- int (digits_value cs)) else None)
          else if c = CHR ''+'' then (if int_literal cs then Some (int (digits_value cs)) else None)
          else if int_literal (c # cs) then Some (int (digits_value (c # cs)))
          else None)"

text \<open>
  \<^verbatim>\<open>pathlib\<close> on a POSIX system, as up to Python 3.13: the name of a path is its last
  component, empty components and \<^verbatim>\<open>.\<close> being dropped; the suffix of a name starts at its
  last dot, unless that dot is the first or the last character of the name.
\<close>

fun split_on :: "char \<Rightarrow> string \<Rightarrow> string list" where
  "split_on sep [] = [[]]"
| "split_on sep (x # xs) =
     (if x = sep then [] # split_on sep xs
      else (case split_on sep xs of
              [] \<Rightarrow> [[x]]
            | p # ps \<Rightarrow> (x # p) # ps))"

definition path_name :: "string \<Rightarrow> string" where
  "path_name p =
     (let parts = filter (\<lambda>q. q \<noteq> [] \<and> q \<noteq> ''.'') (split_on (CHR ''/'') p)
      in if parts = [] then [] else last parts)"

definition path_suffix :: "string \<Rightarrow> string" where
  "path_suffix p =
     (let name = path_name p; i = py_rfind name (CHR ''.'')
      in if 0 < i \<and> i < int (length name) - 1 then drop (nat i) name else [])"

definition path_stem :: "string \<Rightarrow> string" where
  "path_stem p =
     (let name = path_name p; i = py_rfind name (CHR ''.'')
      in if 0 < i \<and> i < int (length name) - 1 then take (nat i) name else name)"

section \<open>The sequential filename allocator\<close>

text \<open>
  The module's globals \<^verbatim>\<open>_file_counter\<close> and \<^verbatim>\<open>_counter_lock\<close>, the counter file
  \<^verbatim>\<open>UPLOAD_DIR/.counter\<close> and the names of the other files of \<^verbatim>\<open>UPLOAD_DIR\<close> make the
  state. The counter file is absent, unreadable (\<^verbatim>\<open>read_text\<close> raises) or holds a text.
  Writing it succeeds, or raises and leaves the file in some state.
\<close>

datatype counter_file = Absent | Unreadable | Content string

datatype write_outcome = Written | WriteFails counter_file

record server_state =
  file_counter :: int
  counter_lock :: bool
  disk_counter :: counter_file
  files :: "string set"

definition fresh_process :: "counter_file \<Rightarrow> string set \<Rightarrow> server_state" where
  \<comment> \<open>lines 36 and 37: the globals as the module sets them when it is loaded\<close>
  "fresh_process f fs =
     \<lparr>file_counter = 0, counter_lock = False, disk_counter = f, files = fs\<rparr>"

definition load_counter :: "counter_file \<Rightarrow> int" where
  "load_counter f =
     (case f of
        Absent \<Rightarrow> 0
      | Unreadable \<Rightarrow> 0
      | Content t \<Rightarrow>
          (let s = py_strip t
           in if s = [] then 0
              else (case py_int_of_str s of None \<Rightarrow> 0 | Some k \<Rightarrow> k)))"

definition save_counter :: "write_outcome \<Rightarrow> int \<Rightarrow> counter_file \<Rightarrow> counter_file" where
  \<comment> \<open>the counter file after \<^verbatim>\<open>_save_counter\<close>, from the file before; when \<^verbatim>\<open>str(value)\<close>
      raises, nothing is written\<close>
  "save_counter wo v before =
     (case py_str v of
        None \<Rightarrow> before
      | Some t \<Rightarrow> (case wo of Written \<Rightarrow> Content t | WriteFails left \<Rightarrow> left))"

definition init_counter :: "server_state \<Rightarrow> server_state" where
  "init_counter st = st\<lparr>counter_lock := True, file_counter := load_counter (disk_counter st)\<rparr>"

text \<open>
  \<^verbatim>\<open>_safe_filename\<close> returns the name, or \<open>None\<close> when formatting the counter in the f-string
  raises \<^verbatim>\<open>ValueError\<close>, which nothing in the function catches; the counter has been
  incremented by then.
\<close>

definition safe_filename ::
  "write_outcome \<Rightarrow> string \<Rightarrow> server_state \<Rightarrow> string option \<times> server_state" where
  "safe_filename wo orig_name st =
     (let st1 = (if \<not> counter_lock st then init_counter st else st);
          ext = (if path_suffix orig_name = [] then ''.bin'' else path_suffix orig_name);
          c = file_counter st1 + 1;
          st2 = st1\<lparr>file_counter := c, disk_counter := save_counter wo c (disk_counter st1)\<rparr>
      in (case py_str c of None \<Rightarrow> None | Some d \<Rightarrow> Some (d @ ext), st2))"

text \<open>
  Two names used to state what the allocator returns: the extension it gives to an
  original name, and the names that a run of calls starting after the number \<open>c\<close> is
  meant to return.
\<close>

definition extension :: "string \<Rightarrow> string" where
  "extension orig_name = (if path_suffix orig_name = [] then ''.bin'' else path_suffix orig_name)"

fun names_from :: "int \<Rightarrow> string list \<Rightarrow> string list" where
  "names_from c [] = []"
| "names_from c (n # ns) = (decimal (c + 1) @ extension n) # names_from (c + 1) ns"

text \<open>A sequence of calls, each with the original name and the outcome of its write.\<close>

fun allocate_all ::
  "(write_outcome \<times> string) list \<Rightarrow> server_state \<Rightarrow> string option list \<times> server_state" where
  "allocate_all [] st = ([], st)"
| "allocate_all ((wo, orig_name) # calls) st =
     (case safe_filename wo orig_name st of
        (n, st1) \<Rightarrow> (case allocate_all calls st1 of (ns, st2) \<Rightarrow> (n # ns, st2)))"

section \<open>Doubles\<close>

text \<open>
  A Python float is an IEEE 754 double: the finite ones are the rationals \<open>m * 2 ^ q\<close> with
  \<open>\<bar>m\<bar> < 2 ^ 53\<close> and \<open>- 1074 \<le> q \<le> 971\<close>. \<open>to_double\<close> rounds a rational to the nearest
  double, ties to the even significand, and to an infinity from \<open>2 ^ 1024 - 2 ^ 970\<close> on;
  this is what float division returns for the exact quotient. The sign of a zero is not
  kept.
\<close>

definition pow2 :: "int \<Rightarrow> rat" where
  "pow2 e = (if 0 \<le> e then 2 ^ nat e else 1 / 2 ^ nat (- e))"

definition round_half_even :: "rat \<Rightarrow> int" where
  "round_half_even y =
     (let f = \<lfloor>y\<rfloor>
      in if y - of_int f < 1 / 2 then f
         else if y - of_int f > 1 / 2 then f + 1
         else if even f then f else f + 1)"

definition floor_log2 :: "rat \<Rightarrow> int" where
  \<comment> \<open>for \<open>0 < x\<close>, the \<open>e\<close> with \<open>2 ^ e \<le> x < 2 ^ (e + 1)\<close>\<close>
  "floor_log2 x =
     (case quotient_of x of
        (p, q) \<Rightarrow>
          (let e = int (bit_length (nat p)) - int (bit_length (nat q))
           in if pow2 e \<le> x then e else e - 1))"

definition to_double :: "rat \<Rightarrow> pyfloat" where
  "to_double x =
     (if x = 0 then Finite 0
      else
        let a = \<bar>x\<bar>;
            q = max (floor_log2 a - 52) (- 1074);
            r = of_int (round_half_even (a / pow2 q)) * pow2 q
        in if r \<ge> 2 ^ 1024 then (if x < 0 then NegInf else PosInf)
           else Finite (if x < 0 then - r else r))"

definition py_round3 :: "pyfloat \<Rightarrow> pyfloat" where
  \<comment> \<open>\<^verbatim>\<open>round(x, 3)\<close>: the double nearest to the exact value of \<open>x\<close> rounded to three decimals,
      ties to even\<close>
  "py_round3 f =
     (case f of
        Finite x \<Rightarrow> to_double (of_int (round_half_even (x * 1000)) / 1000)
      | _ \<Rightarrow> f)"

section \<open>The upload endpoint\<close>

text \<open>
  \<^verbatim>\<open>wave.open\<close> raises or gives a reader with a frame count and a frame rate. In
  \<^verbatim>\<open>frames / float(rate)\<close> both ints are converted to doubles, which raises
  \<^verbatim>\<open>OverflowError\<close> for an int beyond the doubles, and the quotient is rounded to a double.
\<close>

datatype wav_open = WaveRaises string | WaveFile (nframes: nat) (framerate: nat)

definition get_wav_duration_seconds :: "wav_open \<Rightarrow> string + pyfloat" where
  "get_wav_duration_seconds wfile =
     (case wfile of
        WaveRaises e \<Rightarrow> Inl e
      | WaveFile frames rate \<Rightarrow>
          if rate = 0 then Inr (Finite 0)
          else (case py_float_of_int (int rate) of
                  Some (Finite b) \<Rightarrow>
                    (case py_float_of_int (int frames) of
                       Some (Finite a) \<Rightarrow> Inr (to_double (a / b))
                     | _ \<Rightarrow> Inl ''int too large to convert to float'')
                | _ \<Rightarrow> Inl ''int too large to convert to float''))"

text \<open>
  What one request meets outside the module: the storage directory as the text of the path
  \<^verbatim>\<open>UPLOAD_DIR\<close>, whether the counter file is written, whether reading and writing the
  uploaded bytes raises (and whether a file is then left at the input path), how the
  converter ends (and whether a failed conversion leaves an output file), what
  \<^verbatim>\<open>wave.open\<close> gives, and whether \<^verbatim>\<open>unlink\<close> succeeds. A successful conversion leaves the
  output file in the directory.
\<close>

datatype convert_outcome = Converted | CalledProcessError | ConvertRaises string

record upload_env =
  upload_dir :: string
  counter_write :: write_outcome
  body_write :: "string option"
  partial_left :: bool
  convert :: convert_outcome
  partial_output :: bool
  wave_open :: wav_open
  unlink_ok :: bool

record upload_response =
  up_status :: string
  up_wav_filename :: string
  up_wav_path :: string
  up_duration_seconds :: "pyfloat option"
  up_message :: string

definition path_child :: "string \<Rightarrow> string \<Rightarrow> string" where
  \<comment> \<open>\<^verbatim>\<open>str(d / n)\<close> for the text \<open>d\<close> of a path and a name \<open>n\<close> without a separator\<close>
  "path_child d n =
     (if d = [] \<or> d = ''.'' then n
      else if last d = CHR ''/'' then d @ n
      else d @ ''/'' @ n)"

definition unlink :: "bool \<Rightarrow> string \<Rightarrow> string set \<Rightarrow> string set" where
  \<comment> \<open>\<^verbatim>\<open>path.unlink()\<close> inside \<^verbatim>\<open>try ... except: pass\<close>\<close>
  "unlink ok n fs = (if ok then fs - {n} else fs)"

definition upload_audio ::
  "upload_env \<Rightarrow> string option \<Rightarrow> server_state \<Rightarrow> (http_error + upload_response) \<times> server_state" where
  "upload_audio env filename st =
     (case filename of
        None \<Rightarrow> (Inl (HTTPException 400 ''No file uploaded''), st)
      | Some fname \<Rightarrow>
          if fname = [] then (Inl (HTTPException 400 ''No file uploaded''), st)
          else
            (case safe_filename (counter_write env) fname st of
               (None, st1) \<Rightarrow> (Inl (Unhandled ''ValueError''), st1)
             | (Some in_filename, st1) \<Rightarrow>
                 (case body_write env of
                    Some e \<Rightarrow>
                      (let present = (in_filename \<in> files st1 \<or> partial_left env);
                           fs = (if present
                                 then unlink (unlink_ok env) in_filename
                                        (insert in_filename (files st1))
                                 else files st1)
                       in (Inl (HTTPException 500 (''Failed to save uploaded file: '' @ e)),
                           st1\<lparr>files := fs\<rparr>))
                  | None \<Rightarrow>
                      (let out_filename = path_stem in_filename @ ''.wav'';
                           fs1 = insert in_filename (files st1);
                           failed = unlink (unlink_ok env) in_filename
                                      (if partial_output env then insert out_filename fs1
                                       else fs1)
                       in case convert env of
                            CalledProcessError \<Rightarrow>
                              (Inl (HTTPException 500 ''ffmpeg conversion failed''),
                               st1\<lparr>files := failed\<rparr>)
                          | ConvertRaises e \<Rightarrow>
                              (Inl (HTTPException 500 (''Conversion error: '' @ e)),
                               st1\<lparr>files := failed\<rparr>)
                          | Converted \<Rightarrow>
                              (let fs2 = insert out_filename fs1;
                                   duration =
                                     (case get_wav_duration_seconds (wave_open env) of
                                        Inl e \<Rightarrow> None
                                      | Inr d \<Rightarrow> Some d);
                                   fs3 = unlink (unlink_ok env) in_filename fs2
                               in (Inr \<lparr>up_status = ''ok'',
                                        up_wav_filename = out_filename,
                                        up_wav_path = path_child (upload_dir env) out_filename,
                                        up_duration_seconds = map_option py_round3 duration,
                                        up_message =
                                          ''File converted to WAV (mono, 16k). Proceed with transcription/analysis.''\<rparr>,
                                   st1\<lparr>files := fs3\<rparr>))))))"

section \<open>A world for the worked examples\<close>

text \<open>
  A storage directory with two wave files and a text file, a path outside the directory
  that exists, an upload that returns a handle made from the path, and a remote model that
  answers the first request with prose and the retry (the request of three parts) with
  \<open>second\<close>.
\<close>

definition prose_response :: genai_response where
  "prose_response = \<lparr>resp_text = Some ''Here you go!'', resp_str = ''<response>''\<rparr>"

definition json_response :: genai_response where
  "json_response = \<lparr>resp_text = Some ''{\"a\":1}'', resp_str = ''<response>''\<rparr>"

definition scripted_world :: "string + genai_response \<Rightarrow> world" where
  "scripted_world second =
     \<lparr>json_loads = json_loads_excerpt,
      float_of_str = float_of_str_excerpt,
      dir_entries = [(''1.wav'', Some 10), (''notes.txt'', Some 30), (''2.wav'', Some 20)],
      elsewhere_exists = (\<lambda>p. p = ''../secret.wav''),
      files_upload = (\<lambda>p. Inr (''files/'' @ p)),
      generate_content = (\<lambda>cs. if length cs = 3 then second else Inr prose_response)\<rparr>"

text \<open>
  An upload in which the bytes are written and the converter succeeds; what \<^verbatim>\<open>wave.open\<close>
  gives and whether \<^verbatim>\<open>unlink\<close> succeeds are left open.
\<close>

definition converting_env :: "wav_open \<Rightarrow> bool \<Rightarrow> upload_env" where
  "converting_env wave ok =
     \<lparr>upload_dir = ''uploads'', counter_write = Written, body_write = None,
      partial_left = False, convert = Converted, partial_output = False,
      wave_open = wave, unlink_ok = ok\<rparr>"

definition converted_message :: string where
  "converted_message = ''File converted to WAV (mono, 16k). Proceed with transcription/analysis.''"

section \<open>Properties of the extraction\<close>

lemma try_parse_unfold:
  "try_parse loads s0 =
     (if s0 = [] then JNull
      else case loads (unwrap s0) of
             Some v \<Rightarrow> v
           | None \<Rightarrow> (case brace_span (unwrap s0) of
                        None \<Rightarrow> JNull
                      | Some t \<Rightarrow> (case loads t of Some v \<Rightarrow> v | None \<Rightarrow> JNull)))"
  by (simp add: try_parse_def unwrap_def brace_span_def Let_def split: option.splits)

lemma dropWhile_id: "xs = [] \<or> \<not> P (hd xs) \<Longrightarrow> dropWhile P xs = xs"
  by (cases xs) auto

lemma py_strip_id:
  assumes "s \<noteq> []" "\<not> py_isspace (hd s)" "\<not> py_isspace (last s)"
  shows "py_strip s = s"
proof -
  have "dropWhile py_isspace s = s" using assms by (simp add: dropWhile_id)
  moreover have "dropWhile py_isspace (rev s) = rev s"
    using assms by (intro dropWhile_id) (simp add: hd_rev)
  ultimately show ?thesis by (simp add: py_strip_def)
qed

lemma py_strip_padded:
  assumes "\<forall>c\<in>set a. py_isspace c" "\<forall>c\<in>set b. py_isspace c"
      and "t \<noteq> []" "\<not> py_isspace (hd t)" "\<not> py_isspace (last t)"
  shows "py_strip (a @ t @ b) = t"
proof -
  have 1: "dropWhile py_isspace (a @ t @ b) = t @ b"
    using assms(1,3,4) by (simp add: dropWhile_append3 dropWhile_id)
  have 2: "dropWhile py_isspace (rev (t @ b)) = rev t"
  proof -
    have "dropWhile py_isspace (rev b @ rev t) = dropWhile py_isspace (rev t)"
      by (rule dropWhile_append2) (use assms(2) in auto)
    also have "\<dots> = rev t"
      using assms(3,5) by (intro dropWhile_id) (simp add: hd_rev)
    finally show ?thesis by simp
  qed
  show ?thesis by (simp only: py_strip_def 1 2 rev_rev_ident)
qed


lemma splitlines_from_clean:
  "\<forall>c\<in>set l. \<not> py_linebreak c \<Longrightarrow>
   splitlines_from cur (l @ rest) = splitlines_from (rev l @ cur) rest"
proof (induction l arbitrary: cur)
  case Nil then show ?case by simp
next
  case (Cons c l)
  have "c \<noteq> CHR 0x0D" using Cons.prems by (auto simp: py_linebreak_def)
  then show ?case using Cons by simp
qed

lemma splitlines_from_LF:
  "splitlines_from cur (CHR 0x0A # rest) = rev cur # splitlines_from [] rest"
  by (simp add: py_linebreak_def)

lemma splitlines_join:
  assumes "\<forall>l\<in>set ls. \<forall>c\<in>set l. \<not> py_linebreak c" "ls \<noteq> []" "last ls \<noteq> []"
  shows "py_splitlines (py_join [CHR 0x0A] ls) = ls"
  using assms
proof (induction "[CHR 0x0A]" ls rule: py_join.induct)
  case 1 then show ?case by simp
next
  case (2 x)
  then have "splitlines_from [] (x @ []) = splitlines_from (rev x @ []) []"
    by (intro splitlines_from_clean) simp
  with 2 show ?case by (simp add: py_splitlines_def)
next
  case (3 x y ys)
  have "splitlines_from [] (x @ (CHR 0x0A # py_join [CHR 0x0A] (y # ys)))
        = splitlines_from (rev x @ []) (CHR 0x0A # py_join [CHR 0x0A] (y # ys))"
    using 3(2) by (intro splitlines_from_clean) simp
  also have "\<dots> = x # splitlines_from [] (py_join [CHR 0x0A] (y # ys))"
    by (simp add: splitlines_from_LF del: splitlines_from.simps)
  finally show ?case using 3 by (simp add: py_splitlines_def)
qed

lemma py_find_append:
  "c \<notin> set pre \<Longrightarrow> py_find (pre @ c # rest) c = int (length pre)"
  by (induction pre) (auto simp: Let_def)

lemma py_rfind_notin: "c \<notin> set xs \<Longrightarrow> py_rfind xs c = - 1"
  by (induction xs) (auto simp: Let_def)

lemma py_rfind_append:
  "c \<notin> set post \<Longrightarrow> py_rfind (xs @ c # post) c = int (length xs)"
proof (induction xs)
  case Nil then show ?case by (simp add: py_rfind_notin Let_def)
next
  case (Cons x xs) then show ?case by (simp add: Let_def)
qed

lemma py_join_snoc:
  "py_join sep (xs @ [z]) = (if xs = [] then z else py_join sep xs @ sep @ z)"
  by (induction sep xs rule: py_join.induct) auto

lemma py_join_Cons:
  "py_join sep (x # xs) = (if xs = [] then x else x @ sep @ py_join sep xs)"
  by (cases xs) auto

lemma fence_not_break: "\<forall>c\<in>set fence. \<not> py_linebreak c"
  by (simp add: fence_def py_linebreak_def)

lemma py_endswith_append: "py_endswith (xs @ p) p"
  by (simp add: py_endswith_def)

lemma py_startswith_append: "py_startswith (p @ xs) p"
  by (simp add: py_startswith_def)

lemma unwrap_fenced:
  assumes "\<forall>c\<in>set info. \<not> py_linebreak c"
      and "\<forall>l\<in>set ls. \<forall>c\<in>set l. \<not> py_linebreak c"
  shows "unwrap (py_join [CHR 0x0A] ((fence @ info) # ls @ [fence])) = py_join [CHR 0x0A] ls"
proof -
  let ?lines = "(fence @ info) # ls @ [fence]"
  let ?t = "py_join [CHR 0x0A] ?lines"
  have t1: "?t = fence @ info @ [CHR 0x0A] @ py_join [CHR 0x0A] (ls @ [fence])"
    by (simp add: py_join_Cons)
  have t2: "?t = py_join [CHR 0x0A] ((fence @ info) # ls) @ [CHR 0x0A] @ fence"
    using py_join_snoc [of "[CHR 0x0A]" "(fence @ info) # ls" fence] by simp
  have ne: "?t \<noteq> []" using t1 by (simp add: fence_def)
  have hd: "hd ?t = CHR 0x60" by (subst t1) (simp add: fence_def)
  have "last ?t = last fence" by (subst t2) (simp add: fence_def)
  then have lst: "last ?t = CHR 0x60" by (simp add: fence_def)
  have strip: "py_strip ?t = ?t"
    using ne hd lst by (intro py_strip_id) (simp_all add: py_isspace_def)
  have st: "py_startswith ?t fence" by (subst t1) (rule py_startswith_append)
  have en: "py_endswith ?t fence"
    by (subst t2) (metis append.assoc py_endswith_append)
  have "\<forall>l\<in>set ?lines. \<forall>c\<in>set l. \<not> py_linebreak c"
    using assms fence_not_break by auto
  moreover have "last ?lines \<noteq> []" by (simp add: fence_def)
  ultimately have "py_splitlines ?t = ?lines"
    by (intro splitlines_join) simp_all
  then show ?thesis using strip st en by (simp add: unwrap_def)
qed

lemma unwrap_plain:
  assumes "s \<noteq> []" "\<not> py_isspace (hd s)" "\<not> py_isspace (last s)"
      and "\<not> (py_startswith s fence \<and> py_endswith s fence)"
  shows "unwrap s = s"
  using assms py_strip_id [of s] by (auto simp: unwrap_def)

lemma brace_span_around:
  assumes "CHR ''{'' \<notin> set pre" "CHR ''}'' \<notin> set post"
  shows "brace_span (pre @ (CHR ''{'' # mid @ [CHR ''}'']) @ post)
         = Some (CHR ''{'' # mid @ [CHR ''}''])"
proof -
  let ?s = "pre @ (CHR ''{'' # mid @ [CHR ''}'']) @ post"
  have f: "py_find ?s (CHR ''{'') = int (length pre)"
    using assms(1) py_find_append [of "CHR ''{''" pre "mid @ [CHR ''}''] @ post"] by simp
  have "?s = (pre @ CHR ''{'' # mid) @ CHR ''}'' # post" by simp
  then have r: "py_rfind ?s (CHR ''}'') = int (length pre) + 1 + int (length mid)"
    using assms(2) py_rfind_append [of "CHR ''}''" post "pre @ CHR ''{'' # mid"] by simp
  show ?thesis
    unfolding brace_span_def f r by (simp add: py_slice_def nat_add_distrib)
qed

lemma py_strip_Nil: "py_strip [] = []"
  by (simp add: py_strip_def)

lemma try_parse_parse_body:
  "try_parse loads s0 = (if s0 = [] then JNull else parse_body loads (unwrap s0))"
  by (simp add: try_parse_unfold parse_body_def)

lemma splitlines_from_line_end:
  "line_end e \<Longrightarrow> splitlines_from cur (e @ rest) = rev cur # splitlines_from [] rest"
proof -
  assume "line_end e"
  then consider "e = [CHR 0x0D, CHR 0x0A]"
    | c where "e = [c]" "py_linebreak c" "c \<noteq> CHR 0x0D"
    by (cases e) (auto simp: line_end_def)
  then show ?thesis by cases simp_all
qed

lemma splitlines_rows:
  assumes "\<forall>r\<in>set rows. (\<forall>c\<in>set (fst r). \<not> py_linebreak c) \<and> line_end (snd r)"
      and "\<forall>c\<in>set lastl. \<not> py_linebreak c"
  shows "splitlines_from [] (rows_text rows @ lastl)
         = map fst rows @ (if lastl = [] then [] else [lastl])"
  using assms(1)
proof (induction rows)
  case Nil
  have "splitlines_from [] (lastl @ []) = splitlines_from (rev lastl @ []) []"
    using assms(2) by (rule splitlines_from_clean)
  then show ?case by (simp add: rows_text_def)
next
  case (Cons r rows)
  have r: "\<forall>c\<in>set (fst r). \<not> py_linebreak c" "line_end (snd r)" using Cons.prems by simp_all
  have "splitlines_from [] (rows_text (r # rows) @ lastl)
      = splitlines_from [] (fst r @ (snd r @ (rows_text rows @ lastl)))"
    by (simp add: rows_text_def)
  also have "\<dots> = splitlines_from (rev (fst r) @ []) (snd r @ (rows_text rows @ lastl))"
    using r(1) by (rule splitlines_from_clean)
  also have "\<dots> = fst r # splitlines_from [] (rows_text rows @ lastl)"
    using splitlines_from_line_end [OF r(2)] by simp
  finally show ?case using Cons by simp
qed

lemma unwrap_fenced_rows:
  assumes pads: "\<forall>c\<in>set a. py_isspace c" "\<forall>c\<in>set b. py_isspace c"
      and info: "\<forall>c\<in>set info. \<not> py_linebreak c" "line_end e0"
      and rows: "\<forall>r\<in>set rows. (\<forall>c\<in>set (fst r). \<not> py_linebreak c) \<and> line_end (snd r)"
  shows "unwrap (a @ (fence @ info @ e0 @ rows_text rows @ fence) @ b)
         = py_join [CHR 0x0A] (map fst rows)"
proof -
  let ?t = "fence @ info @ e0 @ rows_text rows @ fence"
  have t_rows: "?t = rows_text ((fence @ info, e0) # rows) @ fence"
    by (simp add: rows_text_def)
  have ne: "?t \<noteq> []" by (simp add: fence_def)
  have hd: "hd ?t = CHR 0x60" by (simp add: fence_def)
  have "last ?t = last fence" by (simp add: fence_def)
  then have lst: "last ?t = CHR 0x60" by (simp add: fence_def)
  have strip: "py_strip (a @ ?t @ b) = ?t"
    using pads ne hd lst by (intro py_strip_padded) (simp_all add: py_isspace_def)
  have st: "py_startswith ?t fence" by (rule py_startswith_append)
  have en: "py_endswith ?t fence"
    using py_endswith_append [of "fence @ info @ e0 @ rows_text rows" fence] by simp
  have "\<forall>r\<in>set ((fence @ info, e0) # rows).
          (\<forall>c\<in>set (fst r). \<not> py_linebreak c) \<and> line_end (snd r)"
    using info rows fence_not_break by auto
  then have "splitlines_from [] (rows_text ((fence @ info, e0) # rows) @ fence)
      = map fst ((fence @ info, e0) # rows) @ (if fence = [] then [] else [fence])"
    using fence_not_break by (rule splitlines_rows)
  then have "py_splitlines ?t = (fence @ info) # map fst rows @ [fence]"
    unfolding t_rows [symmetric] by (simp add: py_splitlines_def fence_def)
  then show ?thesis using strip st en by (simp add: unwrap_def)
qed

text \<open>
  What \<^verbatim>\<open>try_parse\<close> does on the texts that the protocol names. (a) A fenced block, with
  white space before and after it (a trailing line feed, say), an optional info string
  after the opening fence, the fences on lines of their own and every line ended by a
  line feed, by a carriage return and line feed or by another line end, is parsed as its
  body, the lines joined by line feeds: to what \<^verbatim>\<open>json.loads\<close> returns on the body or else
  on the body's brace-delimited substring. This is the result for the body given alone
  when the body is non-empty, without surrounding white space and not itself fenced.
  (b) When the stripped text is not fenced, consists of a prefix without an opening
  brace, a brace-delimited object and a suffix without a closing brace, and \<^verbatim>\<open>json.loads\<close>
  raises on the whole but returns \<open>v\<close> on the object, the result is \<open>v\<close>. (c) When
  \<^verbatim>\<open>json.loads\<close> raises on the unwrapped text and on its brace-delimited substring (or
  there is none), the result is \<^verbatim>\<open>None\<close>.
\<close>

theorem try_parse_protocol:
  "((\<forall>c\<in>set a. py_isspace c) \<and> (\<forall>c\<in>set b. py_isspace c) \<and>
    (\<forall>c\<in>set info. \<not> py_linebreak c) \<and> line_end e0 \<and>
    (\<forall>r\<in>set rows. (\<forall>c\<in>set (fst r). \<not> py_linebreak c) \<and> line_end (snd r))
     \<longrightarrow> try_parse loads (a @ (fence @ info @ e0 @ rows_text rows @ fence) @ b)
           = parse_body loads (py_join [CHR 0x0A] (map fst rows)) \<and>
         (body = py_join [CHR 0x0A] (map fst rows) \<and> body \<noteq> [] \<and>
          \<not> py_isspace (hd body) \<and> \<not> py_isspace (last body) \<and>
          \<not> (py_startswith body fence \<and> py_endswith body fence)
          \<longrightarrow> try_parse loads (a @ (fence @ info @ e0 @ rows_text rows @ fence) @ b)
                = try_parse loads body))
   \<and> (py_strip s0 = pre @ (CHR ''{'' # mid @ [CHR ''}'']) @ post \<and>
        \<not> (py_startswith (py_strip s0) fence \<and> py_endswith (py_strip s0) fence) \<and>
        CHR ''{'' \<notin> set pre \<and> CHR ''}'' \<notin> set post \<and>
        loads (py_strip s0) = None \<and> loads (CHR ''{'' # mid @ [CHR ''}'']) = Some v
        \<longrightarrow> try_parse loads s0 = v)
   \<and> (loads (unwrap s0) = None \<and>
        (\<forall>t. brace_span (unwrap s0) = Some t \<longrightarrow> loads t = None)
        \<longrightarrow> try_parse loads s0 = JNull)
   \<and> try_parse loads [] = JNull
   \<and> (s0 \<noteq> [] \<longrightarrow> try_parse loads s0 = parse_body loads (unwrap s0))"
proof -
  have fenced: "try_parse loads (a @ (fence @ info @ e0 @ rows_text rows @ fence) @ b)
           = parse_body loads (py_join [CHR 0x0A] (map fst rows)) \<and>
         (body = py_join [CHR 0x0A] (map fst rows) \<and> body \<noteq> [] \<and>
          \<not> py_isspace (hd body) \<and> \<not> py_isspace (last body) \<and>
          \<not> (py_startswith body fence \<and> py_endswith body fence)
          \<longrightarrow> try_parse loads (a @ (fence @ info @ e0 @ rows_text rows @ fence) @ b)
                = try_parse loads body)"
    if h: "(\<forall>c\<in>set a. py_isspace c) \<and> (\<forall>c\<in>set b. py_isspace c) \<and>
      (\<forall>c\<in>set info. \<not> py_linebreak c) \<and> line_end e0 \<and>
      (\<forall>r\<in>set rows. (\<forall>c\<in>set (fst r). \<not> py_linebreak c) \<and> line_end (snd r))"
  proof -
    let ?t = "a @ (fence @ info @ e0 @ rows_text rows @ fence) @ b"
    have u: "unwrap ?t = py_join [CHR 0x0A] (map fst rows)"
      using h by (intro unwrap_fenced_rows) blast+
    have ne: "?t \<noteq> []" by (simp add: fence_def)
    have 1: "try_parse loads ?t = parse_body loads (py_join [CHR 0x0A] (map fst rows))"
      using ne by (simp only: try_parse_parse_body u if_False)
    have 2: "try_parse loads ?t = try_parse loads body"
      if p: "body = py_join [CHR 0x0A] (map fst rows) \<and> body \<noteq> [] \<and>
          \<not> py_isspace (hd body) \<and> \<not> py_isspace (last body) \<and>
          \<not> (py_startswith body fence \<and> py_endswith body fence)"
    proof -
      from p have bd: "body = py_join [CHR 0x0A] (map fst rows)" and bne: "body \<noteq> []"
        by blast+
      have "unwrap body = body" using p by (intro unwrap_plain) blast+
      then have "try_parse loads body = parse_body loads body"
        using bne by (simp only: try_parse_parse_body if_False)
      then show ?thesis using 1 by (simp only: bd)
    qed
    from 1 2 show ?thesis by blast
  qed
  have prose: "try_parse loads s0 = v"
    if b: "py_strip s0 = pre @ (CHR ''{'' # mid @ [CHR ''}'']) @ post \<and>
        \<not> (py_startswith (py_strip s0) fence \<and> py_endswith (py_strip s0) fence) \<and>
        CHR ''{'' \<notin> set pre \<and> CHR ''}'' \<notin> set post \<and>
        loads (py_strip s0) = None \<and> loads (CHR ''{'' # mid @ [CHR ''}'']) = Some v"
  proof -
    from b have eq: "py_strip s0 = pre @ (CHR ''{'' # mid @ [CHR ''}'']) @ post"
      and nf: "\<not> (py_startswith (py_strip s0) fence \<and> py_endswith (py_strip s0) fence)"
      and br: "CHR ''{'' \<notin> set pre" "CHR ''}'' \<notin> set post"
      and direct: "loads (py_strip s0) = None"
      and inner: "loads (CHR ''{'' # mid @ [CHR ''}'']) = Some v"
      by blast+
    have ne: "s0 \<noteq> []" using eq py_strip_Nil by auto
    have u: "unwrap s0 = py_strip s0" using nf by (auto simp: unwrap_def Let_def)
    have "brace_span (py_strip s0) = Some (CHR ''{'' # mid @ [CHR ''}''])"
      unfolding eq using br by (rule brace_span_around)
    then show ?thesis using ne u direct inner by (simp add: try_parse_unfold)
  qed
  have none: "try_parse loads s0 = JNull"
    if "loads (unwrap s0) = None \<and> (\<forall>t. brace_span (unwrap s0) = Some t \<longrightarrow> loads t = None)"
    using that by (auto simp: try_parse_unfold split: option.splits)
  have rest: "try_parse loads [] = JNull"
    "s0 \<noteq> [] \<longrightarrow> try_parse loads s0 = parse_body loads (unwrap s0)"
    by (simp_all add: try_parse_parse_body)
  from fenced prose none rest show ?thesis by blast
qed

theorem try_parse_protocol_witness:
  "list_all py_isspace '' '' \<and> list_all py_isspace [CHR 0x0A] \<and>
   list_all (\<lambda>c. \<not> py_linebreak c) ''json{\"a\":1}'' \<and>
   line_end [CHR 0x0D, CHR 0x0A] \<and> line_end [CHR 0x0A] \<and>
   \<not> py_isspace (hd ''{\"a\":1}'') \<and> \<not> py_isspace (last ''{\"a\":1}'') \<and>
   \<not> (py_startswith ''{\"a\":1}'' fence \<and> py_endswith ''{\"a\":1}'' fence) \<and>
   try_parse json_loads_excerpt
       ('' ```json'' @ [CHR 0x0D, CHR 0x0A] @ ''{\"a\":1}'' @ [CHR 0x0A] @ ''```'' @ [CHR 0x0A])
     = try_parse json_loads_excerpt ''{\"a\":1}'' \<and>
   py_strip '' Sure: {\"a\":1} ok'' = ''Sure: {\"a\":1} ok'' \<and>
   json_loads_excerpt ''Sure: {\"a\":1} ok'' = None \<and>
   json_loads_excerpt ''{\"a\":1}'' = Some (JObject [(''a'', JInt 1)]) \<and>
   try_parse json_loads_excerpt '' Sure: {\"a\":1} ok'' = JObject [(''a'', JInt 1)] \<and>
   json_loads_excerpt (unwrap ''no json here'') = None \<and>
   brace_span (unwrap ''no json here'') = None \<and>
   try_parse json_loads_excerpt ''no json here'' = JNull"
proof -
  let ?rows = "[(''{\"a\":1}'', [CHR 0x0A])]"
  have ha: "(\<forall>c\<in>set '' ''. py_isspace c) \<and> (\<forall>c\<in>set [CHR 0x0A]. py_isspace c) \<and>
    (\<forall>c\<in>set ''json''. \<not> py_linebreak c) \<and> line_end [CHR 0x0D, CHR 0x0A] \<and>
    (\<forall>r\<in>set ?rows. (\<forall>c\<in>set (fst r). \<not> py_linebreak c) \<and> line_end (snd r))"
    by (simp add: py_linebreak_def py_isspace_def line_end_def)
  have hp: "''{\"a\":1}'' = py_join [CHR 0x0A] (map fst ?rows) \<and> ''{\"a\":1}'' \<noteq> [] \<and>
    \<not> py_isspace (hd ''{\"a\":1}'') \<and> \<not> py_isspace (last ''{\"a\":1}'') \<and>
    \<not> (py_startswith ''{\"a\":1}'' fence \<and> py_endswith ''{\"a\":1}'' fence)"
    by (simp add: py_isspace_def py_startswith_def fence_def)
  have hb: "py_strip '' Sure: {\"a\":1} ok'' = ''Sure: '' @ (CHR ''{'' # ''\"a\":1'' @ [CHR ''}'']) @ '' ok'' \<and>
        \<not> (py_startswith (py_strip '' Sure: {\"a\":1} ok'') fence \<and>
           py_endswith (py_strip '' Sure: {\"a\":1} ok'') fence) \<and>
        CHR ''{'' \<notin> set ''Sure: '' \<and> CHR ''}'' \<notin> set '' ok'' \<and>
        json_loads_excerpt (py_strip '' Sure: {\"a\":1} ok'') = None \<and>
        json_loads_excerpt (CHR ''{'' # ''\"a\":1'' @ [CHR ''}'']) = Some (JObject [(''a'', JInt 1)])"
    by (simp add: py_strip_def py_isspace_def py_startswith_def fence_def json_loads_excerpt_def)
  have hc: "json_loads_excerpt (unwrap ''no json here'') = None \<and>
        (\<forall>t. brace_span (unwrap ''no json here'') = Some t \<longrightarrow> json_loads_excerpt t = None)"
    by (simp add: unwrap_def brace_span_def py_strip_def py_isspace_def py_startswith_def
        fence_def json_loads_excerpt_def)
  have fenced: "'' '' @ (fence @ ''json'' @ [CHR 0x0D, CHR 0x0A] @ rows_text ?rows @ fence) @ [CHR 0x0A]
      = '' ```json'' @ [CHR 0x0D, CHR 0x0A] @ ''{\"a\":1}'' @ [CHR 0x0A] @ ''```'' @ [CHR 0x0A]"
    by (simp add: fence_def rows_text_def)
  note p1 = try_parse_protocol [where a = "'' ''" and b = "[CHR 0x0A]" and info = "''json''"
      and ?e0.0 = "[CHR 0x0D, CHR 0x0A]" and rows = ?rows and body = "''{\"a\":1}''"
      and loads = json_loads_excerpt and ?s0.0 = "'' Sure: {\"a\":1} ok''" and pre = "''Sure: ''"
      and mid = "''\"a\":1''" and post = "'' ok''" and v = "JObject [(''a'', JInt 1)]"]
  note p2 = try_parse_protocol [where a = "'' ''" and b = "[CHR 0x0A]" and info = "''json''"
      and ?e0.0 = "[CHR 0x0D, CHR 0x0A]" and rows = ?rows and body = "''{\"a\":1}''"
      and loads = json_loads_excerpt and ?s0.0 = "''no json here''" and pre = "''Sure: ''"
      and mid = "''\"a\":1''" and post = "'' ok''" and v = "JObject [(''a'', JInt 1)]"]
  from p1 ha hp have a: "try_parse json_loads_excerpt
       ('' ```json'' @ [CHR 0x0D, CHR 0x0A] @ ''{\"a\":1}'' @ [CHR 0x0A] @ ''```'' @ [CHR 0x0A])
       = try_parse json_loads_excerpt ''{\"a\":1}''"
    unfolding fenced by blast
  from p1 hb have b: "try_parse json_loads_excerpt '' Sure: {\"a\":1} ok'' = JObject [(''a'', JInt 1)]"
    by blast
  from p2 hc have c: "try_parse json_loads_excerpt ''no json here'' = JNull"
    by blast
  have rest: "list_all py_isspace '' '' \<and> list_all py_isspace [CHR 0x0A] \<and>
      list_all (\<lambda>c. \<not> py_linebreak c) ''json{\"a\":1}'' \<and>
      line_end [CHR 0x0D, CHR 0x0A] \<and> line_end [CHR 0x0A] \<and>
      py_strip '' Sure: {\"a\":1} ok'' = ''Sure: {\"a\":1} ok'' \<and>
      json_loads_excerpt ''Sure: {\"a\":1} ok'' = None \<and>
      json_loads_excerpt ''{\"a\":1}'' = Some (JObject [(''a'', JInt 1)]) \<and>
      json_loads_excerpt (unwrap ''no json here'') = None \<and>
      brace_span (unwrap ''no json here'') = None"
    by (simp add: unwrap_def brace_span_def py_strip_def py_isspace_def py_startswith_def
        py_linebreak_def line_end_def fence_def json_loads_excerpt_def)
  from hp rest a b c show ?thesis by blast
qed

text \<open>
  C1. A fenced text written on one line is not parsed as the JSON inside the fences: the
  first line is also the last, so dropping the first and last line drops the JSON with
  the fences and the result is \<^verbatim>\<open>None\<close>, while the same JSON without the fences parses.
  The same happens to a fenced block on lines of its own whose JSON holds, inside a
  string, a character at which \<^verbatim>\<open>splitlines\<close> ends a line (here the code point 0x85): the
  lines are joined again with a line feed, which a JSON string may not hold, so nothing
  parses, while the same JSON without the fences does.
\<close>

theorem try_parse_one_line_fence:
  "try_parse json_loads_excerpt ''```{\"a\":1}```'' = JNull \<and>
   try_parse json_loads_excerpt ''{\"a\":1}'' = JObject [(''a'', JInt 1)] \<and>
   try_parse json_loads_excerpt
       (''```json'' @ [CHR 0x0A] @ ''{\"a\":\"x'' @ [CHR 0x85] @ ''y\"}'' @ [CHR 0x0A] @ ''```'')
     = JNull \<and>
   try_parse json_loads_excerpt (''{\"a\":\"x'' @ [CHR 0x85] @ ''y\"}'')
     = JObject [(''a'', JString (''x'' @ [CHR 0x85] @ ''y''))]"
  by (simp add: try_parse_def json_loads_excerpt_def py_strip_def py_isspace_def fence_def
      py_startswith_def py_endswith_def py_splitlines_def py_linebreak_def py_slice_def
      Let_def)

section \<open>Properties of the normalisation\<close>

lemma map_of_dict_set: "map_of (dict_set d k v) = (map_of d)(k \<mapsto> v)"
  by (induction d k v rule: dict_set.induct) auto

lemma dict_get_dict_set:
  "dict_get (dict_set d k v) k' = (if k' = k then v else dict_get d k')"
  by (simp add: dict_get_def map_of_dict_set)

lemma dict_set_absent: "map_of d k = None \<Longrightarrow> dict_set d k v = d @ [(k, v)]"
  by (induction d k v rule: dict_set.induct) (auto split: if_splits)

lemma coerce_scores_other:
  "k \<notin> set keys \<Longrightarrow> map_of (fst (coerce_scores s2f keys sc)) k = map_of sc k"
proof (induction keys arbitrary: sc)
  case Nil then show ?case by simp
next
  case (Cons key keys)
  then have "k \<noteq> key" "k \<notin> set keys" by auto
  with Cons.IH show ?case
    by (simp add: Let_def map_of_dict_set split: option.splits)
qed

lemma coercible_dict_set:
  "k' \<noteq> k \<Longrightarrow> coercible s2f (dict_set sc k v) k' = coercible s2f sc k'"
  by (simp add: coercible_def dict_get_dict_set)

lemma coerce_scores_key:
  assumes "distinct keys" "k \<in> set keys"
      and "\<forall>k'\<in>set (takeWhile (\<lambda>x. x \<noteq> k) keys). coercible s2f sc k'"
  shows "map_of (fst (coerce_scores s2f keys sc)) k = map_option (coerced s2f) (map_of sc k)"
  using assms
proof (induction keys arbitrary: sc)
  case Nil then show ?case by simp
next
  case (Cons key keys)
  show ?case
  proof (cases "k = key")
    case True
    then have notin: "k \<notin> set keys" using Cons.prems(1) by simp
    show ?thesis
    proof (cases "dict_get sc key = JNull")
      case n: True
      then have "map_of sc k = None \<or> map_of sc k = Some JNull"
        using True by (auto simp: dict_get_def split: option.splits)
      then show ?thesis using n True notin
        by (auto simp: coerce_scores_other coerced_def)
    next
      case nn: False
      then obtain v where v: "map_of sc k = Some v" "v \<noteq> JNull" "dict_get sc key = v"
        using True by (auto simp: dict_get_def split: option.splits)
      show ?thesis
      proof (cases "int_of_float_of s2f v")
        case None
        then show ?thesis using v True by (simp add: coerced_def)
      next
        case (Some n)
        then show ?thesis using v True notin
          by (simp add: coerce_scores_other map_of_dict_set coerced_def)
      qed
    qed
  next
    case False
    then have kin: "k \<in> set keys" and dist: "distinct keys" and knot: "key \<notin> set keys"
      using Cons.prems by auto
    have pre: "coercible s2f sc key"
      and rest: "\<forall>k'\<in>set (takeWhile (\<lambda>x. x \<noteq> k) keys). coercible s2f sc k'"
      using Cons.prems(3) False by auto
    show ?thesis
    proof (cases "dict_get sc key = JNull")
      case True
      then show ?thesis using Cons.IH [OF dist kin rest] by simp
    next
      case nn: False
      then obtain n where n: "int_of_float_of s2f (dict_get sc key) = Some n"
        using pre by (auto simp: coercible_def)
      let ?sc = "dict_set sc key (JInt n)"
      have "\<forall>k'\<in>set (takeWhile (\<lambda>x. x \<noteq> k) keys). coercible s2f ?sc k'"
      proof
        fix k' assume k': "k' \<in> set (takeWhile (\<lambda>x. x \<noteq> k) keys)"
        then have "k' \<in> set keys" by (rule set_takeWhileD [THEN conjunct1])
        then have "k' \<noteq> key" using knot by auto
        then show "coercible s2f ?sc k'" using rest k' by (simp add: coercible_dict_set)
      qed
      from Cons.IH [OF dist kin this]
      show ?thesis using nn n False by (simp add: map_of_dict_set)
    qed
  qed
qed

lemma coerce_scores_stops:
  "\<not> coercible s2f sc key \<Longrightarrow> coerce_scores s2f (key # keys) sc = (sc, False)"
  by (auto simp: coercible_def Let_def)

lemma coerce_scores_skip:
  "dict_get sc key = JNull \<Longrightarrow> coerce_scores s2f (key # keys) sc = coerce_scores s2f keys sc"
  by (simp add: Let_def)

lemma coerce_scores_step:
  "dict_get sc key \<noteq> JNull \<Longrightarrow> int_of_float_of s2f (dict_get sc key) = Some n \<Longrightarrow>
   coerce_scores s2f (key # keys) sc = coerce_scores s2f keys (dict_set sc key (JInt n))"
  by (simp add: Let_def)

lemma bit_length_le: "n < 2 ^ k \<Longrightarrow> bit_length n \<le> k"
proof (induction k arbitrary: n)
  case 0 then show ?case by (simp add: bit_length.simps)
next
  case (Suc k)
  have "n div 2 < 2 ^ k" using Suc.prems by simp
  from Suc.IH [OF this] show ?case by (subst bit_length.simps) simp
qed

lemma py_float_of_int_small:
  assumes "\<bar>i\<bar> < 2 ^ 53"
  shows "py_float_of_int i = Some (Finite (of_int i))"
proof -
  define n where "n = nat \<bar>i\<bar>"
  have n: "n < 2 ^ 53" using assms by (simp add: n_def nat_less_iff)
  then have sh: "bit_length n - 53 = 0" using bit_length_le by fastforce
  have "(2::nat) ^ 53 \<le> 2 ^ 1024" by (rule power_increasing) simp_all
  then have lim: "\<not> double_limit \<le> n" using n unfolding double_limit_def by linarith
  have val: "(if i < 0 then - of_nat n else of_nat n) = (of_int i :: rat)"
    by (simp add: n_def of_nat_nat)
  show ?thesis
    unfolding py_float_of_int_def Let_def n_def [symmetric] sh using lim val
    by (auto split: if_splits)
qed

lemma trunc_of_int: "trunc (of_int i) = i"
  by (simp add: trunc_def)

lemma int_of_float_of_facts:
  "int_of_float_of s2f (JFloat (Finite q)) = Some (trunc q)"
  "s2f s = Some (Finite q) \<Longrightarrow> int_of_float_of s2f (JString s) = Some (trunc q)"
  "\<bar>i\<bar> < 2 ^ 53 \<Longrightarrow> int_of_float_of s2f (JInt i) = Some i"
  "int_of_float_of s2f (JBool b) = Some (if b then 1 else 0)"
  "int_of_float_of s2f (JArray xs) = None"
  "int_of_float_of s2f (JObject kvs) = None"
  by (simp_all add: int_of_float_of_def py_int_of_float_def trunc_def py_float_of_int_small)

lemma normalize_scores_dict:
  "map_of d ''scores'' = Some (JObject sc) \<Longrightarrow>
   normalize_parsed s2f (JObject d)
     = JObject (dict_set d ''scores'' (JObject (fst (coerce_scores s2f score_keys sc))))"
  by (simp add: normalize_parsed_def split: prod.splits)

lemma coerce_scores_empty: "coerce_scores s2f keys [] = ([], True)"
  by (induction keys) (simp_all add: dict_get_def)

lemma normalize_no_scores:
  "map_of d ''scores'' = None \<Longrightarrow>
   normalize_parsed s2f (JObject d) = JObject (d @ [(''scores'', JObject [])])"
  by (simp add: normalize_parsed_def coerce_scores_empty dict_set_absent)

lemma normalize_other:
  "(\<forall>d. parsed \<noteq> JObject d) \<or>
   (\<exists>d v. parsed = JObject d \<and> map_of d ''scores'' = Some v \<and> (\<forall>sc. v \<noteq> JObject sc))
   \<Longrightarrow> normalize_parsed s2f parsed = parsed"
  by (auto simp: normalize_parsed_def split: json.splits option.splits)

text \<open>
  What the normalisation does to the score fields. When the parsed object has a dict under
  \<^verbatim>\<open>"scores"\<close>, normalisation leaves the object as it was but for that dict, and goes
  through the fields \<^verbatim>\<open>fluency\<close>, \<^verbatim>\<open>confidence\<close>, \<^verbatim>\<open>keyword_coverage_pct\<close> in this order. A
  field that is missing stays missing and a null stays null; a field on which
  \<^verbatim>\<open>int(float(val))\<close> returns gets that integer, which is the value truncated towards zero
  for a float and for a string that \<^verbatim>\<open>float\<close> reads, and the value itself for an int below
  2 to the power 53 in absolute value; a field on which it raises keeps its value and
  nothing is raised. This holds for a field when every field before it is missing, null
  or coercible: the one \<^verbatim>\<open>try\<close> block encloses the whole loop, so the fields after a
  failing one are left as they are. In particular the object
  \<^verbatim>\<open>{"scores":{"fluency":"87.9"}}\<close> gets \<^verbatim>\<open>fluency\<close> 87.
\<close>

theorem normalize_coerces_scores:
  assumes "map_of d ''scores'' = Some (JObject sc)"
  shows "\<exists>sc'. normalize_parsed s2f (JObject d) = JObject (dict_set d ''scores'' (JObject sc')) \<and>
     map_of sc' ''fluency'' = map_option (coerced s2f) (map_of sc ''fluency'') \<and>
     (coercible s2f sc ''fluency'' \<longrightarrow>
        map_of sc' ''confidence'' = map_option (coerced s2f) (map_of sc ''confidence'')) \<and>
     (coercible s2f sc ''fluency'' \<and> coercible s2f sc ''confidence'' \<longrightarrow>
        map_of sc' ''keyword_coverage_pct''
          = map_option (coerced s2f) (map_of sc ''keyword_coverage_pct'')) \<and>
     (\<not> coercible s2f sc ''fluency'' \<longrightarrow> sc' = sc) \<and>
     (\<not> coercible s2f sc ''confidence'' \<longrightarrow>
        map_of sc' ''keyword_coverage_pct'' = map_of sc ''keyword_coverage_pct'') \<and>
     (\<forall>k. map_of sc k = None \<longrightarrow> map_of sc' k = None) \<and>
     (\<forall>q. coerced s2f (JFloat (Finite q)) = JInt (trunc q)) \<and>
     (\<forall>s q. s2f s = Some (Finite q) \<longrightarrow> coerced s2f (JString s) = JInt (trunc q)) \<and>
     (\<forall>i. \<bar>i\<bar> < 2 ^ 53 \<longrightarrow> coerced s2f (JInt i) = JInt i) \<and>
     (\<forall>q. d = [(''scores'', JObject sc)] \<and> sc = [(''fluency'', JString ''87.9'')] \<and>
          s2f ''87.9'' = Some (Finite q) \<and> 87 \<le> q \<and> q < 88 \<longrightarrow>
          normalize_parsed s2f (JObject d) = JObject [(''scores'', JObject [(''fluency'', JInt 87)])])"
proof -
  define sc' where "sc' = fst (coerce_scores s2f score_keys sc)"
  have dist: "distinct score_keys" by (simp add: score_keys_def)
  have 1: "normalize_parsed s2f (JObject d) = JObject (dict_set d ''scores'' (JObject sc'))"
    using assms by (simp add: normalize_scores_dict sc'_def)
  have 2: "map_of sc' ''fluency'' = map_option (coerced s2f) (map_of sc ''fluency'')"
    unfolding sc'_def by (rule coerce_scores_key [OF dist]) (simp_all add: score_keys_def)
  have 3: "map_of sc' ''confidence'' = map_option (coerced s2f) (map_of sc ''confidence'')"
    if "coercible s2f sc ''fluency''"
    unfolding sc'_def using that
    by (intro coerce_scores_key [OF dist]) (simp_all add: score_keys_def)
  have 4: "map_of sc' ''keyword_coverage_pct''
      = map_option (coerced s2f) (map_of sc ''keyword_coverage_pct'')"
    if "coercible s2f sc ''fluency'' \<and> coercible s2f sc ''confidence''"
    unfolding sc'_def using that
    by (intro coerce_scores_key [OF dist]) (simp_all add: score_keys_def)
  have 5: "sc' = sc" if "\<not> coercible s2f sc ''fluency''"
    unfolding sc'_def score_keys_def using that by (simp add: coerce_scores_stops del: coerce_scores.simps)
  have 6: "map_of sc' ''keyword_coverage_pct'' = map_of sc ''keyword_coverage_pct''"
    if nc: "\<not> coercible s2f sc ''confidence''"
  proof (cases "coercible s2f sc ''fluency''")
    case False with 5 show ?thesis by simp
  next
    case True
    show ?thesis
    proof (cases "dict_get sc ''fluency'' = JNull")
      case n: True
      then show ?thesis unfolding sc'_def score_keys_def using nc
        by (simp add: coerce_scores_skip coerce_scores_stops del: coerce_scores.simps)
    next
      case nn: False
      then obtain n where n: "int_of_float_of s2f (dict_get sc ''fluency'') = Some n"
        using True by (auto simp: coercible_def)
      have "\<not> coercible s2f (dict_set sc ''fluency'' (JInt n)) ''confidence''"
        using nc by (simp add: coercible_dict_set)
      then show ?thesis unfolding sc'_def score_keys_def using nn n
        by (simp add: coerce_scores_step coerce_scores_stops map_of_dict_set
            del: coerce_scores.simps)
    qed
  qed
  have 7: "map_of sc' k = None" if "map_of sc k = None" for k
  proof (cases "k \<in> set score_keys")
    case False then show ?thesis unfolding sc'_def using that by (simp add: coerce_scores_other)
  next
    case True
    have stays: "map_of (dict_set sc j (JInt n)) k = None"
      if "map_of sc j \<noteq> None" for j n
      using that \<open>map_of sc k = None\<close> by (auto simp: map_of_dict_set)
    have "map_of (fst (coerce_scores s2f keys s)) k = None" if "map_of s k = None" for keys s
      using that
    proof (induction keys arbitrary: s)
      case Nil then show ?case by simp
    next
      case (Cons key keys)
      show ?case
      proof (cases "dict_get s key = JNull")
        case True with Cons show ?thesis by (simp add: Let_def)
      next
        case False
        then have "key \<noteq> k" using Cons.prems by (auto simp: dict_get_def)
        then have "map_of (dict_set s key v) k = None" for v
          using Cons.prems by (simp add: map_of_dict_set)
        with Cons.IH Cons.prems False show ?thesis
          by (simp add: Let_def split: option.splits)
      qed
    qed
    then show ?thesis unfolding sc'_def using that by simp
  qed
  have 8: "coerced s2f (JFloat (Finite q)) = JInt (trunc q)" for q
    by (simp add: coerced_def int_of_float_of_facts)
  have 9: "coerced s2f (JString s) = JInt (trunc q)" if "s2f s = Some (Finite q)" for s q
    using that by (simp add: coerced_def int_of_float_of_facts)
  have 10: "coerced s2f (JInt i) = JInt i" if "\<bar>i\<bar> < 2 ^ 53" for i
    using that by (simp add: coerced_def int_of_float_of_facts)
  have 11: "normalize_parsed s2f (JObject d) = JObject [(''scores'', JObject [(''fluency'', JInt 87)])]"
    if h: "d = [(''scores'', JObject sc)] \<and> sc = [(''fluency'', JString ''87.9'')] \<and>
          s2f ''87.9'' = Some (Finite q) \<and> 87 \<le> q \<and> q < 88" for q
  proof -
    have "\<lfloor>q\<rfloor> = 87" using h by linarith
    then have "int_of_float_of s2f (JString ''87.9'') = Some 87"
      using h by (simp add: int_of_float_of_facts trunc_def)
    then show ?thesis using h
      by (simp add: normalize_parsed_def score_keys_def dict_get_def Let_def)
  qed
  from 1 2 3 4 5 6 7 8 9 10 11 show ?thesis by blast
qed

theorem normalize_coerces_scores_witness:
  "map_of [(''scores'', JObject [(''fluency'', JString ''87.9'')])] ''scores''
     = Some (JObject [(''fluency'', JString ''87.9'')]) \<and>
   float_of_str_excerpt ''87.9'' = Some (Finite (3092706306608333 / 35184372088832)) \<and>
   (87::rat) \<le> 3092706306608333 / 35184372088832 \<and>
   (3092706306608333 / 35184372088832 :: rat) < 88 \<and>
   normalize_parsed float_of_str_excerpt (JObject [(''scores'', JObject [(''fluency'', JString ''87.9'')])])
     = JObject [(''scores'', JObject [(''fluency'', JInt 87)])] \<and>
   \<not> coercible float_of_str_excerpt
       [(''fluency'', JString ''abc''), (''confidence'', JString ''5.5'')] ''fluency'' \<and>
   normalize_parsed float_of_str_excerpt
     (JObject [(''scores'', JObject [(''fluency'', JString ''abc''), (''confidence'', JString ''5.5'')])])
     = JObject [(''scores'', JObject [(''fluency'', JString ''abc''), (''confidence'', JString ''5.5'')])]"
proof -
  let ?scA = "[(''fluency'', JString ''87.9'')]"
  let ?scB = "[(''fluency'', JString ''abc''), (''confidence'', JString ''5.5'')]"
  have hA: "map_of [(''scores'', JObject ?scA)] ''scores'' = Some (JObject ?scA)" by simp
  have hB: "map_of [(''scores'', JObject ?scB)] ''scores'' = Some (JObject ?scB)" by simp
  have f: "float_of_str_excerpt ''87.9'' = Some (Finite (3092706306608333 / 35184372088832))"
    by (simp add: float_of_str_excerpt_def)
  have q: "(87::rat) \<le> 3092706306608333 / 35184372088832"
    "(3092706306608333 / 35184372088832 :: rat) < 88" by simp_all
  have nc: "\<not> coercible float_of_str_excerpt ?scB ''fluency''"
    by (simp add: coercible_def dict_get_def int_of_float_of_def float_of_str_excerpt_def)
  from normalize_coerces_scores [OF hA, of float_of_str_excerpt] f q
  have a: "normalize_parsed float_of_str_excerpt (JObject [(''scores'', JObject ?scA)])
      = JObject [(''scores'', JObject [(''fluency'', JInt 87)])]"
    by blast
  from normalize_coerces_scores [OF hB, of float_of_str_excerpt] nc
  have b: "normalize_parsed float_of_str_excerpt (JObject [(''scores'', JObject ?scB)])
      = JObject [(''scores'', JObject ?scB)]"
    by auto
  from hA f q a nc b show ?thesis by blast
qed

text \<open>
  C3. A field that cannot be coerced stops the coercion of the fields after it: with a
  non-numeric \<^verbatim>\<open>fluency\<close>, a \<^verbatim>\<open>confidence\<close> of \<^verbatim>\<open>"5.5"\<close> is returned as the string it was,
  though \<^verbatim>\<open>int(float("5.5"))\<close> is 5 and the same \<^verbatim>\<open>confidence\<close> is coerced to 5 when
  \<^verbatim>\<open>fluency\<close> is numeric or missing.
\<close>

theorem normalize_stops_at_failure:
  "normalize_parsed float_of_str_excerpt
     (JObject [(''scores'',
        JObject [(''fluency'', JString ''abc''), (''confidence'', JString ''5.5'')])])
     = JObject [(''scores'',
        JObject [(''fluency'', JString ''abc''), (''confidence'', JString ''5.5'')])] \<and>
   coerced float_of_str_excerpt (JString ''5.5'') = JInt 5 \<and>
   normalize_parsed float_of_str_excerpt
     (JObject [(''scores'', JObject [(''confidence'', JString ''5.5'')])])
     = JObject [(''scores'', JObject [(''confidence'', JInt 5)])] \<and>
   normalize_parsed float_of_str_excerpt
     (JObject [(''scores'',
        JObject [(''fluency'', JString ''87.9''), (''confidence'', JString ''5.5'')])])
     = JObject [(''scores'',
        JObject [(''fluency'', JInt 87), (''confidence'', JInt 5)])]"
proof -
  have "\<lfloor>11 / 2 :: rat\<rfloor> = 5" by (simp add: floor_eq_iff)
  moreover have "\<lfloor>3092706306608333 / 35184372088832 :: rat\<rfloor> = 87" by (simp add: floor_eq_iff)
  ultimately show ?thesis
    by (simp add: normalize_parsed_def score_keys_def dict_get_def Let_def int_of_float_of_def
        float_of_str_excerpt_def coerced_def py_int_of_float_def)
qed

text \<open>
  C4, as amended. Normalisation returns the score field \<^verbatim>\<open>filler_rate_per_min\<close> as it was
  supplied, and so every field of the dict under \<^verbatim>\<open>"scores"\<close> other than the three it
  coerces; every field of the parsed object other than \<^verbatim>\<open>"scores"\<close> keeps its value; a
  parsed object without \<^verbatim>\<open>"scores"\<close> gets an empty \<^verbatim>\<open>"scores"\<close> dict added after its other
  fields; a parsed value that is not an object, or whose \<^verbatim>\<open>"scores"\<close> is not a dict, is
  returned unchanged.
\<close>

theorem normalize_frame:
  "score_field (normalize_parsed s2f parsed) ''filler_rate_per_min''
     = score_field parsed ''filler_rate_per_min'' \<and>
   (\<forall>k. k \<notin> set score_keys \<longrightarrow> score_field (normalize_parsed s2f parsed) k = score_field parsed k) \<and>
   (\<forall>k. k \<noteq> ''scores'' \<longrightarrow> field (normalize_parsed s2f parsed) k = field parsed k) \<and>
   (\<forall>d. parsed = JObject d \<and> field parsed ''scores'' = None
        \<longrightarrow> normalize_parsed s2f parsed = JObject (d @ [(''scores'', JObject [])])) \<and>
   (\<forall>v. field parsed ''scores'' = Some v \<and> (\<forall>sc. v \<noteq> JObject sc)
        \<longrightarrow> normalize_parsed s2f parsed = parsed) \<and>
   ((\<forall>d. parsed \<noteq> JObject d) \<longrightarrow> normalize_parsed s2f parsed = parsed)"
proof -
  have other: "score_field (normalize_parsed s2f parsed) k = score_field parsed k"
    if k: "k \<notin> set score_keys" for k
  proof (cases parsed)
    case (JObject d)
    show ?thesis
    proof (cases "map_of d ''scores''")
      case None
      then show ?thesis using JObject
        by (simp add: normalize_no_scores score_field_def field_def map_add_def)
    next
      case (Some v)
      show ?thesis
      proof (cases v)
        case (JObject sc)
        then show ?thesis using Some \<open>parsed = JObject d\<close> k
          by (simp add: normalize_scores_dict score_field_def field_def map_of_dict_set
              coerce_scores_other)
      qed (use Some \<open>parsed = JObject d\<close> in \<open>simp_all add: normalize_parsed_def\<close>)
    qed
  qed (simp_all add: normalize_parsed_def)
  have top: "field (normalize_parsed s2f parsed) k = field parsed k" if k: "k \<noteq> ''scores''" for k
  proof (cases parsed)
    case (JObject d)
    show ?thesis
    proof (cases "map_of d ''scores''")
      case None
      then show ?thesis using JObject k
        by (auto simp: normalize_no_scores field_def map_add_def split: option.splits)
    next
      case (Some v)
      show ?thesis
      proof (cases v)
        case (JObject sc)
        then show ?thesis using Some \<open>parsed = JObject d\<close> k
          by (simp add: normalize_scores_dict field_def map_of_dict_set)
      qed (use Some \<open>parsed = JObject d\<close> in \<open>simp_all add: normalize_parsed_def\<close>)
    qed
  qed (simp_all add: normalize_parsed_def)
  have nondict: "normalize_parsed s2f parsed = parsed"
    if "field parsed ''scores'' = Some v \<and> (\<forall>sc. v \<noteq> JObject sc)" for v
    using that by (intro normalize_other) (auto simp: field_def split: json.splits)
  have nonobj: "normalize_parsed s2f parsed = parsed" if "\<forall>d. parsed \<noteq> JObject d"
    using that by (intro normalize_other) simp
  have added: "normalize_parsed s2f parsed = JObject (d @ [(''scores'', JObject [])])"
    if "parsed = JObject d \<and> field parsed ''scores'' = None" for d
    using that by (auto simp: normalize_no_scores field_def)
  have "''filler_rate_per_min'' \<notin> set score_keys" by (simp add: score_keys_def)
  with other top added nondict nonobj show ?thesis by blast
qed

theorem normalize_frame_witness:
  "''tone'' \<notin> set score_keys \<and> ''transcript'' \<noteq> ''scores'' \<and>
   score_field
     (normalize_parsed float_of_str_excerpt
        (JObject [(''transcript'', JString ''hi''),
                  (''scores'', JObject [(''fluency'', JString ''87.9''),
                                        (''filler_rate_per_min'', JFloat (Finite (7 / 2))),
                                        (''tone'', JString ''neutral'')])]))
     ''filler_rate_per_min'' = Some (JFloat (Finite (7 / 2))) \<and>
   score_field
     (normalize_parsed float_of_str_excerpt
        (JObject [(''transcript'', JString ''hi''),
                  (''scores'', JObject [(''fluency'', JString ''87.9''),
                                        (''filler_rate_per_min'', JFloat (Finite (7 / 2))),
                                        (''tone'', JString ''neutral'')])]))
     ''tone'' = Some (JString ''neutral'') \<and>
   field
     (normalize_parsed float_of_str_excerpt
        (JObject [(''transcript'', JString ''hi''),
                  (''scores'', JObject [(''fluency'', JString ''87.9''),
                                        (''filler_rate_per_min'', JFloat (Finite (7 / 2))),
                                        (''tone'', JString ''neutral'')])]))
     ''transcript'' = Some (JString ''hi'') \<and>
   field (JObject [(''scores'', JArray [])]) ''scores'' = Some (JArray []) \<and>
   normalize_parsed float_of_str_excerpt (JObject [(''scores'', JArray [])])
     = JObject [(''scores'', JArray [])] \<and>
   normalize_parsed float_of_str_excerpt (JArray [JInt 1]) = JArray [JInt 1] \<and>
   field (JObject [(''transcript'', JString ''hi'')]) ''scores'' = None \<and>
   normalize_parsed float_of_str_excerpt (JObject [(''transcript'', JString ''hi'')])
     = JObject ([(''transcript'', JString ''hi'')] @ [(''scores'', JObject [])])"
proof -
  let ?p = "JObject [(''transcript'', JString ''hi''),
                  (''scores'', JObject [(''fluency'', JString ''87.9''),
                                        (''filler_rate_per_min'', JFloat (Finite (7 / 2))),
                                        (''tone'', JString ''neutral'')])]"
  have k: "''tone'' \<notin> set score_keys" "''transcript'' \<noteq> ''scores''"
    by (simp_all add: score_keys_def)
  have orig: "score_field ?p ''filler_rate_per_min'' = Some (JFloat (Finite (7 / 2)))"
    "score_field ?p ''tone'' = Some (JString ''neutral'')"
    "field ?p ''transcript'' = Some (JString ''hi'')"
    by (simp_all add: score_field_def field_def)
  have arr: "field (JObject [(''scores'', JArray [])]) ''scores'' = Some (JArray [])"
    by (simp add: field_def)
  note f1 = normalize_frame [of float_of_str_excerpt ?p]
  note f2 = normalize_frame [of float_of_str_excerpt "JObject [(''scores'', JArray [])]"]
  note f3 = normalize_frame [of float_of_str_excerpt "JArray [JInt 1]"]
  note f4 = normalize_frame [of float_of_str_excerpt "JObject [(''transcript'', JString ''hi'')]"]
  have nos: "field (JObject [(''transcript'', JString ''hi'')]) ''scores'' = None"
    by (simp add: field_def)
  have g: "normalize_parsed float_of_str_excerpt (JObject [(''transcript'', JString ''hi'')])
      = JObject ([(''transcript'', JString ''hi'')] @ [(''scores'', JObject [])])"
    using f4 nos by blast
  have a: "score_field (normalize_parsed float_of_str_excerpt ?p) ''filler_rate_per_min''
      = Some (JFloat (Finite (7 / 2)))"
    using f1 orig by simp
  have b: "score_field (normalize_parsed float_of_str_excerpt ?p) ''tone'' = Some (JString ''neutral'')"
    using f1 k orig by metis
  have c: "field (normalize_parsed float_of_str_excerpt ?p) ''transcript'' = Some (JString ''hi'')"
    using f1 k orig by metis
  have d: "normalize_parsed float_of_str_excerpt (JObject [(''scores'', JArray [])])
      = JObject [(''scores'', JArray [])]"
    using f2 arr by blast
  have e: "normalize_parsed float_of_str_excerpt (JArray [JInt 1]) = JArray [JInt 1]"
    using f3 by blast
  from k a b c arr d e nos g show ?thesis by blast
qed

text \<open>
  C4, as stated, fails for a parsed object that has no \<^verbatim>\<open>"scores"\<close>: normalisation adds the
  field \<^verbatim>\<open>"scores"\<close>, with an empty dict, to the object, so a field other than the three
  score fields is changed.
\<close>

theorem normalize_adds_scores_counterexample:
  "field (JObject [(''transcript'', JString ''hi'')]) ''scores'' = None \<and>
   normalize_parsed float_of_str_excerpt (JObject [(''transcript'', JString ''hi'')])
     = JObject [(''transcript'', JString ''hi''), (''scores'', JObject [])] \<and>
   field (normalize_parsed float_of_str_excerpt (JObject [(''transcript'', JString ''hi'')]))
       ''scores''
     = Some (JObject [])"
  by (simp add: field_def normalize_parsed_def score_keys_def dict_get_def Let_def)

section \<open>Properties of the analysis endpoint\<close>

lemma set_insort_desc: "set (insort_desc x ys) = insert x (set ys)"
  by (induction ys) auto

lemma set_sorted_mtime_desc: "set (sorted_mtime_desc xs) = set xs"
  by (induction xs) (simp_all add: sorted_mtime_desc_def set_insort_desc)

lemma sorted_insort_desc:
  "sorted_wrt (\<lambda>a b. snd a \<ge> snd b) ys \<Longrightarrow> sorted_wrt (\<lambda>a b. snd a \<ge> snd b) (insort_desc x ys)"
  by (induction ys) (auto simp: set_insort_desc)

lemma sorted_sorted_mtime_desc: "sorted_wrt (\<lambda>a b. snd a \<ge> snd b) (sorted_mtime_desc xs)"
  by (induction xs) (simp_all add: sorted_mtime_desc_def sorted_insort_desc)

lemma hd_sorted_mtime_desc:
  assumes "xs \<noteq> []"
  shows "hd (sorted_mtime_desc xs) \<in> set xs"
    and "\<forall>y\<in>set xs. snd y \<le> snd (hd (sorted_mtime_desc xs))"
proof -
  let ?s = "sorted_mtime_desc xs"
  have ne: "?s \<noteq> []" using assms set_sorted_mtime_desc [of xs] by auto
  then obtain z zs where s: "?s = z # zs" by (cases ?s) auto
  then show "hd ?s \<in> set xs" using set_sorted_mtime_desc [of xs] by auto
  have "sorted_wrt (\<lambda>a b. snd a \<ge> snd b) (z # zs)"
    using sorted_sorted_mtime_desc [of xs] s by simp
  then have "\<forall>y\<in>set (z # zs). snd y \<le> snd z" by auto
  then show "\<forall>y\<in>set xs. snd y \<le> snd (hd ?s)"
    using s set_sorted_mtime_desc [of xs] by auto
qed

lemma stat_mtimes_Some:
  "stat_mtimes es = Some keyed \<Longrightarrow>
   es = map (\<lambda>e. (fst e, Some (snd e))) keyed"
proof (induction es arbitrary: keyed rule: stat_mtimes.induct)
  case 1 then show ?case by simp
next
  case (2 n es) then show ?case by simp
next
  case (3 n t es) then show ?case by (cases "stat_mtimes es") auto
qed

lemma stat_mtimes_None:
  "stat_mtimes es = None \<longleftrightarrow> (\<exists>e\<in>set es. snd e = None)"
  by (induction es rule: stat_mtimes.induct) auto

lemma resolve_wav_latest:
  assumes "name = None \<or> name = Some []" "glob_wav w \<noteq> []"
      and "\<forall>e\<in>set (glob_wav w). snd e \<noteq> None"
  shows "\<exists>n t. resolve_wav w name = Inr n \<and> (n, Some t) \<in> set (dir_entries w) \<and>
           py_endswith n ''.wav'' \<and>
           (\<forall>e\<in>set (dir_entries w). py_endswith (fst e) ''.wav'' \<longrightarrow>
              (\<exists>u. snd e = Some u \<and> u \<le> t))"
proof -
  obtain keyed where k: "stat_mtimes (glob_wav w) = Some keyed"
    using assms(3) stat_mtimes_None [of "glob_wav w"] by (cases "stat_mtimes (glob_wav w)") auto
  have g: "glob_wav w = map (\<lambda>e. (fst e, Some (snd e))) keyed"
    using k by (rule stat_mtimes_Some)
  have kne: "keyed \<noteq> []" using g assms(2) by auto
  let ?h = "hd (sorted_mtime_desc keyed)"
  have ne: "sorted_mtime_desc keyed \<noteq> []"
    using kne set_sorted_mtime_desc [of keyed] by auto
  have r: "resolve_wav w name = Inr (fst ?h)"
    using assms(1) ne k by (auto simp: resolve_wav_def Let_def)
  have mem: "?h \<in> set keyed" using hd_sorted_mtime_desc(1) [OF kne] .
  have mx: "\<forall>y\<in>set keyed. snd y \<le> snd ?h" using hd_sorted_mtime_desc(2) [OF kne] .
  have "(fst ?h, Some (snd ?h)) \<in> set (glob_wav w)"
    unfolding g using mem by force
  then have in_dir: "(fst ?h, Some (snd ?h)) \<in> set (dir_entries w)"
    and ew: "py_endswith (fst ?h) ''.wav''"
    by (auto simp: glob_wav_def)
  have "\<exists>u. snd e = Some u \<and> u \<le> snd ?h"
    if "e \<in> set (dir_entries w)" "py_endswith (fst e) ''.wav''" for e
  proof -
    have "e \<in> set (glob_wav w)" using that by (simp add: glob_wav_def)
    then obtain y where y: "y \<in> set keyed" "e = (fst y, Some (snd y))"
      unfolding g by auto
    then show ?thesis using mx by auto
  qed
  then show ?thesis using r in_dir ew by blast
qed

lemma analyze_not_found:
  "resolve_wav w (wav_filename req) = Inl e \<Longrightarrow> analyze_with_genai w req = (Inl e, [])"
  by (simp add: analyze_with_genai_def)

lemma analyze_same_resolution:
  assumes r: "resolve_wav w (wav_filename req) = resolve_wav w (wav_filename req')"
      and k: "req_keywords req = req_keywords req'"
  shows "analyze_with_genai w req = analyze_with_genai w req'"
  unfolding analyze_with_genai_def r k by (rule refl)

text \<open>
  How the endpoint finds its file. A request whose \<^verbatim>\<open>wav_filename\<close> is a non-empty name
  fails with 404 when the path made by joining the name to the storage directory does not
  exist; so it does for a plain file name that is no entry of the storage directory, or
  is an entry that does not exist (a symbolic link whose target is gone). A request without
  \<^verbatim>\<open>wav_filename\<close> (missing, null or empty) fails with 404 when no entry of the storage
  directory matches \<^verbatim>\<open>*.wav\<close>; when \<^verbatim>\<open>stat()\<close> raises on one of the matching entries, the
  exception escapes the handler; otherwise the request is answered as the request that
  names an entry matching \<^verbatim>\<open>*.wav\<close> whose modification time is the greatest among them.
\<close>

theorem analyze_resolution:
  "(wav_filename req = Some n \<and> n \<noteq> [] \<and> \<not> path_exists w n
      \<longrightarrow> analyze_with_genai w req = (Inl (HTTPException 404 ''wav file not found''), [])) \<and>
   (wav_filename req = Some n \<and> plain_name n \<and>
    n \<notin> fst ` set (filter (\<lambda>e. snd e \<noteq> None) (dir_entries w))
      \<longrightarrow> analyze_with_genai w req = (Inl (HTTPException 404 ''wav file not found''), [])) \<and>
   ((wav_filename req = None \<or> wav_filename req = Some []) \<and> glob_wav w = []
      \<longrightarrow> analyze_with_genai w req = (Inl (HTTPException 404 ''no wav files available''), [])) \<and>
   ((wav_filename req = None \<or> wav_filename req = Some []) \<and>
    (\<exists>e\<in>set (dir_entries w). py_endswith (fst e) ''.wav'' \<and> snd e = None)
      \<longrightarrow> analyze_with_genai w req = (Inl (Unhandled ''FileNotFoundError''), [])) \<and>
   ((wav_filename req = None \<or> wav_filename req = Some []) \<and> glob_wav w \<noteq> [] \<and>
    (\<forall>e\<in>set (dir_entries w). py_endswith (fst e) ''.wav'' \<longrightarrow> snd e \<noteq> None) \<and>
    (\<forall>e\<in>set (dir_entries w). plain_name (fst e))
      \<longrightarrow> (\<exists>m t. (m, Some t) \<in> set (dir_entries w) \<and> py_endswith m ''.wav'' \<and>
             (\<forall>e\<in>set (dir_entries w). py_endswith (fst e) ''.wav'' \<longrightarrow>
                (\<exists>u. snd e = Some u \<and> u \<le> t)) \<and>
             resolve_wav w (wav_filename req) = Inr m \<and>
             analyze_with_genai w req = analyze_with_genai w (req\<lparr>wav_filename := Some m\<rparr>)))"
proof (intro conjI impI)
  assume "wav_filename req = Some n \<and> n \<noteq> [] \<and> \<not> path_exists w n"
  then have "resolve_wav w (wav_filename req) = Inl (HTTPException 404 ''wav file not found'')"
    by (simp add: resolve_wav_def)
  then show "analyze_with_genai w req = (Inl (HTTPException 404 ''wav file not found''), [])"
    by (rule analyze_not_found)
next
  assume a: "wav_filename req = Some n \<and> plain_name n \<and>
    n \<notin> fst ` set (filter (\<lambda>e. snd e \<noteq> None) (dir_entries w))"
  then have "n \<noteq> []" "\<not> path_exists w n" by (auto simp: plain_name_def path_exists_def)
  with a have "resolve_wav w (wav_filename req) = Inl (HTTPException 404 ''wav file not found'')"
    by (simp add: resolve_wav_def)
  then show "analyze_with_genai w req = (Inl (HTTPException 404 ''wav file not found''), [])"
    by (rule analyze_not_found)
next
  assume "(wav_filename req = None \<or> wav_filename req = Some []) \<and> glob_wav w = []"
  then have "resolve_wav w (wav_filename req) = Inl (HTTPException 404 ''no wav files available'')"
    by (auto simp: resolve_wav_def sorted_mtime_desc_def)
  then show "analyze_with_genai w req = (Inl (HTTPException 404 ''no wav files available''), [])"
    by (rule analyze_not_found)
next
  assume a: "(wav_filename req = None \<or> wav_filename req = Some []) \<and>
    (\<exists>e\<in>set (dir_entries w). py_endswith (fst e) ''.wav'' \<and> snd e = None)"
  then have "\<exists>e\<in>set (glob_wav w). snd e = None" by (auto simp: glob_wav_def)
  then have "stat_mtimes (glob_wav w) = None" by (simp add: stat_mtimes_None)
  with a have "resolve_wav w (wav_filename req) = Inl (Unhandled ''FileNotFoundError'')"
    by (auto simp: resolve_wav_def)
  then show "analyze_with_genai w req = (Inl (Unhandled ''FileNotFoundError''), [])"
    by (rule analyze_not_found)
next
  assume a: "(wav_filename req = None \<or> wav_filename req = Some []) \<and> glob_wav w \<noteq> [] \<and>
    (\<forall>e\<in>set (dir_entries w). py_endswith (fst e) ''.wav'' \<longrightarrow> snd e \<noteq> None) \<and>
    (\<forall>e\<in>set (dir_entries w). plain_name (fst e))"
  then have "\<forall>e\<in>set (glob_wav w). snd e \<noteq> None" by (auto simp: glob_wav_def)
  with a resolve_wav_latest [of "wav_filename req" w] obtain m t where
    m: "resolve_wav w (wav_filename req) = Inr m" "(m, Some t) \<in> set (dir_entries w)"
      "py_endswith m ''.wav''"
      "\<forall>e\<in>set (dir_entries w). py_endswith (fst e) ''.wav'' \<longrightarrow> (\<exists>u. snd e = Some u \<and> u \<le> t)"
    by blast
  have pl: "plain_name m" using a m(2) by force
  then have ne: "m \<noteq> []" by (simp add: plain_name_def)
  have "m \<in> fst ` set (filter (\<lambda>e. snd e \<noteq> None) (dir_entries w))"
    using m(2) by force
  then have "path_exists w m" using pl by (simp add: path_exists_def)
  then have "resolve_wav w (Some m) = Inr m" using ne by (simp add: resolve_wav_def)
  then have "analyze_with_genai w req = analyze_with_genai w (req\<lparr>wav_filename := Some m\<rparr>)"
    using m(1) by (intro analyze_same_resolution) simp_all
  with m show "\<exists>m t. (m, Some t) \<in> set (dir_entries w) \<and> py_endswith m ''.wav'' \<and>
             (\<forall>e\<in>set (dir_entries w). py_endswith (fst e) ''.wav'' \<longrightarrow>
                (\<exists>u. snd e = Some u \<and> u \<le> t)) \<and>
             resolve_wav w (wav_filename req) = Inr m \<and>
             analyze_with_genai w req = analyze_with_genai w (req\<lparr>wav_filename := Some m\<rparr>)"
    by blast
qed

lemma try_parse_prose: "try_parse json_loads_excerpt ''Here you go!'' = JNull"
  by (simp add: try_parse_def json_loads_excerpt_def py_strip_def py_isspace_def fence_def
      py_startswith_def)

lemma try_parse_json: "try_parse json_loads_excerpt ''{\"a\":1}'' = JObject [(''a'', JInt 1)]"
  by (simp add: try_parse_def json_loads_excerpt_def py_strip_def py_isspace_def fence_def
      py_startswith_def)

lemma scripted_resolution:
  "resolve_wav (scripted_world s) (Some ''1.wav'') = Inr ''1.wav''"
  "resolve_wav (scripted_world s) (Some ''../secret.wav'') = Inr ''../secret.wav''"
  "resolve_wav (scripted_world s) (Some ''secret.wav'')
     = Inl (HTTPException 404 ''wav file not found'')"
  "resolve_wav (scripted_world s) None = Inr ''2.wav''"
  by (simp_all add: resolve_wav_def path_exists_def plain_name_def scripted_world_def
      glob_wav_def py_endswith_def sorted_mtime_desc_def)

text \<open>
  C8. The storage of the example holds \<^verbatim>\<open>1.wav\<close>, \<^verbatim>\<open>2.wav\<close> and \<^verbatim>\<open>notes.txt\<close>, and a file
  \<^verbatim>\<open>secret.wav\<close> stands beside the storage directory. No file of the name \<^verbatim>\<open>../secret.wav\<close>
  is in storage, yet the request that gives this name is not refused with 404: the name is
  joined to the storage directory unchecked, the path leads out of it to a file that
  exists, and that file is uploaded to the remote model and analysed. The request that
  gives the name \<^verbatim>\<open>secret.wav\<close> is refused, and the request without a name picks from the
  entries of the storage only.
\<close>

theorem analyze_path_outside_storage:
  "''../secret.wav'' \<notin> fst ` set (dir_entries (scripted_world (Inr json_response))) \<and>
   analyze_with_genai (scripted_world (Inr json_response))
       \<lparr>wav_filename = Some ''../secret.wav'', req_keywords = []\<rparr>
     = (Inr (AnalyzeOk (JObject [(''a'', JInt 1), (''scores'', JObject [])]) ''{\"a\":1}''),
        [[Text base_prompt_text, FileRef ''files/../secret.wav''],
         [Text retry_prompt, Text base_prompt_text, FileRef ''files/../secret.wav'']]) \<and>
   fst (analyze_with_genai (scripted_world (Inr json_response))
       \<lparr>wav_filename = Some ''secret.wav'', req_keywords = []\<rparr>)
     = Inl (HTTPException 404 ''wav file not found'') \<and>
   snd (analyze_with_genai (scripted_world (Inr json_response))
       \<lparr>wav_filename = None, req_keywords = []\<rparr>)
     = [[Text base_prompt_text, FileRef ''files/2.wav''],
        [Text retry_prompt, Text base_prompt_text, FileRef ''files/2.wav'']]"
proof -
  have 1: "''../secret.wav'' \<notin> fst ` set (dir_entries (scripted_world (Inr json_response)))"
    by (simp add: scripted_world_def)
  have 2: "analyze_with_genai (scripted_world (Inr json_response))
       \<lparr>wav_filename = Some ''../secret.wav'', req_keywords = []\<rparr>
     = (Inr (AnalyzeOk (JObject [(''a'', JInt 1), (''scores'', JObject [])]) ''{\"a\":1}''),
        [[Text base_prompt_text, FileRef ''files/../secret.wav''],
         [Text retry_prompt, Text base_prompt_text, FileRef ''files/../secret.wav'']])"
    by (simp add: analyze_with_genai_def scripted_resolution)
       (simp add: scripted_world_def build_prompt_def response_text_def prose_response_def
         json_response_def try_parse_prose try_parse_json normalize_no_scores Let_def)
  have 3: "fst (analyze_with_genai (scripted_world (Inr json_response))
       \<lparr>wav_filename = Some ''secret.wav'', req_keywords = []\<rparr>)
     = Inl (HTTPException 404 ''wav file not found'')"
    by (simp add: analyze_with_genai_def scripted_resolution)
  have 4: "snd (analyze_with_genai (scripted_world (Inr json_response))
       \<lparr>wav_filename = None, req_keywords = []\<rparr>)
     = [[Text base_prompt_text, FileRef ''files/2.wav''],
        [Text retry_prompt, Text base_prompt_text, FileRef ''files/2.wav'']]"
    by (simp add: analyze_with_genai_def scripted_resolution)
       (simp add: scripted_world_def build_prompt_def response_text_def prose_response_def
         json_response_def try_parse_prose try_parse_json normalize_no_scores Let_def)
  from 1 2 3 4 show ?thesis by blast
qed

lemma analyze_first_parses:
  assumes "resolve_wav w (wav_filename req) = Inr wav" "files_upload w wav = Inr u"
      and "generate_content w [Text (build_prompt (req_keywords req)), FileRef u] = Inr resp1"
      and "try_parse (json_loads w) (response_text resp1) \<noteq> JNull"
  shows "analyze_with_genai w req =
     (Inr (AnalyzeOk (normalize_parsed (float_of_str w) (try_parse (json_loads w) (response_text resp1)))
             (response_text resp1)),
      [[Text (build_prompt (req_keywords req)), FileRef u]])"
  using assms by (simp add: analyze_with_genai_def Let_def)

lemma analyze_retry:
  assumes "resolve_wav w (wav_filename req) = Inr wav" "files_upload w wav = Inr u"
      and "generate_content w [Text (build_prompt (req_keywords req)), FileRef u] = Inr resp1"
      and "try_parse (json_loads w) (response_text resp1) = JNull"
  shows "analyze_with_genai w req =
     ((case generate_content w
              [Text retry_prompt, Text (build_prompt (req_keywords req)), FileRef u] of
         Inl e \<Rightarrow> Inl (HTTPException 500 (''GenAI retry failed: '' @ e))
       | Inr resp2 \<Rightarrow>
           if try_parse (json_loads w) (response_text resp2) \<noteq> JNull
           then Inr (AnalyzeOk (normalize_parsed (float_of_str w)
                                 (try_parse (json_loads w) (response_text resp2)))
                       (response_text resp2))
           else Inr (AnalyzeError ''Model did not return valid JSON'' (response_text resp1))),
      [[Text (build_prompt (req_keywords req)), FileRef u],
       [Text retry_prompt, Text (build_prompt (req_keywords req)), FileRef u]])"
  using assms by (simp add: analyze_with_genai_def Let_def split: sum.splits)

text \<open>
  C7, as amended. When the first response does not parse, the endpoint sends exactly one
  more request: the stricter instruction, then the original prompt, then the same uploaded
  file. If the retry's text parses, the result is its parse after normalisation and the
  raw text is the retry's text; if it does not parse, the body has status
  \<^verbatim>\<open>"error"\<close>, the message and the raw text of the first response (the retry's text
  replaces it only when it parses); if the retry raises, the request fails with 500. In
  each case the two requests are all that is sent.
\<close>

theorem analyze_retries_once:
  assumes "resolve_wav w (wav_filename req) = Inr wav"
      and "files_upload w wav = Inr u"
      and "generate_content w [Text (build_prompt (req_keywords req)), FileRef u] = Inr resp1"
      and "try_parse (json_loads w) (response_text resp1) = JNull"
  shows "snd (analyze_with_genai w req) =
           [[Text (build_prompt (req_keywords req)), FileRef u],
            [Text retry_prompt, Text (build_prompt (req_keywords req)), FileRef u]] \<and>
         (\<forall>resp2.
            generate_content w
                [Text retry_prompt, Text (build_prompt (req_keywords req)), FileRef u] = Inr resp2 \<and>
            try_parse (json_loads w) (response_text resp2) \<noteq> JNull
            \<longrightarrow> fst (analyze_with_genai w req) =
                  Inr (AnalyzeOk (normalize_parsed (float_of_str w)
                                    (try_parse (json_loads w) (response_text resp2)))
                         (response_text resp2))) \<and>
         (\<forall>resp2.
            generate_content w
                [Text retry_prompt, Text (build_prompt (req_keywords req)), FileRef u] = Inr resp2 \<and>
            try_parse (json_loads w) (response_text resp2) = JNull
            \<longrightarrow> fst (analyze_with_genai w req) =
                  Inr (AnalyzeError ''Model did not return valid JSON'' (response_text resp1)) \<and>
                status (AnalyzeError ''Model did not return valid JSON'' (response_text resp1))
                  = ''error'') \<and>
         (\<forall>e.
            generate_content w
                [Text retry_prompt, Text (build_prompt (req_keywords req)), FileRef u] = Inl e
            \<longrightarrow> fst (analyze_with_genai w req) =
                  Inl (HTTPException 500 (''GenAI retry failed: '' @ e)))"
  unfolding analyze_retry [OF assms] by (simp add: status_def)

theorem analyze_retries_once_witness:
  "resolve_wav (scripted_world (Inr json_response)) (Some ''1.wav'') = Inr ''1.wav'' \<and>
   files_upload (scripted_world (Inr json_response)) ''1.wav'' = Inr ''files/1.wav'' \<and>
   generate_content (scripted_world (Inr json_response))
       [Text (build_prompt [''growth'']), FileRef ''files/1.wav''] = Inr prose_response \<and>
   try_parse json_loads_excerpt (response_text prose_response) = JNull \<and>
   generate_content (scripted_world (Inr json_response))
       [Text retry_prompt, Text (build_prompt [''growth'']), FileRef ''files/1.wav'']
     = Inr json_response \<and>
   try_parse json_loads_excerpt (response_text json_response) = JObject [(''a'', JInt 1)] \<and>
   analyze_with_genai (scripted_world (Inr json_response))
       \<lparr>wav_filename = Some ''1.wav'', req_keywords = [''growth'']\<rparr>
     = (Inr (AnalyzeOk (normalize_parsed float_of_str_excerpt (JObject [(''a'', JInt 1)])) ''{\"a\":1}''),
        [[Text (build_prompt [''growth'']), FileRef ''files/1.wav''],
         [Text retry_prompt, Text (build_prompt [''growth'']), FileRef ''files/1.wav'']]) \<and>
   analyze_with_genai (scripted_world (Inr prose_response))
       \<lparr>wav_filename = Some ''1.wav'', req_keywords = [''growth'']\<rparr>
     = (Inr (AnalyzeError ''Model did not return valid JSON'' ''Here you go!''),
        [[Text (build_prompt [''growth'']), FileRef ''files/1.wav''],
         [Text retry_prompt, Text (build_prompt [''growth'']), FileRef ''files/1.wav'']]) \<and>
   analyze_with_genai (scripted_world (Inl ''timed out''))
       \<lparr>wav_filename = Some ''1.wav'', req_keywords = [''growth'']\<rparr>
     = (Inl (HTTPException 500 ''GenAI retry failed: timed out''),
        [[Text (build_prompt [''growth'']), FileRef ''files/1.wav''],
         [Text retry_prompt, Text (build_prompt [''growth'']), FileRef ''files/1.wav'']])"
proof -
  let ?req = "\<lparr>wav_filename = Some ''1.wav'', req_keywords = [''growth'']\<rparr>"
  let ?c1 = "[Text (build_prompt [''growth'']), FileRef ''files/1.wav'']"
  let ?c2 = "[Text retry_prompt, Text (build_prompt [''growth'']), FileRef ''files/1.wav'']"
  have res: "resolve_wav (scripted_world s) (wav_filename ?req) = Inr ''1.wav''" for s
    by (simp add: scripted_resolution)
  have up: "files_upload (scripted_world s) ''1.wav'' = Inr ''files/1.wav''" for s
    by (simp add: scripted_world_def)
  have g1: "generate_content (scripted_world s)
      [Text (build_prompt (req_keywords ?req)), FileRef ''files/1.wav''] = Inr prose_response" for s
    by (simp add: scripted_world_def)
  have p1: "try_parse (json_loads (scripted_world s)) (response_text prose_response) = JNull" for s
    by (simp add: scripted_world_def response_text_def prose_response_def try_parse_prose)
  have g2: "generate_content (scripted_world s)
      [Text retry_prompt, Text (build_prompt (req_keywords ?req)), FileRef ''files/1.wav''] = s" for s
    by (simp add: scripted_world_def)
  have pj: "try_parse json_loads_excerpt (response_text json_response) = JObject [(''a'', JInt 1)]"
    by (simp add: response_text_def json_response_def try_parse_json)
  have pp: "try_parse json_loads_excerpt (response_text prose_response) = JNull"
    by (simp add: response_text_def prose_response_def try_parse_prose)
  have jl: "json_loads (scripted_world s) = json_loads_excerpt"
    "float_of_str (scripted_world s) = float_of_str_excerpt" for s
    by (simp_all add: scripted_world_def)
  have rt: "response_text json_response = ''{\"a\":1}''" "response_text prose_response = ''Here you go!''"
    by (simp_all add: response_text_def json_response_def prose_response_def)
  note t = analyze_retries_once [OF res up g1 p1]
  have a: "analyze_with_genai (scripted_world (Inr json_response)) ?req
      = (Inr (AnalyzeOk (normalize_parsed float_of_str_excerpt (JObject [(''a'', JInt 1)])) ''{\"a\":1}''),
         [?c1, ?c2])"
    using t [of "Inr json_response"] g2 [of "Inr json_response"] pj
    by (simp add: jl rt prod_eq_iff)
  have b: "analyze_with_genai (scripted_world (Inr prose_response)) ?req
      = (Inr (AnalyzeError ''Model did not return valid JSON'' ''Here you go!''), [?c1, ?c2])"
    using t [of "Inr prose_response"] g2 [of "Inr prose_response"] pp
    by (simp add: jl rt prod_eq_iff)
  have c: "analyze_with_genai (scripted_world (Inl ''timed out'')) ?req
      = (Inl (HTTPException 500 ''GenAI retry failed: timed out''), [?c1, ?c2])"
    using t [of "Inl ''timed out''"] g2 [of "Inl ''timed out''"]
    by (simp add: prod_eq_iff)
  from res [of "Inr json_response"] up [of "Inr json_response"] g1 [of "Inr json_response"]
    g2 [of "Inr json_response"] pj pp a b c
  show ?thesis by simp
qed

text \<open>
  C7, as stated, fails where it says that the final result equals the second parse: the
  result is the second parse after normalisation. Here the retry's text parses to an
  object without \<^verbatim>\<open>"scores"\<close>, and the result has an empty \<^verbatim>\<open>"scores"\<close> added.
\<close>

theorem analyze_result_is_normalized_counterexample:
  "fst (analyze_with_genai (scripted_world (Inr json_response))
       \<lparr>wav_filename = Some ''1.wav'', req_keywords = []\<rparr>)
     = Inr (AnalyzeOk (JObject [(''a'', JInt 1), (''scores'', JObject [])]) ''{\"a\":1}'') \<and>
   try_parse (json_loads (scripted_world (Inr json_response))) ''{\"a\":1}''
     = JObject [(''a'', JInt 1)]"
  by (simp add: analyze_with_genai_def resolve_wav_def path_exists_def plain_name_def
      scripted_world_def build_prompt_def response_text_def prose_response_def
      json_response_def try_parse_prose try_parse_json normalize_no_scores Let_def)

text \<open>
  C10. The result of a success response is the normalised parse of the raw text it
  carries; when that parse is a JSON object, the result is an object with a \<^verbatim>\<open>"scores"\<close>
  key, and when the parsed object had no \<^verbatim>\<open>"scores"\<close> the result is the parsed object with
  an empty \<^verbatim>\<open>"scores"\<close> object appended.
\<close>

theorem result_has_scores:
  assumes "fst (analyze_with_genai w req) = Inr (AnalyzeOk r rt)"
  shows "try_parse (json_loads w) rt \<noteq> JNull \<and>
         r = normalize_parsed (float_of_str w) (try_parse (json_loads w) rt) \<and>
         (\<forall>d. try_parse (json_loads w) rt = JObject d \<longrightarrow>
            (\<exists>d'. r = JObject d' \<and> map_of d' ''scores'' \<noteq> None \<and>
                  (map_of d ''scores'' = None \<longrightarrow> d' = d @ [(''scores'', JObject [])])))"
proof -
  have obj: "\<exists>d'. normalize_parsed s2f (JObject d) = JObject d' \<and> map_of d' ''scores'' \<noteq> None \<and>
      (map_of d ''scores'' = None \<longrightarrow> d' = d @ [(''scores'', JObject [])])" for s2f d
  proof (cases "map_of d ''scores''")
    case None
    then show ?thesis by (simp add: normalize_no_scores map_add_def)
  next
    case (Some v)
    show ?thesis
    proof (cases v)
      case (JObject sc)
      then show ?thesis using Some by (simp add: normalize_scores_dict map_of_dict_set)
    qed (use Some in \<open>simp_all add: normalize_parsed_def\<close>)
  qed
  have "try_parse (json_loads w) rt \<noteq> JNull \<and>
      r = normalize_parsed (float_of_str w) (try_parse (json_loads w) rt)"
    using assms
    by (auto simp: analyze_with_genai_def Let_def split: sum.splits if_splits prod.splits)
  with obj show ?thesis by metis
qed

theorem result_has_scores_witness:
  "fst (analyze_with_genai (scripted_world (Inr json_response))
       \<lparr>wav_filename = None, req_keywords = [''growth'']\<rparr>)
     = Inr (AnalyzeOk (JObject [(''a'', JInt 1), (''scores'', JObject [])]) ''{\"a\":1}'') \<and>
   try_parse json_loads_excerpt ''{\"a\":1}'' = JObject [(''a'', JInt 1)] \<and>
   map_of [(''a'', JInt 1)] ''scores'' = None \<and>
   map_of [(''a'', JInt 1), (''scores'', JObject [])] ''scores'' = Some (JObject [])"
proof -
  let ?w = "scripted_world (Inr json_response)"
  let ?req = "\<lparr>wav_filename = None, req_keywords = [''growth'']\<rparr>"
  have h: "fst (analyze_with_genai ?w ?req)
      = Inr (AnalyzeOk (JObject [(''a'', JInt 1), (''scores'', JObject [])]) ''{\"a\":1}'')"
    by (simp add: analyze_with_genai_def resolve_wav_def glob_wav_def py_endswith_def
        sorted_mtime_desc_def scripted_world_def response_text_def prose_response_def
        json_response_def try_parse_prose try_parse_json normalize_no_scores Let_def)
  have p: "try_parse (json_loads ?w) ''{\"a\":1}'' = JObject [(''a'', JInt 1)]"
    by (simp add: scripted_world_def try_parse_json)
  from result_has_scores [OF h] p
  have "map_of [(''a'', JInt 1), (''scores'', JObject [])] ''scores'' \<noteq> None" by auto
  then have "map_of [(''a'', JInt 1), (''scores'', JObject [])] ''scores'' = Some (JObject [])"
    by simp
  with h p show ?thesis by (simp add: scripted_world_def)
qed

section \<open>Properties of the allocator\<close>

lemma digit_char_cases:
  assumes "d < 10"
  shows "d = 0 \<or> d = 1 \<or> d = 2 \<or> d = 3 \<or> d = 4 \<or> d = 5 \<or> d = 6 \<or> d = 7 \<or> d = 8 \<or> d = (9::nat)"
  using assms by arith

lemma of_char_digit_char: "d < 10 \<Longrightarrow> of_char (digit_char d) = (48 + d :: nat)"
  using digit_char_cases [of d] by (auto simp: digit_char_def)

lemma is_digit_digit_char: "d < 10 \<Longrightarrow> is_digit (digit_char d)"
  by (simp add: is_digit_def of_char_digit_char)

lemma digit_val_digit_char: "d < 10 \<Longrightarrow> digit_val (digit_char d) = d"
  by (simp add: digit_val_def of_char_digit_char)

lemma is_digit_facts:
  assumes "is_digit c"
  shows "c \<noteq> CHR ''_''" "c \<noteq> CHR ''-''" "c \<noteq> CHR ''+''" "c \<noteq> CHR ''.''" "c \<noteq> CHR ''/''"
    "\<not> py_isspace c"
  using assms by (auto simp: is_digit_def py_isspace_def)

lemma digits_of_digits: "\<forall>c\<in>set (digits_of n). is_digit c"
proof (induction n rule: digits_of.induct)
  case (1 n)
  show ?case
  proof (cases "n < 10")
    case True
    then show ?thesis by (subst digits_of.simps) (simp add: is_digit_digit_char)
  next
    case False
    then show ?thesis using 1
      by (subst digits_of.simps) (simp add: is_digit_digit_char)
  qed
qed

lemma digits_of_nonempty: "digits_of n \<noteq> []"
  by (subst digits_of.simps) simp

lemma int_body_digits: "s \<noteq> [] \<Longrightarrow> \<forall>c\<in>set s. is_digit c \<Longrightarrow> int_body s"
  by (induction s rule: int_body.induct) (auto dest: is_digit_facts(1))

lemma digits_value_snoc:
  "c \<noteq> CHR ''_'' \<Longrightarrow> digits_value (xs @ [c]) = 10 * digits_value xs + digit_val c"
  by (simp add: digits_value_def)

lemma digits_value_digits_of: "digits_value (digits_of n) = n"
proof (induction n rule: digits_of.induct)
  case (1 n)
  show ?case
  proof (cases "n < 10")
    case True
    then have "digit_char n \<noteq> CHR ''_''"
      by (intro is_digit_facts(1) is_digit_digit_char)
    then show ?thesis using True
      by (subst digits_of.simps) (simp add: digits_value_def digit_val_digit_char)
  next
    case False
    have nd: "digit_char (n mod 10) \<noteq> CHR ''_''"
      by (rule is_digit_facts(1)) (simp add: is_digit_digit_char)
    have "digits_value (digits_of (n div 10) @ [digit_char (n mod 10)])
        = 10 * (n div 10) + n mod 10"
      using 1 False by (simp add: digits_value_snoc [OF nd] digit_val_digit_char)
    then show ?thesis using False by (subst digits_of.simps) simp
  qed
qed

lemma digits_ends:
  "\<not> py_isspace (hd (digits_of n))" "\<not> py_isspace (last (digits_of n))"
  "is_digit (hd (digits_of n))" "is_digit (last (digits_of n))"
  using digits_of_digits [of n] digits_of_nonempty [of n]
  by (auto intro!: is_digit_facts(6))

lemma decimal_ends:
  "decimal k \<noteq> []" "\<not> py_isspace (hd (decimal k))" "\<not> py_isspace (last (decimal k))"
  using digits_ends digits_of_nonempty
  by (auto simp: decimal_def py_isspace_def)

lemma is_digit_not_int_space: "is_digit c \<Longrightarrow> \<not> int_space c"
  by (auto simp: is_digit_def int_space_def)

lemma int_strip_id:
  assumes "s \<noteq> []" "\<not> int_space (hd s)" "\<not> int_space (last s)"
  shows "rev (dropWhile int_space (rev (dropWhile int_space s))) = s"
proof -
  have 1: "dropWhile int_space s = s" using assms(1,2) by (simp add: dropWhile_id)
  have "dropWhile int_space (rev s) = rev s"
    using assms(1,3) by (intro dropWhile_id) (simp add: hd_rev)
  then show ?thesis by (simp add: 1)
qed

lemma int_strip_decimal:
  "rev (dropWhile int_space (rev (dropWhile int_space (decimal k)))) = decimal k"
proof (rule int_strip_id)
  show "decimal k \<noteq> []" by (rule decimal_ends)
  show "\<not> int_space (hd (decimal k))"
    using digits_ends(3) [THEN is_digit_not_int_space]
    by (simp add: decimal_def int_space_def)
  show "\<not> int_space (last (decimal k))"
    using digits_ends(4) [THEN is_digit_not_int_space] digits_of_nonempty
    by (simp add: decimal_def)
qed

lemma filter_digits_of: "filter is_digit (digits_of n) = digits_of n"
  using digits_of_digits [of n] by (simp add: filter_id_conv)

lemma length_digits_of: "0 < k \<Longrightarrow> length (digits_of n) \<le> k \<longleftrightarrow> n < 10 ^ k"
proof (induction n arbitrary: k rule: digits_of.induct)
  case (1 n)
  show ?case
  proof (cases "n < 10")
    case True
    have "(10::nat) ^ 1 \<le> 10 ^ k" using 1(2) by (intro power_increasing) simp_all
    then have "n < 10 ^ k" using True by simp
    then show ?thesis using True 1(2) by (subst digits_of.simps) simp
  next
    case False
    show ?thesis
    proof (cases "k = 1")
      case True
      then show ?thesis using False digits_of_nonempty [of "n div 10"]
        by (subst digits_of.simps) (simp add: Suc_le_eq)
    next
      case k: False
      then obtain j where j: "k = Suc j" "0 < j" using 1(2) by (cases k) auto
      have "length (digits_of (n div 10)) \<le> j \<longleftrightarrow> n div 10 < 10 ^ j"
        using 1(1) [OF False j(2)] .
      moreover have "n div 10 < 10 ^ j \<longleftrightarrow> n < 10 ^ Suc j"
        by (simp add: less_mult_imp_div_less div_less_iff_less_mult mult.commute)
      ultimately show ?thesis using False j by (subst digits_of.simps) simp
    qed
  qed
qed

lemma int_max_str_digits_pos: "0 < int_max_str_digits"
  by (simp add: int_max_str_digits_def)

lemma digits_within_limit:
  "length (digits_of (nat \<bar>k\<bar>)) \<le> int_max_str_digits \<longleftrightarrow> \<bar>k\<bar> < 10 ^ int_max_str_digits"
proof -
  have "nat \<bar>k\<bar> < 10 ^ int_max_str_digits \<longleftrightarrow> \<bar>k\<bar> < 10 ^ int_max_str_digits"
    by (simp add: nat_less_iff)
  then show ?thesis using length_digits_of [OF int_max_str_digits_pos] by simp
qed

lemma py_str_eq:
  "py_str k = (if \<bar>k\<bar> < 10 ^ int_max_str_digits then Some (decimal k) else None)"
  using digits_within_limit [of k] by (auto simp: py_str_def)

lemma int_literal_digits_of:
  "int_literal (digits_of n) \<longleftrightarrow> int n < 10 ^ int_max_str_digits"
proof -
  have "int_body (digits_of n)"
    using int_body_digits digits_of_digits digits_of_nonempty by blast
  moreover have "n < 10 ^ int_max_str_digits \<longleftrightarrow> int n < 10 ^ int_max_str_digits"
    by (metis of_nat_less_iff of_nat_numeral of_nat_power)
  ultimately show ?thesis
    using length_digits_of [OF int_max_str_digits_pos, of n]
    by (simp add: int_literal_def filter_digits_of)
qed

lemma py_int_of_str_decimal:
  "py_int_of_str (decimal k) = (if \<bar>k\<bar> < 10 ^ int_max_str_digits then Some k else None)"
proof (cases "k < 0")
  case True
  have "py_int_of_str (decimal k)
      = (if int_literal (digits_of (nat (- k))) then Some (- int (digits_value (digits_of (nat (- k)))))
         else None)"
    unfolding py_int_of_str_def int_strip_decimal using True by (simp add: decimal_def)
  then show ?thesis using True
    by (simp add: int_literal_digits_of digits_value_digits_of)
next
  case False
  obtain c cs where cs: "digits_of (nat k) = c # cs"
    using digits_of_nonempty by (cases "digits_of (nat k)") auto
  then have "is_digit c" using digits_of_digits [of "nat k"] by simp
  then have c: "c \<noteq> CHR ''-''" "c \<noteq> CHR ''+''" by (auto dest: is_digit_facts)
  have "py_int_of_str (decimal k)
      = (if int_literal (digits_of (nat k)) then Some (int (digits_value (digits_of (nat k))))
         else None)"
    unfolding py_int_of_str_def int_strip_decimal using False c
    by (simp add: decimal_def cs)
  then show ?thesis using False
    by (simp add: int_literal_digits_of digits_value_digits_of)
qed

lemma decimal_inj: "decimal a = decimal b \<Longrightarrow> a = b"
proof -
  assume eq: "decimal a = decimal b"
  have neg: "hd (decimal k) = CHR ''-'' \<longleftrightarrow> k < 0" for k
    using digits_ends(3) [of "nat k"] is_digit_facts(2) by (auto simp: decimal_def)
  have val: "digits_value (digits_of (nat \<bar>k\<bar>)) = nat \<bar>k\<bar>" for k
    by (rule digits_value_digits_of)
  have sgn: "a < 0 \<longleftrightarrow> b < 0" using neg [of a] neg [of b] eq by simp
  show "a = b"
  proof (cases "a < 0")
    case True
    then have "digits_of (nat (- a)) = digits_of (nat (- b))"
      using eq sgn by (simp add: decimal_def)
    then have "nat (- a) = nat (- b)" using digits_value_digits_of by metis
    then show ?thesis using True sgn by simp
  next
    case False
    then have "digits_of (nat a) = digits_of (nat b)"
      using eq sgn by (simp add: decimal_def)
    then have "nat a = nat b" using digits_value_digits_of by metis
    then show ?thesis using False sgn by simp
  qed
qed

lemma load_counter_padded:
  assumes "\<forall>c\<in>set a. py_isspace c" "\<forall>c\<in>set b. py_isspace c"
  shows "load_counter (Content (a @ decimal k @ b))
         = (if \<bar>k\<bar> < 10 ^ int_max_str_digits then k else 0)"
proof -
  have s: "py_strip (a @ decimal k @ b) = decimal k"
    using assms decimal_ends by (intro py_strip_padded) auto
  then show ?thesis using decimal_ends(1) [of k]
    by (simp add: load_counter_def Let_def py_int_of_str_decimal)
qed

lemma load_counter_decimal:
  "load_counter (Content (decimal k)) = (if \<bar>k\<bar> < 10 ^ int_max_str_digits then k else 0)"
  using load_counter_padded [of "[]" "[]" k] by simp

lemma py_rfind_decomp:
  "py_rfind xs c \<noteq> - 1 \<Longrightarrow>
   \<exists>pre post. xs = pre @ c # post \<and> c \<notin> set post \<and> py_rfind xs c = int (length pre)"
proof (induction xs)
  case Nil then show ?case by simp
next
  case (Cons x xs)
  show ?case
  proof (cases "py_rfind xs c = - 1")
    case True
    then have "x = c" using Cons.prems by (simp add: Let_def split: if_splits)
    moreover have "c \<notin> set xs"
    proof
      assume "c \<in> set xs"
      then obtain a b where "xs = a @ c # b" "c \<notin> set b" by (meson split_list_last)
      then have "py_rfind xs c = int (length a)" by (simp add: py_rfind_append)
      then show False using True by simp
    qed
    ultimately have "x # xs = [] @ c # xs \<and> c \<notin> set xs \<and> py_rfind (x # xs) c = int (length ([]::string))"
      using True by (simp add: Let_def)
    then show ?thesis by blast
  next
    case False
    from Cons.IH [OF this] obtain pre post where
      "xs = pre @ c # post" "c \<notin> set post" "py_rfind xs c = int (length pre)" by blast
    then have "x # xs = (x # pre) @ c # post \<and> c \<notin> set post \<and>
        py_rfind (x # xs) c = int (length (x # pre))"
      using False by (simp add: Let_def)
    then show ?thesis by blast
  qed
qed

lemma split_on_no_sep: "\<forall>q\<in>set (split_on sep s). sep \<notin> set q"
  by (induction s) (auto split: list.splits)

lemma split_on_plain: "sep \<notin> set s \<Longrightarrow> split_on sep s = [s]"
  by (induction s) auto

lemma path_name_no_slash: "CHR ''/'' \<notin> set (path_name p)"
proof -
  let ?parts = "filter (\<lambda>q. q \<noteq> [] \<and> q \<noteq> ''.'') (split_on (CHR ''/'') p)"
  show ?thesis
  proof (cases "?parts = []")
    case True then show ?thesis by (simp add: path_name_def)
  next
    case False
    then have "last ?parts \<in> set (split_on (CHR ''/'') p)"
      using last_in_set [OF False] by auto
    then show ?thesis using False split_on_no_sep by (auto simp: path_name_def Let_def)
  qed
qed

lemma path_name_plain:
  "s \<noteq> [] \<Longrightarrow> s \<noteq> ''.'' \<Longrightarrow> CHR ''/'' \<notin> set s \<Longrightarrow> path_name s = s"
  by (simp add: path_name_def split_on_plain)

text \<open>The shape of an extension: a dot, then at least one character, none a dot or a slash.\<close>

lemma extension_shape:
  "\<exists>rest. extension n = CHR ''.'' # rest \<and> rest \<noteq> [] \<and> CHR ''.'' \<notin> set rest \<and>
          CHR ''/'' \<notin> set rest"
proof (cases "path_suffix n = []")
  case True
  then show ?thesis by (simp add: extension_def)
next
  case False
  let ?name = "path_name n"
  let ?i = "py_rfind ?name (CHR ''.'')"
  have i: "0 < ?i" "?i < int (length ?name) - 1" and sfx: "path_suffix n = drop (nat ?i) ?name"
    using False by (auto simp: path_suffix_def Let_def split: if_splits)
  then have "?i \<noteq> - 1" by simp
  from py_rfind_decomp [OF this] obtain pre post where
    d: "?name = pre @ CHR ''.'' # post" "CHR ''.'' \<notin> set post" "?i = int (length pre)" by blast
  have "drop (nat ?i) ?name = CHR ''.'' # post" using d by simp
  moreover have "post \<noteq> []" using i(2) d by auto
  moreover have "CHR ''/'' \<notin> set post" using path_name_no_slash [of n] d(1) by auto
  ultimately show ?thesis using False sfx d(2) by (simp add: extension_def)
qed

lemma decimal_chars: "\<forall>c\<in>set (decimal k). is_digit c \<or> c = CHR ''-''"
  using digits_of_digits by (auto simp: decimal_def)

lemma decimal_no_dot: "CHR ''.'' \<notin> set (decimal k)" "CHR ''/'' \<notin> set (decimal k)"
  using decimal_chars [of k] is_digit_facts by fastforce+

lemma path_stem_allocated: "path_stem (decimal c @ extension n) = decimal c"
proof -
  obtain rest where e: "extension n = CHR ''.'' # rest" "rest \<noteq> []" "CHR ''.'' \<notin> set rest"
    "CHR ''/'' \<notin> set rest" using extension_shape by blast
  let ?s = "decimal c @ CHR ''.'' # rest"
  have ne: "decimal c \<noteq> []" by (rule decimal_ends(1))
  have "?s \<noteq> ''.''" using ne by (cases "decimal c") auto
  moreover have "CHR ''/'' \<notin> set ?s" using e(4) decimal_no_dot(2) by simp
  ultimately have name: "path_name ?s = ?s" by (intro path_name_plain) simp_all
  have r: "py_rfind ?s (CHR ''.'') = int (length (decimal c))"
    using e(3) by (rule py_rfind_append)
  have "0 < int (length (decimal c))" using ne by simp
  moreover have "int (length (decimal c)) < int (length ?s) - 1" using e(2) by (cases rest) auto
  ultimately show ?thesis unfolding e(1) path_stem_def name r Let_def by simp
qed

lemma allocated_name_number:
  "takeWhile (\<lambda>x. x \<noteq> CHR ''.'') (decimal c @ extension n) = decimal c"
proof -
  obtain rest where e: "extension n = CHR ''.'' # rest" using extension_shape by blast
  have "takeWhile (\<lambda>x. x \<noteq> CHR ''.'') (decimal c @ CHR ''.'' # rest)
      = decimal c @ takeWhile (\<lambda>x. x \<noteq> CHR ''.'') (CHR ''.'' # rest)"
    by (rule takeWhile_append2) (use decimal_no_dot(1) [of c] in auto)
  then show ?thesis unfolding e by simp
qed

lemma allocated_name_inj:
  "decimal a @ extension m = decimal b @ extension n \<Longrightarrow> a = b"
  using allocated_name_number [of a m] allocated_name_number [of b n] decimal_inj by metis

lemma safe_filename_eq:
  "safe_filename wo orig_name st =
     (let c = (if counter_lock st then file_counter st else load_counter (disk_counter st)) + 1
      in (case py_str c of None \<Rightarrow> None | Some d \<Rightarrow> Some (d @ extension orig_name),
          st\<lparr>counter_lock := True, file_counter := c,
             disk_counter := save_counter wo c (disk_counter st)\<rparr>))"
  by (cases st)
     (simp add: safe_filename_def init_counter_def extension_def Let_def split: option.splits)

lemma safe_filename_within:
  assumes "c = (if counter_lock st then file_counter st else load_counter (disk_counter st)) + 1"
      and "\<bar>c\<bar> < 10 ^ int_max_str_digits"
  shows "safe_filename wo orig_name st =
     (Some (decimal c @ extension orig_name),
      st\<lparr>counter_lock := True, file_counter := c,
         disk_counter := (case wo of Written \<Rightarrow> Content (decimal c) | WriteFails left \<Rightarrow> left)\<rparr>)"
  unfolding assms(1) using assms(2) [unfolded assms(1)]
  by (cases wo) (simp_all add: safe_filename_eq Let_def py_str_eq save_counter_def)

lemma safe_filename_beyond:
  assumes "c = (if counter_lock st then file_counter st else load_counter (disk_counter st)) + 1"
      and "10 ^ int_max_str_digits \<le> \<bar>c\<bar>"
  shows "safe_filename wo orig_name st = (None, st\<lparr>counter_lock := True, file_counter := c\<rparr>)"
  unfolding assms(1) using assms(2) [unfolded assms(1)]
  by (cases "counter_lock st") (simp_all add: safe_filename_eq Let_def py_str_eq save_counter_def)

lemma allocate_all_Cons:
  "allocate_all ((wo, n) # calls) st =
     (fst (safe_filename wo n st) # fst (allocate_all calls (snd (safe_filename wo n st))),
      snd (allocate_all calls (snd (safe_filename wo n st))))"
  by (simp split: prod.splits)

lemma allocate_all_counter:
  "counter_lock st \<Longrightarrow>
   length (fst (allocate_all calls st)) = length calls \<and>
   file_counter (snd (allocate_all calls st)) = file_counter st + int (length calls) \<and>
   counter_lock (snd (allocate_all calls st)) \<and>
   files (snd (allocate_all calls st)) = files st"
proof (induction calls arbitrary: st)
  case Nil then show ?case by simp
next
  case (Cons call calls)
  obtain wo n where call: "call = (wo, n)" by (cases call)
  let ?st1 = "snd (safe_filename wo n st)"
  have st1: "counter_lock ?st1" "file_counter ?st1 = file_counter st + 1" "files ?st1 = files st"
    using Cons.prems by (simp_all add: safe_filename_eq Let_def)
  from Cons.IH [OF st1(1)] st1 show ?case
    unfolding call allocate_all_Cons by simp
qed

lemma allocate_all_locked:
  "counter_lock st \<Longrightarrow> 0 \<le> file_counter st \<Longrightarrow>
   file_counter st + int (length calls) < 10 ^ int_max_str_digits \<Longrightarrow>
   fst (allocate_all calls st) = map Some (names_from (file_counter st) (map snd calls))"
proof (induction calls arbitrary: st)
  case Nil then show ?case by simp
next
  case (Cons call calls)
  obtain wo n where call: "call = (wo, n)" by (cases call)
  let ?c = "file_counter st + 1"
  let ?st1 = "snd (safe_filename wo n st)"
  have c: "\<bar>?c\<bar> < 10 ^ int_max_str_digits" using Cons.prems by simp
  have st1: "counter_lock ?st1" "file_counter ?st1 = ?c"
    "fst (safe_filename wo n st) = Some (decimal ?c @ extension n)"
    using Cons.prems(1) c by (simp_all add: safe_filename_eq Let_def py_str_eq)
  have "fst (allocate_all calls ?st1) = map Some (names_from (file_counter ?st1) (map snd calls))"
    using Cons.prems st1 by (intro Cons.IH) simp_all
  then show ?case unfolding call allocate_all_Cons using st1 by simp
qed

lemma load_counter_Absent: "load_counter Absent = 0"
  by (simp add: load_counter_def)

lemma allocate_all_fresh_counter:
  "length (fst (allocate_all calls (fresh_process f fs))) = length calls \<and>
   (calls \<noteq> [] \<longrightarrow>
      file_counter (snd (allocate_all calls (fresh_process f fs)))
        = load_counter f + int (length calls))"
proof (cases calls)
  case Nil then show ?thesis by simp
next
  case (Cons call rest)
  obtain wo n where call: "call = (wo, n)" by (cases call)
  let ?st1 = "snd (safe_filename wo n (fresh_process f fs))"
  have st1: "counter_lock ?st1" "file_counter ?st1 = load_counter f + 1"
    by (simp_all add: safe_filename_eq fresh_process_def Let_def)
  from allocate_all_counter [OF st1(1), of rest] st1 show ?thesis
    unfolding Cons call allocate_all_Cons by simp
qed

lemma allocate_all_fresh:
  assumes "int (length calls) < 10 ^ int_max_str_digits"
  shows "fst (allocate_all calls (fresh_process Absent fs)) = map Some (names_from 0 (map snd calls))"
proof (cases calls)
  case Nil then show ?thesis by simp
next
  case (Cons call rest)
  obtain wo n where call: "call = (wo, n)" by (cases call)
  let ?st1 = "snd (safe_filename wo n (fresh_process Absent fs))"
  have one: "\<bar>1::int\<bar> < 10 ^ int_max_str_digits" using assms Cons by simp
  have st1: "counter_lock ?st1" "file_counter ?st1 = 1"
    "fst (safe_filename wo n (fresh_process Absent fs)) = Some (decimal 1 @ extension n)"
    using one by (simp_all add: safe_filename_eq fresh_process_def Let_def load_counter_Absent py_str_eq)
  have "fst (allocate_all rest ?st1) = map Some (names_from (file_counter ?st1) (map snd rest))"
    using st1 assms Cons by (intro allocate_all_locked) simp_all
  then show ?thesis unfolding Cons call allocate_all_Cons using st1 by simp
qed

lemma names_from_length: "length (names_from c ns) = length ns"
  by (induction ns arbitrary: c) auto

lemma names_from_nth:
  "i < length ns \<Longrightarrow> names_from c ns ! i = decimal (c + 1 + int i) @ extension (ns ! i)"
proof (induction ns arbitrary: c i)
  case Nil then show ?case by simp
next
  case (Cons n ns)
  show ?case
  proof (cases i)
    case 0 then show ?thesis by simp
  next
    case (Suc j)
    then have "j < length ns" using Cons.prems by simp
    from Cons.IH [OF this, of "c + 1"] show ?thesis using Suc by (simp add: add.assoc)
  qed
qed

lemma names_from_distinct: "distinct (names_from c ns)"
proof -
  have "names_from c ns ! i \<noteq> names_from c ns ! j"
    if "i < length ns" "j < length ns" "i \<noteq> j" for i j
  proof
    assume "names_from c ns ! i = names_from c ns ! j"
    then have "c + 1 + int i = c + 1 + int j"
      using that names_from_nth allocated_name_inj by metis
    then show False using that by simp
  qed
  then show ?thesis by (simp add: distinct_conv_nth names_from_length)
qed

lemma py_int_of_str_strip_None:
  "py_int_of_str (py_strip t) = None \<Longrightarrow> load_counter (Content t) = 0"
  by (simp add: load_counter_def Let_def)

lemma decimal_1: "decimal 1 = ''1''"
  by (simp add: decimal_def digits_of.simps digit_char_def)

lemma one_within_limit: "\<bar>1::int\<bar> < 10 ^ int_max_str_digits"
  using one_less_power [of "10::int" int_max_str_digits] int_max_str_digits_pos by simp

lemma safe_filename_fresh:
  "file_counter (snd (safe_filename wo n (fresh_process f fs))) = load_counter f + 1"
  "\<bar>load_counter f + 1\<bar> < 10 ^ int_max_str_digits \<Longrightarrow>
     fst (safe_filename wo n (fresh_process f fs)) = Some (decimal (load_counter f + 1) @ extension n)"
  "10 ^ int_max_str_digits \<le> \<bar>load_counter f + 1\<bar> \<Longrightarrow>
     fst (safe_filename wo n (fresh_process f fs)) = None"
  by (simp_all add: safe_filename_eq fresh_process_def Let_def py_str_eq)

lemma small_within_limit: "\<bar>k\<bar> < 10 ^ 3 \<Longrightarrow> \<bar>k::int\<bar> < 10 ^ int_max_str_digits"
proof -
  assume "\<bar>k\<bar> < 10 ^ 3"
  moreover have "(10::int) ^ 3 \<le> 10 ^ int_max_str_digits"
    by (rule power_increasing) (simp_all add: int_max_str_digits_def)
  ultimately show ?thesis by linarith
qed

lemmas eval_names =
  decimal_def digits_of.simps digit_char_def extension_def path_suffix_def path_name_def Let_def

text \<open>
  C5, as amended. In a process that starts with no counter file, a run of calls returns
  the names made of the numbers 1, 2, ... in order, each followed by the extension of the
  call's original name: the \<open>i\<close>-th name (counting from 0) is the decimal of \<open>i + 1\<close> and
  then the extension, the names are pairwise distinct whatever the extensions, and the
  counter ends at the number of calls. This holds while the numbers have at most 4300
  digits, the longest that Python converts to text. Every call, in any state, adds exactly
  one to the counter and, for a number within that length, returns the decimal of the new
  value followed by the extension. The new value is persisted when the write of the
  counter file succeeds; a write that fails is swallowed: the call returns the same name,
  the counter in memory has advanced, and the file is left as the failed write left it.
  The extension is \<^verbatim>\<open>.bin\<close> when the original name has no suffix.
\<close>

theorem allocate_sequence:
  "(int (length calls) < 10 ^ int_max_str_digits \<longrightarrow>
      fst (allocate_all calls (fresh_process Absent fs)) = map Some (names_from 0 (map snd calls)) \<and>
      (\<forall>i. i < length calls \<longrightarrow>
         fst (allocate_all calls (fresh_process Absent fs)) ! i
           = Some (decimal (int i + 1) @ extension (snd (calls ! i)))) \<and>
      distinct (fst (allocate_all calls (fresh_process Absent fs)))) \<and>
   length (fst (allocate_all calls (fresh_process Absent fs))) = length calls \<and>
   (calls \<noteq> [] \<longrightarrow>
      file_counter (snd (allocate_all calls (fresh_process Absent fs))) = int (length calls)) \<and>
   file_counter (snd (safe_filename wo n st))
     = (if counter_lock st then file_counter st else load_counter (disk_counter st)) + 1 \<and>
   (\<bar>file_counter (snd (safe_filename wo n st))\<bar> < 10 ^ int_max_str_digits \<longrightarrow>
      fst (safe_filename wo n st)
        = Some (decimal (file_counter (snd (safe_filename wo n st))) @ extension n) \<and>
      disk_counter (snd (safe_filename Written n st))
        = Content (decimal (file_counter (snd (safe_filename wo n st)))) \<and>
      fst (safe_filename (WriteFails left) n st) = fst (safe_filename Written n st) \<and>
      disk_counter (snd (safe_filename (WriteFails left) n st)) = left) \<and>
   (path_suffix n = [] \<longrightarrow> extension n = ''.bin'') \<and>
   (path_suffix n \<noteq> [] \<longrightarrow> extension n = path_suffix n)"
proof -
  let ?names = "fst (allocate_all calls (fresh_process Absent fs))"
  let ?c = "(if counter_lock st then file_counter st else load_counter (disk_counter st)) + 1"
  have 1: "?names = map Some (names_from 0 (map snd calls))"
    if "int (length calls) < 10 ^ int_max_str_digits"
    using that by (rule allocate_all_fresh)
  have 2: "length ?names = length calls"
    using allocate_all_fresh_counter [of calls Absent fs] by simp
  have 3: "?names ! i = Some (decimal (int i + 1) @ extension (snd (calls ! i)))"
    if "int (length calls) < 10 ^ int_max_str_digits" "i < length calls" for i
    using that names_from_nth [of i "map snd calls" 0]
    by (simp add: 1 names_from_length add.commute)
  have 4: "distinct ?names" if "int (length calls) < 10 ^ int_max_str_digits"
    using that by (simp add: 1 names_from_distinct distinct_map)
  have 5: "file_counter (snd (allocate_all calls (fresh_process Absent fs))) = int (length calls)"
    if "calls \<noteq> []"
    using that allocate_all_fresh_counter [of calls Absent fs] by (simp add: load_counter_Absent)
  have 6: "file_counter (snd (safe_filename w n st)) = ?c" for w
    by (simp add: safe_filename_eq Let_def)
  have 7: "fst (safe_filename w n st) = Some (decimal ?c @ extension n)"
    "disk_counter (snd (safe_filename Written n st)) = Content (decimal ?c)"
    "disk_counter (snd (safe_filename (WriteFails left) n st)) = left"
    if "\<bar>?c\<bar> < 10 ^ int_max_str_digits" for w
    using safe_filename_within [OF refl that] by simp_all
  have 8: "path_suffix n = [] \<longrightarrow> extension n = ''.bin''"
    "path_suffix n \<noteq> [] \<longrightarrow> extension n = path_suffix n"
    by (simp_all add: extension_def)
  show ?thesis
    unfolding 6 using 1 2 3 4 5 7 8 by (intro conjI impI allI) simp_all
qed

theorem allocate_sequence_witness:
  "int (length [(Written, ''a.mp3''), (WriteFails Unreadable, ''noext''),
                (Written, ''archive.tar.gz'')]) < 10 ^ int_max_str_digits \<and>
   fst (allocate_all
         [(Written, ''a.mp3''), (WriteFails Unreadable, ''noext''), (Written, ''archive.tar.gz'')]
         (fresh_process Absent {}))
     = [Some ''1.mp3'', Some ''2.bin'', Some ''3.gz''] \<and>
   file_counter (snd (allocate_all
         [(Written, ''a.mp3''), (WriteFails Unreadable, ''noext''), (Written, ''archive.tar.gz'')]
         (fresh_process Absent {}))) = 3 \<and>
   (1::nat) < length [(Written, ''a.mp3''), (WriteFails Unreadable, ''noext''),
                      (Written, ''archive.tar.gz'')] \<and>
   fst (allocate_all
         [(Written, ''a.mp3''), (WriteFails Unreadable, ''noext''), (Written, ''archive.tar.gz'')]
         (fresh_process Absent {})) ! 1 = Some ''2.bin'' \<and>
   path_suffix ''noext'' = [] \<and> extension ''noext'' = ''.bin'' \<and>
   path_suffix ''archive.tar.gz'' = ''.gz'' \<and> extension ''archive.tar.gz'' = ''.gz'' \<and>
   \<bar>file_counter (snd (safe_filename Written ''a.mp3'' (fresh_process Absent {})))\<bar>
     < 10 ^ int_max_str_digits \<and>
   fst (safe_filename Written ''a.mp3'' (fresh_process Absent {})) = Some ''1.mp3'' \<and>
   disk_counter (snd (safe_filename Written ''a.mp3'' (fresh_process Absent {}))) = Content ''1''"
proof -
  let ?calls = "[(Written, ''a.mp3''), (WriteFails Unreadable, ''noext''),
                 (Written, ''archive.tar.gz'')]"
  note t = allocate_sequence [of ?calls "{}" Written "''noext''" "fresh_process Absent {}" Absent]
  note t' = allocate_sequence [of ?calls "{}" Written "''archive.tar.gz''" "fresh_process Absent {}" Absent]
  note t'' = allocate_sequence [of ?calls "{}" Written "''a.mp3''" "fresh_process Absent {}" Absent]
  have n: "int (length ?calls) < 10 ^ int_max_str_digits"
    using small_within_limit [of 3] by simp
  have e: "names_from 0 (map snd ?calls) = [''1.mp3'', ''2.bin'', ''3.gz'']"
    by (simp add: eval_names)
  have s: "path_suffix ''noext'' = []" "path_suffix ''archive.tar.gz'' = ''.gz''"
    by (simp_all add: path_suffix_def path_name_def Let_def)
  have a: "fst (allocate_all ?calls (fresh_process Absent {}))
      = [Some ''1.mp3'', Some ''2.bin'', Some ''3.gz'']"
    using t n e by simp
  have b: "file_counter (snd (allocate_all ?calls (fresh_process Absent {}))) = 3"
    using t by simp
  have c: "fst (allocate_all ?calls (fresh_process Absent {})) ! 1 = Some ''2.bin''"
    using a by simp
  have d: "extension ''noext'' = ''.bin''" using t s by blast
  have f: "extension ''archive.tar.gz'' = ''.gz''" using t' s by auto
  have fc: "file_counter (snd (safe_filename Written ''a.mp3'' (fresh_process Absent {}))) = 1"
    using t'' by (simp add: fresh_process_def load_counter_Absent)
  have g: "\<bar>file_counter (snd (safe_filename Written ''a.mp3'' (fresh_process Absent {})))\<bar>
      < 10 ^ int_max_str_digits"
    unfolding fc by (rule one_within_limit)
  have x: "extension ''a.mp3'' = ''.mp3''" by (simp add: eval_names)
  have h: "fst (safe_filename Written ''a.mp3'' (fresh_process Absent {})) = Some ''1.mp3''"
    "disk_counter (snd (safe_filename Written ''a.mp3'' (fresh_process Absent {}))) = Content ''1''"
    using t'' g by (simp_all add: fc decimal_1 x)
  from n a b c d f s g h show ?thesis by simp
qed

text \<open>
  C5, as stated, fails where it says that each call persists the new value: when the write
  of the counter file fails, the failure is swallowed and the call returns its name with
  nothing persisted. Here the first call of a process returns \<^verbatim>\<open>1.mp3\<close> and the counter
  file is still absent.
\<close>

theorem allocate_write_failure_counterexample:
  "safe_filename (WriteFails Absent) ''a.mp3'' (fresh_process Absent {})
     = (Some ''1.mp3'',
        \<lparr>file_counter = 1, counter_lock = True, disk_counter = Absent, files = {}\<rparr>)"
proof -
  have x: "extension ''a.mp3'' = ''.mp3''" by (simp add: eval_names)
  have c: "(1::int) = (if counter_lock (fresh_process Absent {})
                       then file_counter (fresh_process Absent {})
                       else load_counter (disk_counter (fresh_process Absent {}))) + 1"
    by (simp add: fresh_process_def load_counter_Absent)
  show ?thesis
    unfolding safe_filename_within [OF c one_within_limit] decimal_1 x
    by (simp add: fresh_process_def)
qed

text \<open>
  C6, as amended. When the counter file holds the decimal of an integer \<open>K\<close> at the start
  of the process (also with white space around it), and \<open>K\<close> and \<open>K + 1\<close> have at most 4300
  digits, the first allocation returns the number \<open>K + 1\<close>. When \<open>K\<close> has more digits,
  \<^verbatim>\<open>int\<close> raises on the text, which is swallowed like any corrupt text, and the first
  allocation returns the number 1; when \<open>K\<close> is the greatest number of 4300 digits, the
  first allocation raises, as \<open>K + 1\<close> cannot be converted to text. When the file is absent,
  cannot be read, or holds a text on which \<^verbatim>\<open>int\<close> raises once stripped, the counter starts
  at 0 and the first allocation returns the number 1.
\<close>

theorem counter_restart:
  "(\<bar>K\<bar> < 10 ^ int_max_str_digits \<and> K + 1 < 10 ^ int_max_str_digits \<longrightarrow>
      fst (safe_filename wo n (fresh_process (Content (decimal K)) fs))
        = Some (decimal (K + 1) @ extension n) \<and>
      ((\<forall>c\<in>set a. py_isspace c) \<and> (\<forall>c\<in>set b. py_isspace c) \<longrightarrow>
         fst (safe_filename wo n (fresh_process (Content (a @ decimal K @ b)) fs))
           = Some (decimal (K + 1) @ extension n))) \<and>
   (10 ^ int_max_str_digits \<le> \<bar>K\<bar> \<longrightarrow>
      fst (safe_filename wo n (fresh_process (Content (decimal K)) fs))
        = Some (''1'' @ extension n)) \<and>
   (K + 1 = 10 ^ int_max_str_digits \<longrightarrow>
      fst (safe_filename wo n (fresh_process (Content (decimal K)) fs)) = None) \<and>
   fst (safe_filename wo n (fresh_process Absent fs)) = Some (''1'' @ extension n) \<and>
   fst (safe_filename wo n (fresh_process Unreadable fs)) = Some (''1'' @ extension n) \<and>
   (py_int_of_str (py_strip t) = None \<longrightarrow>
      fst (safe_filename wo n (fresh_process (Content t) fs)) = Some (''1'' @ extension n))"
proof -
  have zero: "fst (safe_filename wo n (fresh_process f fs)) = Some (''1'' @ extension n)"
    if "load_counter f = 0" for f
    using that safe_filename_fresh(2) [of f wo n fs] one_within_limit by (simp add: decimal_1)
  have 1: "fst (safe_filename wo n (fresh_process (Content (a @ decimal K @ b)) fs))
      = Some (decimal (K + 1) @ extension n)"
    if k: "\<bar>K\<bar> < 10 ^ int_max_str_digits \<and> K + 1 < 10 ^ int_max_str_digits"
      and sp: "(\<forall>c\<in>set a. py_isspace c) \<and> (\<forall>c\<in>set b. py_isspace c)" for a b
  proof -
    have l: "load_counter (Content (a @ decimal K @ b)) = K"
      using k sp by (simp add: load_counter_padded)
    have "\<bar>K + 1\<bar> < 10 ^ int_max_str_digits" using k by linarith
    then show ?thesis using safe_filename_fresh(2) [of "Content (a @ decimal K @ b)" wo n fs]
      by (simp add: l)
  qed
  have 2: "fst (safe_filename wo n (fresh_process (Content (decimal K)) fs))
      = Some (decimal (K + 1) @ extension n)"
    if k: "\<bar>K\<bar> < 10 ^ int_max_str_digits \<and> K + 1 < 10 ^ int_max_str_digits"
    using 1 [OF k, of "[]" "[]"] by simp
  have 3: "fst (safe_filename wo n (fresh_process (Content (decimal K)) fs))
      = Some (''1'' @ extension n)"
    if "10 ^ int_max_str_digits \<le> \<bar>K\<bar>"
    using that by (intro zero) (simp add: load_counter_decimal)
  have 4: "fst (safe_filename wo n (fresh_process (Content (decimal K)) fs)) = None"
    if k: "K + 1 = 10 ^ int_max_str_digits"
  proof -
    have "\<bar>K\<bar> < 10 ^ int_max_str_digits" using k one_within_limit by linarith
    then have l: "load_counter (Content (decimal K)) = K" by (simp add: load_counter_decimal)
    show ?thesis using safe_filename_fresh(3) [of "Content (decimal K)" wo n fs] k
      by (simp add: l)
  qed
  have 5: "fst (safe_filename wo n (fresh_process Absent fs)) = Some (''1'' @ extension n)"
    "fst (safe_filename wo n (fresh_process Unreadable fs)) = Some (''1'' @ extension n)"
    by (rule zero, simp add: load_counter_def)+
  have 6: "fst (safe_filename wo n (fresh_process (Content t) fs)) = Some (''1'' @ extension n)"
    if "py_int_of_str (py_strip t) = None"
    using that by (intro zero py_int_of_str_strip_None)
  from 1 2 3 4 5 6 show ?thesis by blast
qed

theorem counter_restart_witness:
  "\<bar>41::int\<bar> < 10 ^ int_max_str_digits \<and> (41::int) + 1 < 10 ^ int_max_str_digits \<and>
   fst (safe_filename Written ''voice.m4a'' (fresh_process (Content ''41'') {})) = Some ''42.m4a'' \<and>
   py_isspace (CHR 0x0A) \<and>
   fst (safe_filename Written ''voice.m4a''
          (fresh_process (Content (''41'' @ [CHR 0x0A])) {})) = Some ''42.m4a'' \<and>
   fst (safe_filename Written ''voice.m4a'' (fresh_process (Content ''-7'') {})) = Some ''-6.m4a'' \<and>
   py_int_of_str (py_strip ''4x1'') = None \<and>
   fst (safe_filename Written ''voice.m4a'' (fresh_process (Content ''4x1'') {})) = Some ''1.m4a'' \<and>
   fst (safe_filename Written ''voice.m4a'' (fresh_process Absent {})) = Some ''1.m4a'' \<and>
   fst (safe_filename Written ''voice.m4a''
          (fresh_process (Content (decimal (10 ^ int_max_str_digits - 1))) {})) = None \<and>
   fst (safe_filename Written ''voice.m4a''
          (fresh_process (Content (decimal (- (10 ^ int_max_str_digits)))) {})) = Some ''1.m4a''"
proof -
  have e: "decimal 41 = ''41''" "decimal 42 = ''42''" "decimal (- 7) = ''-7''" "decimal (- 6) = ''-6''"
    "extension ''voice.m4a'' = ''.m4a''"
    by (simp_all add: eval_names)
  have k: "\<bar>41::int\<bar> < 10 ^ int_max_str_digits \<and> (41::int) + 1 < 10 ^ int_max_str_digits"
    "\<bar>- 7::int\<bar> < 10 ^ int_max_str_digits \<and> (- 7::int) + 1 < 10 ^ int_max_str_digits"
    using small_within_limit [of 41] small_within_limit [of 42] small_within_limit [of "- 7"]
      small_within_limit [of "- 6"] by simp_all
  have sp: "(\<forall>c\<in>set ([]::string). py_isspace c) \<and> (\<forall>c\<in>set [CHR 0x0A]. py_isspace c)"
    by (simp add: py_isspace_def)
  have bad: "py_int_of_str (py_strip ''4x1'') = None"
    by (simp add: py_int_of_str_def py_strip_def py_isspace_def int_space_def int_literal_def
        is_digit_def)
  note t1 = counter_restart [of 41 Written "''voice.m4a''" "{}" "[]" "[CHR 0x0A]" "''4x1''"]
  note t2 = counter_restart [of "- 7" Written "''voice.m4a''" "{}" "[]" "[CHR 0x0A]" "''4x1''"]
  note t3 = counter_restart [of "10 ^ int_max_str_digits - 1" Written "''voice.m4a''" "{}"
      "[]" "[CHR 0x0A]" "''4x1''"]
  note t4 = counter_restart [of "- (10 ^ int_max_str_digits)" Written "''voice.m4a''" "{}"
      "[]" "[CHR 0x0A]" "''4x1''"]
  have a: "fst (safe_filename Written ''voice.m4a'' (fresh_process (Content ''41'') {})) = Some ''42.m4a''"
    using t1 k(1) by (simp add: e)
  have b: "fst (safe_filename Written ''voice.m4a''
          (fresh_process (Content (''41'' @ [CHR 0x0A])) {})) = Some ''42.m4a''"
    using t1 k(1) sp by (simp add: e)
  have c: "fst (safe_filename Written ''voice.m4a'' (fresh_process (Content ''-7'') {})) = Some ''-6.m4a''"
    using t2 k(2) by (simp add: e)
  have d: "fst (safe_filename Written ''voice.m4a'' (fresh_process (Content ''4x1'') {})) = Some ''1.m4a''"
    using t1 bad by (simp add: e)
  have f: "fst (safe_filename Written ''voice.m4a'' (fresh_process Absent {})) = Some ''1.m4a''"
    using t1 by (simp add: e)
  have g: "fst (safe_filename Written ''voice.m4a''
          (fresh_process (Content (decimal (10 ^ int_max_str_digits - 1))) {})) = None"
    using t3 by simp
  have h: "fst (safe_filename Written ''voice.m4a''
          (fresh_process (Content (decimal (- (10 ^ int_max_str_digits)))) {})) = Some ''1.m4a''"
    using t4 by (simp add: e)
  from k(1) a b c d f g h bad sp show ?thesis by simp
qed

text \<open>
  C6, as stated, fails for a number of more than 4300 digits: with the decimal of 10 to
  the power 4300 in the counter file, \<^verbatim>\<open>int\<close> raises on the text, the error is swallowed,
  the counter starts at 0 and the first allocation returns the number 1.
\<close>

theorem counter_restart_digit_limit_counterexample:
  "int_max_str_digits = 4300 \<and>
   safe_filename Written ''voice.m4a''
       (fresh_process (Content (decimal (10 ^ int_max_str_digits))) {})
     = (Some ''1.m4a'',
        \<lparr>file_counter = 1, counter_lock = True, disk_counter = Content ''1'', files = {}\<rparr>) \<and>
   decimal (10 ^ int_max_str_digits + 1) @ extension ''voice.m4a'' \<noteq> ''1.m4a''"
proof -
  have x: "extension ''voice.m4a'' = ''.m4a''" by (simp add: eval_names)
  have l: "load_counter (Content (decimal (10 ^ int_max_str_digits))) = 0"
    by (simp add: load_counter_decimal)
  have c: "(1::int) = (if counter_lock (fresh_process (Content (decimal (10 ^ int_max_str_digits))) {})
                       then file_counter (fresh_process (Content (decimal (10 ^ int_max_str_digits))) {})
                       else load_counter (disk_counter
                              (fresh_process (Content (decimal (10 ^ int_max_str_digits))) {}))) + 1"
    by (simp add: fresh_process_def l)
  have a: "safe_filename Written ''voice.m4a''
       (fresh_process (Content (decimal (10 ^ int_max_str_digits))) {})
     = (Some ''1.m4a'',
        \<lparr>file_counter = 1, counter_lock = True, disk_counter = Content ''1'', files = {}\<rparr>)"
    unfolding safe_filename_within [OF c one_within_limit] decimal_1 x
    by (simp add: fresh_process_def)
  have "decimal (10 ^ int_max_str_digits + 1) @ extension ''voice.m4a''
      \<noteq> decimal 1 @ extension ''voice.m4a''"
  proof
    assume "decimal (10 ^ int_max_str_digits + 1) @ extension ''voice.m4a''
      = decimal 1 @ extension ''voice.m4a''"
    then have "(10::int) ^ int_max_str_digits + 1 = 1" by (rule allocated_name_inj)
    then show False by simp
  qed
  then have b: "decimal (10 ^ int_max_str_digits + 1) @ extension ''voice.m4a'' \<noteq> ''1.m4a''"
    by (simp add: decimal_1 x)
  have "int_max_str_digits = 4300" by (simp add: int_max_str_digits_def)
  with a b show ?thesis by blast
qed

section \<open>Properties of doubles\<close>

lemma pow2_powi: "pow2 e = 2 powi e"
  by (simp add: pow2_def power_int_def power_inverse inverse_eq_divide power_one_over)

lemma pow2_pos: "0 < pow2 e"
  by (simp add: pow2_powi)

lemma pow2_add: "pow2 (a + b) = pow2 a * pow2 b"
  by (simp add: pow2_powi power_int_add)

lemma pow2_mono: "a \<le> b \<Longrightarrow> pow2 a \<le> pow2 b"
  by (simp add: pow2_powi power_int_increasing)

lemma pow2_strict_mono: "a < b \<Longrightarrow> pow2 a < pow2 b"
  by (simp add: pow2_powi power_int_strict_increasing)

lemma pow2_nat: "pow2 (int n) = 2 ^ n"
  by (simp add: pow2_def)

lemma bit_length_bounds:
  "0 < n \<Longrightarrow> 2 ^ (bit_length n - 1) \<le> n \<and> n < 2 ^ bit_length n"
proof (induction n rule: bit_length.induct)
  case (1 n)
  show ?case
  proof (cases "n div 2 = 0")
    case True
    then have "n = 1" using 1(2) by linarith
    then show ?thesis by (simp add: bit_length.simps)
  next
    case False
    then have ih: "2 ^ (bit_length (n div 2) - 1) \<le> n div 2" "n div 2 < 2 ^ bit_length (n div 2)"
      using 1 by simp_all
    have pos: "0 < bit_length (n div 2)" using False by (subst bit_length.simps) simp
    have b: "bit_length n = Suc (bit_length (n div 2))"
      using 1(2) by (subst bit_length.simps) simp
    have "2 ^ (bit_length n - 1) = 2 * 2 ^ (bit_length (n div 2) - 1)"
      using pos by (cases "bit_length (n div 2)") (simp_all add: b)
    also have "\<dots> \<le> 2 * (n div 2)" using ih(1) by simp
    also have "\<dots> \<le> n" by simp
    finally have lo: "2 ^ (bit_length n - 1) \<le> n" .
    have "n < 2 * (n div 2) + 2" by linarith
    also have "\<dots> \<le> 2 * 2 ^ bit_length (n div 2)" using ih(2) by simp
    finally have "n < 2 ^ bit_length n" by (simp add: b)
    with lo show ?thesis by simp
  qed
qed

lemma floor_log2_bounds:
  assumes "0 < x"
  shows "pow2 (floor_log2 x) \<le> x" "x < pow2 (floor_log2 x + 1)"
proof -
  obtain p q where pq: "quotient_of x = (p, q)" by (cases "quotient_of x")
  have q: "0 < q" using pq quotient_of_denom_pos by blast
  have x: "x = of_int p / of_int q" using pq by (rule quotient_of_div)
  have p: "0 < p" using assms q unfolding x by (simp add: zero_less_divide_iff)
  define bp where "bp = bit_length (nat p)"
  define bq where "bq = bit_length (nat q)"
  define e where "e = int bp - int bq"
  have np: "0 < nat p" "0 < nat q" using p q by simp_all
  have bp: "2 ^ (bp - 1) \<le> nat p" "nat p < 2 ^ bp"
    using bit_length_bounds [OF np(1)] by (simp_all add: bp_def)
  have bq: "2 ^ (bq - 1) \<le> nat q" "nat q < 2 ^ bq"
    using bit_length_bounds [OF np(2)] by (simp_all add: bq_def)
  have bpos: "0 < bp" "0 < bq"
    using np by (simp_all add: bp_def bq_def bit_length.simps [of "nat p"] bit_length.simps [of "nat q"])
  have rp: "(of_nat (nat p) :: rat) = of_int p" "(of_nat (nat q) :: rat) = of_int q"
    using p q by simp_all
  have p_hi: "(of_int p :: rat) < 2 ^ bp"
    using bp(2) by (metis rp(1) of_nat_less_iff of_nat_numeral of_nat_power)
  have q_lo: "(2 :: rat) ^ (bq - 1) \<le> of_int q"
    using bq(1) by (metis rp(2) of_nat_le_iff of_nat_numeral of_nat_power)
  have q_hi: "(of_int q :: rat) < 2 ^ bq"
    using bq(2) by (metis rp(2) of_nat_less_iff of_nat_numeral of_nat_power)
  have p_lo: "(2 :: rat) ^ (bp - 1) \<le> of_int p"
    using bp(1) by (metis rp(1) of_nat_le_iff of_nat_numeral of_nat_power)
  have qr: "(0::rat) < of_int q" using q by simp
  have hi: "x < pow2 (e + 1)"
  proof -
    have "pow2 (e + 1) * of_int q \<ge> pow2 (e + 1) * 2 ^ (bq - 1)"
      using q_lo pow2_pos [of "e + 1"] by (simp add: mult_left_mono)
    moreover have "pow2 (e + 1) * 2 ^ (bq - 1) = pow2 (e + 1 + int (bq - 1))"
      by (simp add: pow2_add pow2_nat)
    moreover have "e + 1 + int (bq - 1) = int bp" using bpos by (simp add: e_def)
    ultimately have "(2::rat) ^ bp \<le> pow2 (e + 1) * of_int q" by (simp add: pow2_nat)
    then have "of_int p < pow2 (e + 1) * of_int q" using p_hi by linarith
    then show ?thesis unfolding x using qr by (simp add: pos_divide_less_eq)
  qed
  have lo: "pow2 (e - 1) < x"
  proof -
    have "pow2 (e - 1) * of_int q < pow2 (e - 1) * 2 ^ bq"
      using q_hi pow2_pos [of "e - 1"] by (simp add: mult_strict_left_mono)
    moreover have "pow2 (e - 1) * 2 ^ bq = pow2 (e - 1 + int bq)"
      by (simp add: pow2_add pow2_nat)
    moreover have "e - 1 + int bq = int (bp - 1)" using bpos by (simp add: e_def)
    ultimately have "pow2 (e - 1) * of_int q < 2 ^ (bp - 1)" by (simp add: pow2_nat)
    then have "pow2 (e - 1) * of_int q < of_int p" using p_lo by linarith
    then show ?thesis unfolding x using qr by (simp add: pos_less_divide_eq)
  qed
  have fl: "floor_log2 x = (if pow2 e \<le> x then e else e - 1)"
    by (simp add: floor_log2_def pq Let_def e_def bp_def bq_def)
  show "pow2 (floor_log2 x) \<le> x" using lo by (simp add: fl)
  show "x < pow2 (floor_log2 x + 1)" using hi by (auto simp: fl)
qed

lemma floor_log2_unique:
  assumes "pow2 e \<le> x" "x < pow2 (e + 1)"
  shows "floor_log2 x = e"
proof -
  have x: "0 < x" using assms(1) pow2_pos [of e] by linarith
  note b = floor_log2_bounds [OF x]
  have "\<not> floor_log2 x < e"
  proof
    assume "floor_log2 x < e"
    then have "pow2 (floor_log2 x + 1) \<le> pow2 e" by (intro pow2_mono) simp
    then show False using b(2) assms(1) by linarith
  qed
  moreover have "\<not> e < floor_log2 x"
  proof
    assume "e < floor_log2 x"
    then have "pow2 (e + 1) \<le> pow2 (floor_log2 x)" by (intro pow2_mono) simp
    then show False using b(1) assms(2) by linarith
  qed
  ultimately show ?thesis by simp
qed

lemma round_half_even_near:
  "\<bar>of_int (round_half_even y) - y\<bar> \<le> 1 / 2"
proof -
  have "of_int \<lfloor>y\<rfloor> \<le> y" "y < of_int \<lfloor>y\<rfloor> + 1" by linarith+
  then show ?thesis by (auto simp: round_half_even_def Let_def)
qed

lemma round_half_even_cert:
  assumes "of_int m - 1 / 2 < y" "y < of_int m + 1 / 2"
  shows "round_half_even y = m"
proof -
  have "\<bar>of_int (round_half_even y) - y\<bar> \<le> 1 / 2" by (rule round_half_even_near)
  then have "\<bar>(of_int (round_half_even y) :: rat) - of_int m\<bar> < 1" using assms by linarith
  then have "\<bar>(of_int (round_half_even y - m) :: rat)\<bar> < 1" by simp
  then have "\<bar>round_half_even y - m\<bar> < 1"
    by (metis of_int_abs of_int_less_1_iff)
  then show ?thesis by simp
qed

lemma round_half_even_of_int: "round_half_even (of_int m) = m"
  by (rule round_half_even_cert) simp_all

lemma to_double_cert:
  assumes "pow2 e \<le> x" "x < pow2 (e + 1)" "q = max (e - 52) (- 1074)"
      and "(of_int m - 1 / 2) * pow2 q < x" "x < (of_int m + 1 / 2) * pow2 q"
      and "of_int m * pow2 q < 2 ^ 1024"
  shows "to_double x = Finite (of_int m * pow2 q)"
proof -
  have x: "0 < x" using assms(1) pow2_pos [of e] by linarith
  have fl: "floor_log2 x = e" using assms(1,2) by (rule floor_log2_unique)
  have "of_int m - 1 / 2 < x / pow2 q" "x / pow2 q < of_int m + 1 / 2"
    using assms(4,5) pow2_pos [of q] by (simp_all add: pos_less_divide_eq pos_divide_less_eq)
  then have r: "round_half_even (x / pow2 q) = m" by (rule round_half_even_cert)
  show ?thesis
    using x assms(6) by (simp add: to_double_def Let_def fl assms(3) [symmetric] r)
qed

lemma below_double_limit: "r < 2 ^ 10 \<Longrightarrow> r < (2::rat) ^ 1024"
proof -
  assume "r < 2 ^ 10"
  moreover have "(2::rat) ^ 10 \<le> 2 ^ 1024" by (rule power_increasing) simp_all
  ultimately show ?thesis by linarith
qed

lemma to_double_0: "to_double 0 = Finite 0"
  by (simp add: to_double_def)

lemma to_double_2: "to_double 2 = Finite 2"
proof -
  have "to_double 2 = Finite (of_int (2 ^ 52) * pow2 (- 51))"
    by (rule to_double_cert [where e = 1])
       (simp_all add: pow2_def below_double_limit)
  then show ?thesis by (simp add: pow2_def)
qed

lemma to_double_half_thousandth:
  "to_double (1 / 2000) = Finite (1152921504606847 / 2305843009213693952)"
proof -
  have "to_double (1 / 2000) = Finite (of_int 4611686018427388 * pow2 (- 63))"
    by (rule to_double_cert [where e = "- 11"])
       (simp_all add: pow2_def below_double_limit)
  then show ?thesis by (simp add: pow2_def)
qed

lemma to_double_thousandth:
  "to_double (1 / 1000) = Finite (1152921504606847 / 1152921504606846976)"
proof -
  have "to_double (1 / 1000) = Finite (of_int 4611686018427388 * pow2 (- 62))"
    by (rule to_double_cert [where e = "- 10"])
       (simp_all add: pow2_def below_double_limit)
  then show ?thesis by (simp add: pow2_def)
qed

lemma py_round3_0: "py_round3 (Finite 0) = Finite 0"
  by (simp add: py_round3_def round_half_even_of_int [of 0, simplified] to_double_0)

lemma py_round3_2: "py_round3 (Finite 2) = Finite 2"
proof -
  have "round_half_even (2 * 1000) = 2000"
    using round_half_even_of_int [of 2000] by simp
  then show ?thesis by (simp add: py_round3_def to_double_2)
qed

lemma py_round3_half_thousandth:
  "py_round3 (Finite (1152921504606847 / 2305843009213693952))
     = Finite (1152921504606847 / 1152921504606846976)"
proof -
  have "round_half_even (1152921504606847 / 2305843009213693952 * 1000) = 1"
    by (rule round_half_even_cert) simp_all
  then show ?thesis by (simp add: py_round3_def to_double_thousandth)
qed

lemma to_double_accurate:
  assumes "pow2 (- 1022) \<le> x" "x < pow2 1023"
  shows "\<exists>d. to_double x = Finite d \<and> \<bar>d - x\<bar> \<le> x / 2 ^ 53"
proof -
  have x: "0 < x" using assms(1) pow2_pos [of "- 1022"] by linarith
  define e where "e = floor_log2 x"
  define m where "m = round_half_even (x / pow2 (e - 52))"
  have b: "pow2 e \<le> x" "x < pow2 (e + 1)"
    using floor_log2_bounds [OF x] by (simp_all add: e_def)
  have lo: "- 1022 \<le> e"
  proof (rule ccontr)
    assume "\<not> - 1022 \<le> e"
    then have "pow2 (e + 1) \<le> pow2 (- 1022)" by (intro pow2_mono) simp
    then show False using b(2) assms(1) by linarith
  qed
  have hi: "e \<le> 1022"
  proof (rule ccontr)
    assume "\<not> e \<le> 1022"
    then have "pow2 1023 \<le> pow2 e" by (intro pow2_mono) simp
    then show False using b(1) assms(2) by linarith
  qed
  have q: "max (e - 52) (- 1074) = e - 52" using lo by simp
  have near: "\<bar>of_int m - x / pow2 (e - 52)\<bar> \<le> 1 / 2"
    unfolding m_def by (rule round_half_even_near)
  have pq: "0 < pow2 (e - 52)" by (rule pow2_pos)
  have "of_int m * pow2 (e - 52) - x = (of_int m - x / pow2 (e - 52)) * pow2 (e - 52)"
    using pq by (simp add: left_diff_distrib)
  then have "\<bar>of_int m * pow2 (e - 52) - x\<bar> = \<bar>of_int m - x / pow2 (e - 52)\<bar> * pow2 (e - 52)"
    using pq by (simp add: abs_mult)
  also have "\<dots> \<le> 1 / 2 * pow2 (e - 52)"
    using near pq by (intro mult_right_mono) simp_all
  also have "\<dots> = pow2 (e - 53)"
    using pow2_add [of "e - 53" 1] by (simp add: pow2_def [of 1])
  finally have err: "\<bar>of_int m * pow2 (e - 52) - x\<bar> \<le> pow2 (e - 53)" .
  have "pow2 (e - 53) = pow2 e / 2 ^ 53"
    using pow2_add [of "e - 53" 53] by (simp add: pow2_nat [of 53, simplified])
  also have "\<dots> \<le> x / 2 ^ 53" using b(1) by (simp add: divide_right_mono)
  finally have rel: "pow2 (e - 53) \<le> x / 2 ^ 53" .
  have "pow2 (e - 53) \<le> pow2 1022" "pow2 (e + 1) \<le> pow2 1023"
    using hi by (intro pow2_mono; simp)+
  then have "of_int m * pow2 (e - 52) < pow2 1023 + pow2 1022"
    using err b(2) by linarith
  also have "\<dots> \<le> pow2 1024"
    using pow2_add [of 1023 1] pow2_mono [of 1022 1023] by (simp add: pow2_def [of 1])
  finally have fin: "of_int m * pow2 (e - 52) < 2 ^ 1024"
    using pow2_nat [of 1024] by simp
  have "to_double x = Finite (of_int m * pow2 (e - 52))"
    using x fin by (simp add: to_double_def Let_def e_def [symmetric] q m_def [symmetric])
  with err rel show ?thesis by force
qed

section \<open>Properties of the upload endpoint\<close>

lemma safe_filename_state:
  "counter_lock (snd (safe_filename wo n st))"
  "files (snd (safe_filename wo n st)) = files st"
  "fst (safe_filename wo n st) \<noteq> None \<Longrightarrow>
     fst (safe_filename wo n st)
       = Some (decimal (file_counter (snd (safe_filename wo n st))) @ extension n)"
  by (simp_all add: safe_filename_eq Let_def py_str_eq split: if_splits)

lemma upload_audio_converted:
  assumes "fname \<noteq> []" "body_write env = None" "convert env = Converted"
      and "fst (safe_filename (counter_write env) fname st) \<noteq> None"
  shows "upload_audio env (Some fname) st =
     (let st1 = snd (safe_filename (counter_write env) fname st);
          c = file_counter st1;
          in_filename = decimal c @ extension fname;
          out_filename = decimal c @ ''.wav''
      in (Inr \<lparr>up_status = ''ok'',
               up_wav_filename = out_filename,
               up_wav_path = path_child (upload_dir env) out_filename,
               up_duration_seconds =
                 (case get_wav_duration_seconds (wave_open env) of
                    Inl e \<Rightarrow> None
                  | Inr d \<Rightarrow> Some (py_round3 d)),
               up_message = converted_message\<rparr>,
          st1\<lparr>files := unlink (unlink_ok env) in_filename
                           (insert out_filename (insert in_filename (files st)))\<rparr>))"
proof -
  obtain r st1 where sf: "safe_filename (counter_write env) fname st = (r, st1)"
    by (cases "safe_filename (counter_write env) fname st")
  have r: "r = Some (decimal (file_counter st1) @ extension fname)" and f: "files st1 = files st"
    using safe_filename_state(2,3) [of "counter_write env" fname st] assms(4) sf by simp_all
  have stem: "path_stem (decimal (file_counter st1) @ extension fname) = decimal (file_counter st1)"
    by (rule path_stem_allocated)
  show ?thesis
    using assms(1,2,3) sf stem f
    by (simp add: upload_audio_def Let_def r converted_message_def split: sum.splits)
qed

lemma upload_audio_success:
  assumes "upload_audio env filename st = (Inr resp, st')"
  shows "\<exists>fname. filename = Some fname \<and> fname \<noteq> [] \<and> body_write env = None \<and>
           convert env = Converted \<and> fst (safe_filename (counter_write env) fname st) \<noteq> None"
  using assms
  by (auto simp: upload_audio_def Let_def split: option.splits if_splits prod.splits
      convert_outcome.splits)

lemma extension_m4a: "extension ''voice.m4a'' = ''.m4a''"
  by (simp add: extension_def path_suffix_def path_name_def Let_def)

lemma safe_filename_first:
  "safe_filename Written ''voice.m4a'' (fresh_process Absent fs)
     = (Some ''1.m4a'', \<lparr>file_counter = 1, counter_lock = True, disk_counter = Content ''1'',
                         files = fs\<rparr>)"
proof -
  have c: "(1::int) = (if counter_lock (fresh_process Absent fs)
                       then file_counter (fresh_process Absent fs)
                       else load_counter (disk_counter (fresh_process Absent fs))) + 1"
    by (simp add: fresh_process_def load_counter_Absent)
  show ?thesis
    unfolding safe_filename_within [OF c one_within_limit] decimal_1 extension_m4a
    by (simp add: fresh_process_def)
qed

lemma files_fresh: "files (fresh_process f fs) = fs"
  by (simp add: fresh_process_def)

lemma upload_first:
  "upload_audio (converting_env wave ok) (Some ''voice.m4a'') (fresh_process Absent fs)
     = (Inr \<lparr>up_status = ''ok'', up_wav_filename = ''1.wav'', up_wav_path = ''uploads/1.wav'',
             up_duration_seconds =
               (case get_wav_duration_seconds wave of Inl e \<Rightarrow> None | Inr d \<Rightarrow> Some (py_round3 d)),
             up_message = converted_message\<rparr>,
        \<lparr>file_counter = 1, counter_lock = True, disk_counter = Content ''1'',
         files = unlink ok ''1.m4a'' (insert ''1.wav'' (insert ''1.m4a'' fs))\<rparr>)"
proof -
  have c: "''voice.m4a'' \<noteq> []" "body_write (converting_env wave ok) = None"
    "convert (converting_env wave ok) = Converted"
    "fst (safe_filename (counter_write (converting_env wave ok)) ''voice.m4a''
           (fresh_process Absent fs)) \<noteq> None"
    by (simp_all add: converting_env_def safe_filename_first)
  show ?thesis
    unfolding upload_audio_converted [OF c] Let_def
    by (simp add: converting_env_def safe_filename_first decimal_1 extension_m4a
        files_fresh path_child_def)
qed

lemma duration_2: "get_wav_duration_seconds (WaveFile 32000 16000) = Inr (Finite 2)"
  by (simp add: get_wav_duration_seconds_def py_float_of_int_small to_double_2)

lemma duration_half_thousandth:
  "get_wav_duration_seconds (WaveFile 8 16000)
     = Inr (Finite (1152921504606847 / 2305843009213693952))"
  by (simp add: get_wav_duration_seconds_def py_float_of_int_small to_double_half_thousandth)

lemma unlink_example:
  "unlink True ''1.m4a'' (insert ''1.wav'' (insert ''1.m4a'' {''notes.txt''}))
     = {''notes.txt'', ''1.wav''}"
  "unlink False ''1.m4a'' (insert ''1.wav'' (insert ''1.m4a'' {})) = {''1.wav'', ''1.m4a''}"
  by (simp_all add: unlink_def insert_commute)

lemma duration_in_range:
  assumes "rate \<noteq> 0" "frames < 2 ^ 53" "rate < 2 ^ 53"
  shows "get_wav_duration_seconds (WaveFile frames rate)
           = Inr (to_double (of_nat frames / of_nat rate))"
    and "\<exists>d. to_double (of_nat frames / of_nat rate) = Finite d \<and>
           \<bar>d - of_nat frames / of_nat rate\<bar> \<le> of_nat frames / of_nat rate / 2 ^ 53"
proof -
  have "\<bar>int frames\<bar> < 2 ^ 53" "\<bar>int rate\<bar> < 2 ^ 53"
    using assms(2,3) by (simp_all add: of_nat_less_numeral_power_cancel_iff)
  then show "get_wav_duration_seconds (WaveFile frames rate)
           = Inr (to_double (of_nat frames / of_nat rate))"
    using assms(1) by (simp add: get_wav_duration_seconds_def py_float_of_int_small)
  let ?x = "of_nat frames / of_nat rate :: rat"
  show "\<exists>d. to_double ?x = Finite d \<and> \<bar>d - ?x\<bar> \<le> ?x / 2 ^ 53"
  proof (cases "frames = 0")
    case True
    then show ?thesis by (simp add: to_double_0)
  next
    case False
    have r: "(1::rat) \<le> of_nat rate" "(of_nat rate :: rat) < 2 ^ 53"
      using assms(1,3) by (simp_all add: Suc_le_eq of_nat_less_numeral_power_cancel_iff)
    have f: "(1::rat) \<le> of_nat frames" "(of_nat frames :: rat) < 2 ^ 53"
      using False assms(2) by (simp_all add: Suc_le_eq of_nat_less_numeral_power_cancel_iff)
    have "1 / 2 ^ 53 < ?x"
    proof -
      have "1 / 2 ^ 53 < 1 / (of_nat rate :: rat)"
        using r by (simp add: frac_less2)
      also have "\<dots> \<le> ?x" using f(1) r(1) by (simp add: divide_right_mono)
      finally show ?thesis .
    qed
    moreover have "pow2 (- 1022) \<le> 1 / 2 ^ 53"
      using pow2_mono [of "- 1022" "- 53"] by (simp add: pow2_def [of "- 53"])
    ultimately have lo: "pow2 (- 1022) \<le> ?x" by linarith
    have "?x \<le> of_nat frames" using r(1) f(1)
      by (simp add: pos_divide_le_eq mult_le_cancel_left1)
    moreover have "(2::rat) ^ 53 \<le> pow2 1023"
      using pow2_mono [of 53 1023] by (simp add: pow2_def [of 53])
    ultimately have hi: "?x < pow2 1023" using f(2) by linarith
    from lo hi show ?thesis by (rule to_double_accurate)
  qed
qed

text \<open>
  C2, as amended. For a file whose header gives the frame rate zero the duration is the
  number 0.0 (neither null nor an error); for any other frame rate it is the frame count
  divided by the frame rate as a float: for counts and rates below 2 to the power 53, as
  the 32-bit fields of a wave header are, the double nearest to the quotient, which
  differs from it by at most the quotient over 2 to the power 53. When opening or reading
  the file raises, the function raises. In the upload response of a converted file the
  duration is that number rounded to three decimals, so 0.0 for a frame rate of zero, and
  null exactly when the function raised: the request succeeds in each case.
\<close>

theorem duration_of_wav:
  "get_wav_duration_seconds (WaveFile frames 0) = Inr (Finite 0) \<and>
   (rate \<noteq> 0 \<and> frames < 2 ^ 53 \<and> rate < 2 ^ 53 \<longrightarrow>
      get_wav_duration_seconds (WaveFile frames rate)
        = Inr (to_double (of_nat frames / of_nat rate)) \<and>
      (\<exists>d. to_double (of_nat frames / of_nat rate) = Finite d \<and>
           \<bar>d - of_nat frames / of_nat rate\<bar> \<le> of_nat frames / of_nat rate / 2 ^ 53)) \<and>
   get_wav_duration_seconds (WaveRaises e) = Inl e \<and>
   (fname \<noteq> [] \<and> body_write env = None \<and> convert env = Converted \<and>
    fst (safe_filename (counter_write env) fname st) \<noteq> None \<longrightarrow>
      (\<exists>resp st'. upload_audio env (Some fname) st = (Inr resp, st') \<and>
         up_status resp = ''ok'' \<and>
         up_duration_seconds resp =
           (case get_wav_duration_seconds (wave_open env) of
              Inl e \<Rightarrow> None
            | Inr d \<Rightarrow> Some (py_round3 d)) \<and>
         (up_duration_seconds resp = None
            \<longleftrightarrow> (\<exists>e. get_wav_duration_seconds (wave_open env) = Inl e)) \<and>
         (\<forall>n. wave_open env = WaveFile n 0 \<longrightarrow> up_duration_seconds resp = Some (Finite 0))))"
proof -
  have up: "\<exists>resp st'. upload_audio env (Some fname) st = (Inr resp, st') \<and>
         up_status resp = ''ok'' \<and>
         up_duration_seconds resp =
           (case get_wav_duration_seconds (wave_open env) of
              Inl e \<Rightarrow> None
            | Inr d \<Rightarrow> Some (py_round3 d)) \<and>
         (up_duration_seconds resp = None
            \<longleftrightarrow> (\<exists>e. get_wav_duration_seconds (wave_open env) = Inl e)) \<and>
         (\<forall>n. wave_open env = WaveFile n 0 \<longrightarrow> up_duration_seconds resp = Some (Finite 0))"
    if h: "fname \<noteq> [] \<and> body_write env = None \<and> convert env = Converted \<and>
        fst (safe_filename (counter_write env) fname st) \<noteq> None"
  proof -
    have z: "get_wav_duration_seconds (WaveFile n 0) = Inr (Finite 0)" for n
      by (simp add: get_wav_duration_seconds_def)
    show ?thesis
      using h upload_audio_converted [of fname env st]
      by (cases "get_wav_duration_seconds (wave_open env)")
         (auto simp: Let_def z py_round3_0)
  qed
  have 1: "get_wav_duration_seconds (WaveFile frames 0) = Inr (Finite 0)"
    "get_wav_duration_seconds (WaveRaises e) = Inl e"
    by (simp_all add: get_wav_duration_seconds_def)
  from up 1 duration_in_range [of rate frames] show ?thesis by blast
qed

theorem duration_of_wav_witness:
  "(16000::nat) \<noteq> 0 \<and> (32000::nat) < 2 ^ 53 \<and> (16000::nat) < 2 ^ 53 \<and>
   get_wav_duration_seconds (WaveFile 32000 16000) = Inr (Finite 2) \<and>
   get_wav_duration_seconds (WaveFile 32000 0) = Inr (Finite 0) \<and>
   ''voice.m4a'' \<noteq> [] \<and>
   body_write (converting_env (WaveRaises ''not a WAVE file'') True) = None \<and>
   convert (converting_env (WaveRaises ''not a WAVE file'') True) = Converted \<and>
   fst (safe_filename (counter_write (converting_env (WaveRaises ''not a WAVE file'') True))
          ''voice.m4a'' (fresh_process Absent {})) = Some ''1.m4a'' \<and>
   get_wav_duration_seconds (wave_open (converting_env (WaveRaises ''not a WAVE file'') True))
     = Inl ''not a WAVE file'' \<and>
   (\<exists>resp st'.
      upload_audio (converting_env (WaveRaises ''not a WAVE file'') True)
          (Some ''voice.m4a'') (fresh_process Absent {}) = (Inr resp, st') \<and>
      up_status resp = ''ok'' \<and> up_duration_seconds resp = None) \<and>
   fst (upload_audio (converting_env (WaveFile 8 16000) True)
          (Some ''voice.m4a'') (fresh_process Absent {}))
     = Inr \<lparr>up_status = ''ok'', up_wav_filename = ''1.wav'', up_wav_path = ''uploads/1.wav'',
            up_duration_seconds = Some (Finite (1152921504606847 / 1152921504606846976)),
            up_message = converted_message\<rparr>"
proof -
  let ?env = "converting_env (WaveRaises ''not a WAVE file'') True"
  have sf: "fst (safe_filename (counter_write ?env) ''voice.m4a'' (fresh_process Absent {}))
      = Some ''1.m4a''"
    by (simp add: converting_env_def safe_filename_first)
  have h: "''voice.m4a'' \<noteq> [] \<and> body_write ?env = None \<and> convert ?env = Converted \<and>
      fst (safe_filename (counter_write ?env) ''voice.m4a'' (fresh_process Absent {})) \<noteq> None"
    by (simp add: sf) (simp add: converting_env_def)
  have w: "get_wav_duration_seconds (wave_open ?env) = Inl ''not a WAVE file''"
    by (simp add: converting_env_def get_wav_duration_seconds_def)
  have n: "(16000::nat) \<noteq> 0 \<and> (32000::nat) < 2 ^ 53 \<and> (16000::nat) < 2 ^ 53" by simp
  note t = duration_of_wav [of 32000 16000 "''not a WAVE file''" "''voice.m4a''" ?env
      "fresh_process Absent {}"]
  have a: "get_wav_duration_seconds (WaveFile 32000 16000) = Inr (Finite 2)"
    using t n by (simp add: to_double_2)
  have b: "get_wav_duration_seconds (WaveFile 32000 0) = Inr (Finite 0)"
    using t by blast
  have c: "\<exists>resp st'. upload_audio ?env (Some ''voice.m4a'') (fresh_process Absent {})
        = (Inr resp, st') \<and> up_status resp = ''ok'' \<and> up_duration_seconds resp = None"
    using t h w by auto
  have d: "fst (upload_audio (converting_env (WaveFile 8 16000) True)
          (Some ''voice.m4a'') (fresh_process Absent {}))
     = Inr \<lparr>up_status = ''ok'', up_wav_filename = ''1.wav'', up_wav_path = ''uploads/1.wav'',
            up_duration_seconds = Some (Finite (1152921504606847 / 1152921504606846976)),
            up_message = converted_message\<rparr>"
    unfolding upload_first duration_half_thousandth
    by (simp add: py_round3_half_thousandth)
  from n a b c d h sf w show ?thesis by simp
qed

text \<open>
  C2, as stated, fails for a frame rate of zero: the function returns the number 0.0, and
  the upload response carries the duration 0.0, not null.
\<close>

theorem zero_rate_duration_counterexample:
  "get_wav_duration_seconds (WaveFile 32000 0) = Inr (Finite 0) \<and>
   fst (upload_audio (converting_env (WaveFile 32000 0) True)
          (Some ''voice.m4a'') (fresh_process Absent {}))
     = Inr \<lparr>up_status = ''ok'', up_wav_filename = ''1.wav'', up_wav_path = ''uploads/1.wav'',
            up_duration_seconds = Some (Finite 0), up_message = converted_message\<rparr>"
  by (simp add: upload_first get_wav_duration_seconds_def py_round3_0)

text \<open>
  C9, as amended. An upload that ends in a success response has written the original
  under the allocated number and its extension, has converted it to the file of the same
  number with the extension \<^verbatim>\<open>.wav\<close>, which the response names, and has then tried to
  delete the original. When the deletion succeeds the original is no longer in storage,
  and (the upload's extension not being \<^verbatim>\<open>.wav\<close> itself) the wave file is: storage is what
  it was, with the wave file added and the original's name removed. When the deletion
  fails, the failure is swallowed, the response is the same success, and storage holds
  both the original and the wave file.
\<close>

theorem upload_leaves_wav:
  assumes "upload_audio env filename st = (Inr resp, st')"
  shows "\<exists>fname c. filename = Some fname \<and> c = file_counter st' \<and>
     up_status resp = ''ok'' \<and> up_wav_filename resp = decimal c @ ''.wav'' \<and>
     (unlink_ok env \<longrightarrow>
        decimal c @ extension fname \<notin> files st' \<and>
        files st' = insert (decimal c @ ''.wav'') (files st) - {decimal c @ extension fname}) \<and>
     (unlink_ok env \<and> extension fname \<noteq> ''.wav'' \<longrightarrow> decimal c @ ''.wav'' \<in> files st') \<and>
     (\<not> unlink_ok env \<longrightarrow>
        files st' = insert (decimal c @ ''.wav'')
                      (insert (decimal c @ extension fname) (files st)))"
proof -
  from upload_audio_success [OF assms] obtain fname where
    f: "filename = Some fname" "fname \<noteq> []" "body_write env = None" "convert env = Converted"
      "fst (safe_filename (counter_write env) fname st) \<noteq> None"
    by blast
  define st1 where "st1 = snd (safe_filename (counter_write env) fname st)"
  define c where "c = file_counter st1"
  define inn where "inn = decimal c @ extension fname"
  define out where "out = decimal c @ ''.wav''"
  have eq: "upload_audio env (Some fname) st =
      (Inr \<lparr>up_status = ''ok'', up_wav_filename = out,
             up_wav_path = path_child (upload_dir env) out,
             up_duration_seconds =
               (case get_wav_duration_seconds (wave_open env) of
                  Inl e \<Rightarrow> None | Inr d \<Rightarrow> Some (py_round3 d)),
             up_message = converted_message\<rparr>,
       st1\<lparr>files := unlink (unlink_ok env) inn (insert out (insert inn (files st)))\<rparr>)"
    unfolding upload_audio_converted [OF f(2,3,4,5)] Let_def st1_def c_def inn_def out_def
    by (rule refl)
  have st': "st' = st1\<lparr>files := unlink (unlink_ok env) inn (insert out (insert inn (files st)))\<rparr>"
    and r: "resp = \<lparr>up_status = ''ok'', up_wav_filename = out,
             up_wav_path = path_child (upload_dir env) out,
             up_duration_seconds =
               (case get_wav_duration_seconds (wave_open env) of
                  Inl e \<Rightarrow> None | Inr d \<Rightarrow> Some (py_round3 d)),
             up_message = converted_message\<rparr>"
    using assms unfolding f(1) eq by simp_all
  have resp: "up_status resp = ''ok''" "up_wav_filename resp = out" by (simp_all add: r)
  have cc: "file_counter st' = c" by (simp add: st' c_def)
  have fs: "files st' = unlink (unlink_ok env) inn (insert out (insert inn (files st)))"
    by (simp add: st')
  have 1: "inn \<notin> files st' \<and> files st' = insert out (files st) - {inn}" if "unlink_ok env"
    using that by (auto simp: fs unlink_def)
  have ne: "out \<noteq> inn" if "extension fname \<noteq> ''.wav''"
    using that by (simp add: inn_def out_def)
  have 2: "out \<in> files st'" if "unlink_ok env \<and> extension fname \<noteq> ''.wav''"
    using that ne by (auto simp: fs unlink_def)
  have 3: "files st' = insert out (insert inn (files st))" if "\<not> unlink_ok env"
    using that by (simp add: fs unlink_def)
  have "filename = Some fname \<and> c = file_counter st' \<and>
     up_status resp = ''ok'' \<and> up_wav_filename resp = decimal c @ ''.wav'' \<and>
     (unlink_ok env \<longrightarrow>
        decimal c @ extension fname \<notin> files st' \<and>
        files st' = insert (decimal c @ ''.wav'') (files st) - {decimal c @ extension fname}) \<and>
     (unlink_ok env \<and> extension fname \<noteq> ''.wav'' \<longrightarrow> decimal c @ ''.wav'' \<in> files st') \<and>
     (\<not> unlink_ok env \<longrightarrow>
        files st' = insert (decimal c @ ''.wav'')
                      (insert (decimal c @ extension fname) (files st)))"
    using f(1) cc resp 1 2 3 unfolding inn_def out_def by simp
  then show ?thesis by blast
qed

theorem upload_leaves_wav_witness:
  "upload_audio (converting_env (WaveFile 32000 16000) True) (Some ''voice.m4a'')
       (fresh_process Absent {''notes.txt''})
     = (Inr \<lparr>up_status = ''ok'', up_wav_filename = ''1.wav'', up_wav_path = ''uploads/1.wav'',
             up_duration_seconds = Some (Finite 2), up_message = converted_message\<rparr>,
        \<lparr>file_counter = 1, counter_lock = True, disk_counter = Content ''1'',
         files = {''notes.txt'', ''1.wav''}\<rparr>) \<and>
   unlink_ok (converting_env (WaveFile 32000 16000) True) \<and>
   extension ''voice.m4a'' = ''.m4a'' \<and>
   ''1.m4a'' \<notin> {''notes.txt'', ''1.wav''} \<and>
   ''1.wav'' \<in> {''notes.txt'', ''1.wav''}"
proof -
  let ?env = "converting_env (WaveFile 32000 16000) True"
  let ?st = "fresh_process Absent {''notes.txt''}"
  let ?resp = "\<lparr>up_status = ''ok'', up_wav_filename = ''1.wav'', up_wav_path = ''uploads/1.wav'',
             up_duration_seconds = Some (Finite 2), up_message = converted_message\<rparr>"
  let ?st' = "\<lparr>file_counter = 1, counter_lock = True, disk_counter = Content ''1'',
         files = {''notes.txt'', ''1.wav''}\<rparr>"
  have h: "upload_audio ?env (Some ''voice.m4a'') ?st = (Inr ?resp, ?st')"
    unfolding upload_first duration_2 unlink_example by (simp add: py_round3_2)
  have u: "unlink_ok ?env" by (simp add: converting_env_def)
  have e: "extension ''voice.m4a'' \<noteq> ''.wav''" by (simp add: extension_m4a)
  from upload_leaves_wav [OF h] obtain fname c where
    p: "Some ''voice.m4a'' = Some fname" "c = file_counter ?st'"
    and q: "unlink_ok ?env \<longrightarrow> decimal c @ extension fname \<notin> files ?st' \<and>
        files ?st' = insert (decimal c @ ''.wav'') (files ?st) - {decimal c @ extension fname}"
      "unlink_ok ?env \<and> extension fname \<noteq> ''.wav'' \<longrightarrow> decimal c @ ''.wav'' \<in> files ?st'"
    by blast
  have fn: "fname = ''voice.m4a''" and c: "c = 1" using p by simp_all
  have "decimal 1 @ extension ''voice.m4a'' \<notin> files ?st'" "decimal 1 @ ''.wav'' \<in> files ?st'"
    using q u e unfolding fn c by blast+
  then have "''1.m4a'' \<notin> {''notes.txt'', ''1.wav''}" "''1.wav'' \<in> {''notes.txt'', ''1.wav''}"
    unfolding decimal_1 extension_m4a by simp_all
  with h u extension_m4a show ?thesis by blast
qed

text \<open>
  C9, as stated, fails when the deletion of the original fails: the failure is swallowed,
  the response is a success, and the original stays in storage beside the wave file.
\<close>

theorem failed_unlink_keeps_original_counterexample:
  "upload_audio (converting_env (WaveFile 32000 16000) False) (Some ''voice.m4a'')
       (fresh_process Absent {})
     = (Inr \<lparr>up_status = ''ok'', up_wav_filename = ''1.wav'', up_wav_path = ''uploads/1.wav'',
             up_duration_seconds = Some (Finite 2), up_message = converted_message\<rparr>,
        \<lparr>file_counter = 1, counter_lock = True, disk_counter = Content ''1'',
         files = {''1.wav'', ''1.m4a''}\<rparr>)"
  unfolding upload_first duration_2 unlink_example by (simp add: py_round3_2)

end
